(* ===== verification/Prelude.thy ===== *)
theory Prelude
  imports Main "HOL-Library.Word" "HOL-Library.Sublist"
begin

text \<open>
  Shared vocabulary of the development: the machine types of the enclave, the result type of
  fallible Rust code, big-endian integers (the wire format of every frame, of the TLS profile and
  of the AWS event stream), and the generic list facts the components use.

  A Rust \<^verbatim>\<open>Result<T, E>\<close> is \<open>'e + 'a\<close> with \<open>Inl\<close> for \<^verbatim>\<open>Err\<close>
  and \<open>Inr\<close> for \<^verbatim>\<open>Ok\<close>.  A \<^verbatim>\<open>Vec<u8>\<close> is \<open>u8 list\<close>.  A
  \<^verbatim>\<open>usize\<close> that only counts bytes already in memory is a \<open>nat\<close>; where it
  is added to attacker-controlled values it is kept modulo \<open>2 ^ 64\<close> explicitly.
\<close>

section \<open>Collections of facts\<close>

named_theorems codec_simps \<open>round-trip equations of encoders and decoders\<close>
named_theorems io_simps \<open>equations of the I/O primitives\<close>
named_theorems bt_simps \<open>equations of ordered maps\<close>
named_theorems wf_intros \<open>well-formedness of JSON values is kept\<close>

section \<open>Types\<close>

type_synonym u8 = "8 word"
type_synonym u16 = "16 word"
type_synonym u32 = "32 word"
type_synonym u64 = "64 word"

abbreviation Ok :: "'a \<Rightarrow> 'e + 'a" where
  "Ok \<equiv> Inr"

abbreviation Err :: "'e \<Rightarrow> 'e + 'a" where
  "Err \<equiv> Inl"

definition result_bind :: "'e + 'a \<Rightarrow> ('a \<Rightarrow> 'e + 'b) \<Rightarrow> 'e + 'b" where
  "result_bind r f = (case r of Inl e \<Rightarrow> Inl e | Inr x \<Rightarrow> f x)"

definition ok_or :: "'e \<Rightarrow> 'a option \<Rightarrow> 'e + 'a" where
  "ok_or e x = (case x of None \<Rightarrow> Inl e | Some v \<Rightarrow> Inr v)"

definition result_ok :: "'e + 'a \<Rightarrow> 'a option" where
  "result_ok r = (case r of Inl _ \<Rightarrow> None | Inr v \<Rightarrow> Some v)"

definition is_ok :: "'e + 'a \<Rightarrow> bool" where
  "is_ok r = (case r of Inl _ \<Rightarrow> False | Inr _ \<Rightarrow> True)"

lemma result_bind_simps [simp]:
  "result_bind (Inl e) f = Inl e"
  "result_bind (Inr x) f = f x"
  by (simp_all add: result_bind_def)

lemma result_bind_Inr_iff: "result_bind r f = Inr y \<longleftrightarrow> (\<exists>x. r = Inr x \<and> f x = Inr y)"
  by (cases r) auto

lemma result_bind_Inl_iff:
  "result_bind r f = Inl e \<longleftrightarrow> r = Inl e \<or> (\<exists>x. r = Inr x \<and> f x = Inl e)"
  by (cases r) auto

lemma ok_or_simps [simp]: "ok_or e None = Inl e" "ok_or e (Some v) = Inr v"
  by (simp_all add: ok_or_def)

lemma result_ok_simps [simp]: "result_ok (Inl e) = None" "result_ok (Inr v) = Some v"
  by (simp_all add: result_ok_def)

lemma is_ok_simps [simp]: "is_ok (Inl e) = False" "is_ok (Inr v) = True"
  by (simp_all add: is_ok_def)

section \<open>Big-endian integers\<close>

text \<open>
  \<^verbatim>\<open>x.to_be_bytes()\<close> of a \<open>k\<close>-byte integer is \<open>nat_be k\<close> of its value, and
  \<^verbatim>\<open>uN::from_be_bytes\<close> is \<open>be_nat\<close>.  \<open>nat_be 4 n\<close> of a length is also
  \<^verbatim>\<open>(n as u32).to_be_bytes()\<close>: the cast drops the bits above the fourth byte.
\<close>

fun nat_be :: "nat \<Rightarrow> nat \<Rightarrow> u8 list" where
  "nat_be 0 n = []"
| "nat_be (Suc k) n = nat_be k (n div 256) @ [of_nat (n mod 256)]"

definition be_nat :: "u8 list \<Rightarrow> nat" where
  "be_nat bs = foldl (\<lambda>a b. a * 256 + unat b) 0 bs"

lemma be_nat_Nil [simp]: "be_nat [] = 0"
  by (simp add: be_nat_def)

lemma be_nat_snoc [simp]: "be_nat (bs @ [b]) = be_nat bs * 256 + unat b"
  by (simp add: be_nat_def)

lemma length_nat_be [simp]: "length (nat_be k n) = k"
  by (induction k arbitrary: n) auto

lemma unat_u8_less: "unat (b :: u8) < 256"
  using unsigned_less [of b] by simp

lemma unat_of_nat_mod256 [simp]: "unat (of_nat (n mod 256) :: u8) = n mod 256"
  by (simp add: unat_of_nat)

lemma be_nat_nat_be: "be_nat (nat_be k n) = n mod 256 ^ k"
proof (induction k arbitrary: n)
  case (Suc k)
  have "n div 256 mod 256 ^ k * 256 + n mod 256 = n mod (256 * 256 ^ k)"
    by (metis add.commute mod_mult2_eq mult.commute)
  then show ?case by (simp add: Suc)
qed simp

lemma be_nat_nat_be_small [codec_simps]: "n < 256 ^ k \<Longrightarrow> be_nat (nat_be k n) = n"
  by (simp add: be_nat_nat_be)

lemma be_nat_less: "be_nat bs < 256 ^ length bs"
proof (induction bs rule: rev_induct)
  case (snoc b bs)
  then have "be_nat bs + 1 \<le> 256 ^ length bs" by simp
  then have "(be_nat bs + 1) * 256 \<le> 256 ^ length bs * 256" by (rule mult_le_mono1)
  with unat_u8_less [of b] show ?case by simp
qed simp

lemma nat_be_be_nat [codec_simps]: "nat_be (length bs) (be_nat bs) = bs"
proof (induction bs rule: rev_induct)
  case (snoc b bs)
  have "(be_nat bs * 256 + unat b) div 256 = be_nat bs"
    and "(be_nat bs * 256 + unat b) mod 256 = unat b"
    using unat_u8_less [of b] by simp_all
  with snoc show ?case by simp
qed simp

lemma nat_be_eq_iff: "nat_be k m = nat_be k n \<longleftrightarrow> m mod 256 ^ k = n mod 256 ^ k"
proof
  assume "nat_be k m = nat_be k n"
  then have "be_nat (nat_be k m) = be_nat (nat_be k n)" by simp
  then show "m mod 256 ^ k = n mod 256 ^ k" by (simp add: be_nat_nat_be)
next
  assume "m mod 256 ^ k = n mod 256 ^ k"
  then have "be_nat (nat_be k m) = be_nat (nat_be k n)" by (simp add: be_nat_nat_be)
  then have "nat_be (length (nat_be k m)) (be_nat (nat_be k m))
      = nat_be (length (nat_be k n)) (be_nat (nat_be k n))" by simp
  then show "nat_be k m = nat_be k n" by (simp only: nat_be_be_nat)
qed

section \<open>Lists\<close>

text \<open>
  The first index at which a predicate holds: \<^verbatim>\<open>iter().position(..)\<close>.
\<close>

fun position :: "('a \<Rightarrow> bool) \<Rightarrow> 'a list \<Rightarrow> nat option" where
  "position P [] = None"
| "position P (x # xs) = (if P x then Some 0 else map_option Suc (position P xs))"

lemma position_None_iff: "position P xs = None \<longleftrightarrow> (\<forall>x\<in>set xs. \<not> P x)"
  by (induction xs) auto

lemma position_Some_iff:
  "position P xs = Some i \<longleftrightarrow> i < length xs \<and> P (xs ! i) \<and> (\<forall>j<i. \<not> P (xs ! j))"
proof (induction xs arbitrary: i)
  case (Cons x xs)
  show ?case
  proof (cases i)
    case (Suc k)
    have "(\<forall>j<Suc k. \<not> P ((x # xs) ! j)) \<longleftrightarrow> \<not> P x \<and> (\<forall>j<k. \<not> P (xs ! j))"
      by (auto simp: less_Suc_eq_0_disj)
    with Suc Cons.IH [of k] show ?thesis by auto
  qed auto
qed simp

lemma position_less: "position P xs = Some i \<Longrightarrow> i < length xs"
  by (simp add: position_Some_iff)

lemma position_append:
  "position P (xs @ ys) =
     (case position P xs of Some i \<Rightarrow> Some i | None \<Rightarrow> map_option ((+) (length xs)) (position P ys))"
proof (induction xs)
  case Nil
  have "(+) (0::nat) = id" by auto
  then show ?case by (simp add: option.map_id)
next
  case (Cons x xs)
  have "(+) (Suc (length xs)) = (\<lambda>i. Suc (length xs + i))" by auto
  with Cons show ?case by (simp add: option.map_comp comp_def split: option.splits)
qed

text \<open>Joining with a separator: \<^verbatim>\<open>parts.join(sep)\<close>.\<close>

fun join :: "'a list \<Rightarrow> 'a list list \<Rightarrow> 'a list" where
  "join sep [] = []"
| "join sep [x] = x"
| "join sep (x # y # xs) = x @ sep @ join sep (y # xs)"

lemma set_join: "set (join sep xs) \<subseteq> set sep \<union> (\<Union>x\<in>set xs. set x)"
  by (induction sep xs rule: join.induct) auto

text \<open>Splitting at one element: \<^verbatim>\<open>s.split(c)\<close>; the result is never empty.\<close>

fun split_on :: "'a \<Rightarrow> 'a list \<Rightarrow> 'a list list" where
  "split_on c [] = [[]]"
| "split_on c (x # xs) =
     (if x = c then [] # split_on c xs
      else (case split_on c xs of [] \<Rightarrow> [[x]] | l # ls \<Rightarrow> (x # l) # ls))"

lemma split_on_not_Nil [simp]: "split_on c xs \<noteq> []"
  by (induction xs) (auto split: list.splits)

lemma split_on_no_sep: "c \<notin> set xs \<Longrightarrow> split_on c xs = [xs]"
  by (induction xs) auto

lemma split_on_append_sep:
  "split_on c (xs @ c # ys) = split_on c xs @ split_on c ys"
  by (induction xs) (auto split: list.splits)

lemma split_on_part_no_sep: "p \<in> set (split_on c xs) \<Longrightarrow> c \<notin> set p"
  by (induction xs arbitrary: p) (auto split: list.splits if_splits)

lemma join_split_on: "join [c] (split_on c xs) = xs"
proof (induction xs)
  case (Cons x xs)
  obtain l ls where s: "split_on c xs = l # ls"
    by (cases "split_on c xs") auto
  with Cons show ?case by (cases ls) auto
qed simp

lemma split_on_join:
  "ps \<noteq> [] \<Longrightarrow> (\<forall>p\<in>set ps. c \<notin> set p) \<Longrightarrow> split_on c (join [c] ps) = ps"
proof (induction "[c]" ps rule: join.induct)
  case (3 x y xs)
  then show ?case by (simp add: split_on_append_sep split_on_no_sep)
qed (auto simp: split_on_no_sep)

text \<open>A common suffix determines equal-delimiter splits: the key to unambiguous formats.\<close>

lemma append_sep_eq:
  assumes "c \<notin> set xs" and "c \<notin> set ys" and "xs @ c # us = ys @ c # vs"
  shows "xs = ys \<and> us = vs"
  using assms
proof (induction xs arbitrary: ys)
  case Nil
  then show ?case by (cases ys) auto
next
  case (Cons x xs)
  then show ?case by (cases ys) auto
qed

text \<open>Growing a vector with a default until an index is in range.\<close>

definition pad_to :: "'a \<Rightarrow> nat \<Rightarrow> 'a list \<Rightarrow> 'a list" where
  "pad_to d i xs = xs @ replicate (Suc i - length xs) d"

lemma length_pad_to [simp]: "length (pad_to d i xs) = max (length xs) (Suc i)"
  by (simp add: pad_to_def)

lemma pad_to_noop: "i < length xs \<Longrightarrow> pad_to d i xs = xs"
  by (simp add: pad_to_def)

lemma pad_to_nth_old: "j < length xs \<Longrightarrow> pad_to d i xs ! j = xs ! j"
  by (simp add: pad_to_def nth_append)

lemma set_pad_to: "set (pad_to d i xs) \<subseteq> insert d (set xs)"
  by (auto simp: pad_to_def)

lemma foldl_concat: "foldl (\<lambda>a x. a @ f x) b xs = b @ concat (map f xs)"
  by (induction xs arbitrary: b) auto

end
