(* ===== verification/RustStr.thy ===== *)
theory RustStr
  imports Prelude "HOL-Library.List_Lexorder" "HOL-Library.Char_ord"
begin

text \<open>
  The part of Rust's string library the enclave uses.  A \<^verbatim>\<open>String\<close> or
  \<^verbatim>\<open>&str\<close> is a HOL \<open>string\<close> whose characters are the bytes of its UTF-8
  encoding, so that \<open>length\<close> is \<^verbatim>\<open>len()\<close> and the lexicographic order on
  strings is the byte order of \<^verbatim>\<open>Ord for str\<close>.  A byte vector becomes a string only
  through \<open>from_utf8\<close> or \<open>from_utf8_lossy\<close>, written out below; Unicode white space is
  the exact list of \<^verbatim>\<open>char::is_whitespace\<close>, in UTF-8.

  The one part of the library that is a parameter is the case mapping of non-ASCII strings
  (\<^verbatim>\<open>to_lowercase\<close> and \<^verbatim>\<open>to_uppercase\<close> follow the Unicode tables there): it is
  a field of the record \<open>unicode\<close>.
\<close>

section \<open>Bytes and characters\<close>

definition byte_char :: "u8 \<Rightarrow> char" where
  "byte_char b = char_of (unat b)"

definition char_byte :: "char \<Rightarrow> u8" where
  "char_byte c = of_char c"

definition as_bytes :: "string \<Rightarrow> u8 list" where
  "as_bytes s = map char_byte s"

definition from_bytes :: "u8 list \<Rightarrow> string" where
  "from_bytes bs = map byte_char bs"

lemma unat_char_byte: "unat (char_byte c) = of_char c"
proof -
  have "of_char c < (256 :: nat)" by (rule nat_of_char_less_256)
  moreover have "char_byte c = of_nat (of_char c)"
    by (simp add: char_byte_def of_char_def Let_def)
  ultimately show ?thesis by (simp add: unat_of_nat)
qed

lemma byte_char_char_byte [simp]: "byte_char (char_byte c) = c"
  by (simp add: byte_char_def unat_char_byte)

lemma char_byte_byte_char [simp]: "char_byte (byte_char b) = b"
proof -
  have "unat (char_byte (byte_char b)) = unat b"
    using unat_u8_less [of b] by (simp add: unat_char_byte byte_char_def)
  then show ?thesis by (simp add: word_unat_eq_iff)
qed

lemma byte_char_eq_iff [simp]: "byte_char a = byte_char b \<longleftrightarrow> a = b"
  by (metis char_byte_byte_char)

lemma char_byte_eq_iff [simp]: "char_byte a = char_byte b \<longleftrightarrow> a = b"
  by (metis byte_char_char_byte)

lemma as_bytes_simps [simp]:
  "as_bytes [] = []"
  "as_bytes (c # s) = char_byte c # as_bytes s"
  "as_bytes (s @ t) = as_bytes s @ as_bytes t"
  by (simp_all add: as_bytes_def)

lemma from_bytes_simps [simp]:
  "from_bytes [] = []"
  "from_bytes (b # bs) = byte_char b # from_bytes bs"
  "from_bytes (bs @ cs) = from_bytes bs @ from_bytes cs"
  by (simp_all add: from_bytes_def)

lemma length_as_bytes [simp]: "length (as_bytes s) = length s"
  by (simp add: as_bytes_def)

lemma length_from_bytes [simp]: "length (from_bytes bs) = length bs"
  by (simp add: from_bytes_def)

lemma from_bytes_as_bytes [simp]: "from_bytes (as_bytes s) = s"
  by (simp add: as_bytes_def from_bytes_def comp_def)

lemma as_bytes_from_bytes [simp]: "as_bytes (from_bytes bs) = bs"
  by (simp add: as_bytes_def from_bytes_def comp_def)

lemma as_bytes_inject [simp]: "as_bytes s = as_bytes t \<longleftrightarrow> s = t"
  by (metis from_bytes_as_bytes)

abbreviation CR :: char where "CR \<equiv> CHR 0x0D"
abbreviation LF :: char where "LF \<equiv> CHR 0x0A"
abbreviation crlf :: string where "crlf \<equiv> [CR, LF]"

section \<open>UTF-8\<close>

text \<open>
  The continuation bytes a lead byte asks for, as ranges (the well-formed sequences of the
  Unicode standard: no overlong forms, no surrogates, nothing above U+10FFFF), and how many of
  them are there.  \<^verbatim>\<open>from_utf8_lossy\<close> replaces every maximal ill-formed prefix, a lead
  byte with the continuation bytes that did match, by one U+FFFD.
\<close>

definition utf8_ranges :: "u8 \<Rightarrow> (u8 \<times> u8) list option" where
  "utf8_ranges b =
     (if b < 0x80 then Some []
      else if 0xC2 \<le> b \<and> b \<le> 0xDF then Some [(0x80, 0xBF)]
      else if b = 0xE0 then Some [(0xA0, 0xBF), (0x80, 0xBF)]
      else if b = 0xED then Some [(0x80, 0x9F), (0x80, 0xBF)]
      else if 0xE1 \<le> b \<and> b \<le> 0xEF then Some [(0x80, 0xBF), (0x80, 0xBF)]
      else if b = 0xF0 then Some [(0x90, 0xBF), (0x80, 0xBF), (0x80, 0xBF)]
      else if 0xF1 \<le> b \<and> b \<le> 0xF3 then Some [(0x80, 0xBF), (0x80, 0xBF), (0x80, 0xBF)]
      else if b = 0xF4 then Some [(0x80, 0x8F), (0x80, 0xBF), (0x80, 0xBF)]
      else None)"

fun utf8_matched :: "(u8 \<times> u8) list \<Rightarrow> u8 list \<Rightarrow> nat" where
  "utf8_matched [] bs = 0"
| "utf8_matched (r # rs) [] = 0"
| "utf8_matched (r # rs) (b # bs) =
     (if fst r \<le> b \<and> b \<le> snd r then Suc (utf8_matched rs bs) else 0)"

text \<open>Of a non-empty input: is the first character well formed, and how many bytes follow its lead byte?\<close>

definition utf8_head :: "u8 \<Rightarrow> u8 list \<Rightarrow> bool \<times> nat" where
  "utf8_head b bs =
     (case utf8_ranges b of
        None \<Rightarrow> (False, 0)
      | Some rs \<Rightarrow> (let k = utf8_matched rs bs in (k = length rs, k)))"

definition replacement_char :: string where
  "replacement_char = [CHR 0xEF, CHR 0xBF, CHR 0xBD]"

function from_utf8_lossy :: "u8 list \<Rightarrow> string" where
  "from_utf8_lossy [] = []"
| "from_utf8_lossy (b # bs) =
     (case utf8_head b bs of (ok, k) \<Rightarrow>
        (if ok then from_bytes (b # take k bs) else replacement_char)
          @ from_utf8_lossy (drop k bs))"
  by pat_completeness auto
termination
  by (relation "measure length") auto

function valid_utf8 :: "u8 list \<Rightarrow> bool" where
  "valid_utf8 [] = True"
| "valid_utf8 (b # bs) =
     (case utf8_head b bs of (ok, k) \<Rightarrow> ok \<and> valid_utf8 (drop k bs))"
  by pat_completeness auto
termination
  by (relation "measure length") auto

definition from_utf8 :: "u8 list \<Rightarrow> string option" where
  "from_utf8 bs = (if valid_utf8 bs then Some (from_bytes bs) else None)"

text \<open>A HOL string that is the contents of a Rust \<^verbatim>\<open>String\<close>.\<close>

definition rust_string :: "string \<Rightarrow> bool" where
  "rust_string s = valid_utf8 (as_bytes s)"

section \<open>ASCII\<close>

definition is_ascii :: "string \<Rightarrow> bool" where
  "is_ascii s = list_all (\<lambda>c. of_char c < (128 :: nat)) s"

definition ascii_lower :: "char \<Rightarrow> char" where
  "ascii_lower c =
     (let n = of_char c :: nat in if 65 \<le> n \<and> n \<le> 90 then char_of (n + 32) else c)"

definition ascii_upper :: "char \<Rightarrow> char" where
  "ascii_upper c =
     (let n = of_char c :: nat in if 97 \<le> n \<and> n \<le> 122 then char_of (n - 32) else c)"

definition to_ascii_lowercase :: "string \<Rightarrow> string" where
  "to_ascii_lowercase s = map ascii_lower s"

definition to_ascii_uppercase :: "string \<Rightarrow> string" where
  "to_ascii_uppercase s = map ascii_upper s"

definition eq_ignore_ascii_case :: "string \<Rightarrow> string \<Rightarrow> bool" where
  "eq_ignore_ascii_case s t = (to_ascii_lowercase s = to_ascii_lowercase t)"

text \<open>Full case mapping: ASCII here, the Unicode tables as a parameter beyond it.\<close>

record unicode =
  uni_lower :: "string \<Rightarrow> string"
  uni_upper :: "string \<Rightarrow> string"

definition to_lowercase :: "('x) unicode_scheme \<Rightarrow> string \<Rightarrow> string" where
  "to_lowercase X s = (if is_ascii s then to_ascii_lowercase s else uni_lower X s)"

definition to_uppercase :: "('x) unicode_scheme \<Rightarrow> string \<Rightarrow> string" where
  "to_uppercase X s = (if is_ascii s then to_ascii_uppercase s else uni_upper X s)"

section \<open>Searching, trimming, splitting\<close>

definition str_find :: "char \<Rightarrow> string \<Rightarrow> nat option" where
  "str_find c s = position (\<lambda>d. d = c) s"

definition str_contains :: "string \<Rightarrow> string \<Rightarrow> bool" where
  "str_contains s pat = sublist pat s"

definition starts_with :: "'a list \<Rightarrow> 'a list \<Rightarrow> bool" where
  "starts_with s p = (take (length p) s = p)"

definition ends_with :: "'a list \<Rightarrow> 'a list \<Rightarrow> bool" where
  "ends_with s p = (length p \<le> length s \<and> drop (length s - length p) s = p)"

definition strip_prefix :: "'a list \<Rightarrow> 'a list \<Rightarrow> 'a list option" where
  "strip_prefix s p = (if starts_with s p then Some (drop (length p) s) else None)"

text \<open>
  \<open>strip_all ps\<close> removes the patterns \<open>ps\<close> from the front as long as one of them matches:
  \<^verbatim>\<open>trim_start\<close>, \<^verbatim>\<open>trim_start_matches\<close> and, on the reversed string,
  \<^verbatim>\<open>trim_end\<close> and \<^verbatim>\<open>trim_end_matches\<close>.
\<close>

function strip_all :: "'a list list \<Rightarrow> 'a list \<Rightarrow> 'a list" where
  "strip_all ps s =
     (case List.find (\<lambda>p. p \<noteq> [] \<and> starts_with s p) ps of
        None \<Rightarrow> s
      | Some p \<Rightarrow> strip_all ps (drop (length p) s))"
  by pat_completeness auto
termination
  by (relation "measure (length \<circ> snd)")
     (auto simp: find_Some_iff starts_with_def intro!: diff_less)

declare strip_all.simps [simp del]

text \<open>The 25 White\_Space code points, in UTF-8.\<close>

definition white_space :: "string list" where
  "white_space =
     [[CHR 0x09], [CHR 0x0A], [CHR 0x0B], [CHR 0x0C], [CHR 0x0D], [CHR 0x20],
      [CHR 0xC2, CHR 0x85], [CHR 0xC2, CHR 0xA0], [CHR 0xE1, CHR 0x9A, CHR 0x80],
      [CHR 0xE2, CHR 0x80, CHR 0x80], [CHR 0xE2, CHR 0x80, CHR 0x81], [CHR 0xE2, CHR 0x80, CHR 0x82],
      [CHR 0xE2, CHR 0x80, CHR 0x83], [CHR 0xE2, CHR 0x80, CHR 0x84], [CHR 0xE2, CHR 0x80, CHR 0x85],
      [CHR 0xE2, CHR 0x80, CHR 0x86], [CHR 0xE2, CHR 0x80, CHR 0x87], [CHR 0xE2, CHR 0x80, CHR 0x88],
      [CHR 0xE2, CHR 0x80, CHR 0x89], [CHR 0xE2, CHR 0x80, CHR 0x8A], [CHR 0xE2, CHR 0x80, CHR 0xA8],
      [CHR 0xE2, CHR 0x80, CHR 0xA9], [CHR 0xE2, CHR 0x80, CHR 0xAF], [CHR 0xE2, CHR 0x81, CHR 0x9F],
      [CHR 0xE3, CHR 0x80, CHR 0x80]]"

definition trim_start :: "string \<Rightarrow> string" where
  "trim_start s = strip_all white_space s"

definition trim_end_of :: "string list \<Rightarrow> string \<Rightarrow> string" where
  "trim_end_of ps s = rev (strip_all (map rev ps) (rev s))"

definition trim :: "string \<Rightarrow> string" where
  "trim s = trim_end_of white_space (trim_start s)"

definition trim_end_matches :: "string \<Rightarrow> string \<Rightarrow> string" where
  "trim_end_matches s p = trim_end_of [p] s"

text \<open>\<^verbatim>\<open>str::lines\<close>: a terminator is LF or CR LF; a last line without LF keeps its CR.\<close>

definition strip_cr :: "string \<Rightarrow> string" where
  "strip_cr l = (if l \<noteq> [] \<and> last l = CR then butlast l else l)"

definition str_lines :: "string \<Rightarrow> string list" where
  "str_lines s =
     (let ps = split_on LF s
      in map strip_cr (butlast ps) @ (if last ps = [] then [] else [last ps]))"

text \<open>\<^verbatim>\<open>str::split_whitespace\<close>: the non-empty pieces between white space.\<close>

function split_whitespace_from :: "string \<Rightarrow> string \<Rightarrow> string list" where
  "split_whitespace_from acc [] = (if acc = [] then [] else [acc])"
| "split_whitespace_from acc (c # s) =
     (case List.find (\<lambda>p. p \<noteq> [] \<and> starts_with (c # s) p) white_space of
        None \<Rightarrow> split_whitespace_from (acc @ [c]) s
      | Some p \<Rightarrow> (if acc = [] then [] else [acc])
                    @ split_whitespace_from [] (drop (length p) (c # s)))"
  by pat_completeness auto
termination
  by (relation "measure (length \<circ> snd)") (auto simp: find_Some_iff intro!: diff_less)

definition split_whitespace :: "string \<Rightarrow> string list" where
  "split_whitespace s = split_whitespace_from [] s"

text \<open>\<^verbatim>\<open>s.split("\r\n")\<close>.\<close>

fun split_crlf_from :: "string \<Rightarrow> string \<Rightarrow> string list" where
  "split_crlf_from acc [] = [acc]"
| "split_crlf_from acc [c] = [acc @ [c]]"
| "split_crlf_from acc (c # d # s) =
     (if c = CR \<and> d = LF then acc # split_crlf_from [] s
      else split_crlf_from (acc @ [c]) (d # s))"

definition split_crlf :: "string \<Rightarrow> string list" where
  "split_crlf s = split_crlf_from [] s"

section \<open>Numbers\<close>

definition digit_value :: "nat \<Rightarrow> char \<Rightarrow> nat option" where
  "digit_value radix c =
     (let n = of_char c :: nat;
          v = (if 48 \<le> n \<and> n \<le> 57 then n - 48
               else if 97 \<le> n \<and> n \<le> 122 then n - 87
               else if 65 \<le> n \<and> n \<le> 90 then n - 55
               else radix)
      in if v < radix then Some v else None)"

fun digits_value :: "nat \<Rightarrow> nat \<Rightarrow> string \<Rightarrow> nat option" where
  "digits_value radix acc [] = Some acc"
| "digits_value radix acc (c # s) =
     (case digit_value radix c of
        None \<Rightarrow> None
      | Some d \<Rightarrow> digits_value radix (acc * radix + d) s)"

text \<open>
  \<^verbatim>\<open>uN::from_str_radix\<close> and \<^verbatim>\<open>str::parse::<uN>\<close>: one leading plus sign is
  accepted when a digit follows, the empty string, a sign alone, any other character and a value
  of \<open>2 ^ bits\<close> or more are errors.
\<close>

definition parse_uint :: "nat \<Rightarrow> nat \<Rightarrow> string \<Rightarrow> nat option" where
  "parse_uint bits radix s =
     (let ds = (case s of c # t \<Rightarrow> if c = CHR ''+'' then t else s | [] \<Rightarrow> [])
      in if ds = [] then None
         else (case digits_value radix 0 ds of
                 Some n \<Rightarrow> if n < 2 ^ bits then Some n else None
               | None \<Rightarrow> None))"

definition digit_char :: "nat \<Rightarrow> char" where
  "digit_char d = char_of (48 + d)"

text \<open>Decimal display of an unsigned integer.\<close>

fun nat_to_string :: "nat \<Rightarrow> string" where
  "nat_to_string n =
     (if n < 10 then [digit_char n] else nat_to_string (n div 10) @ [digit_char (n mod 10)])"

declare nat_to_string.simps [simp del]

definition hex_digit :: "nat \<Rightarrow> char" where
  "hex_digit d = (if d < 10 then char_of (48 + d) else char_of (87 + d))"

section \<open>UTF-8 facts\<close>

lemma utf8_matched_le: "utf8_matched rs bs \<le> length bs"
  by (induction rs bs rule: utf8_matched.induct) auto

lemma utf8_matched_le_ranges: "utf8_matched rs bs \<le> length rs"
  by (induction rs bs rule: utf8_matched.induct) auto

definition high_ranges :: "(u8 \<times> u8) list \<Rightarrow> bool" where
  "high_ranges rs = list_all (\<lambda>r. 0x80 \<le> fst r) rs"

lemma utf8_ranges_high: "utf8_ranges b = Some rs \<Longrightarrow> high_ranges rs"
  by (auto simp: utf8_ranges_def high_ranges_def split: if_splits)

lemma high_ranges_Cons [simp]: "high_ranges (r # rs) \<longleftrightarrow> 0x80 \<le> fst r \<and> high_ranges rs"
  by (simp add: high_ranges_def)

lemma utf8_matched_ascii:
  assumes "high_ranges rs" and "a < 0x80"
  shows "utf8_matched rs (xs @ a # ys) = utf8_matched rs xs"
  using assms
proof (induction rs xs rule: utf8_matched.induct)
  case (2 r rs)
  then have "0x80 \<le> fst r" by simp
  with "2.prems"(2) have "a < fst r" by (rule order_less_le_trans)
  then have "\<not> fst r \<le> a" by (simp only: not_le)
  then show ?case by simp
qed auto

lemma utf8_head_ascii_tail: "a < 0x80 \<Longrightarrow> utf8_head b (xs @ a # ys) = utf8_head b xs"
  by (auto simp: utf8_head_def Let_def utf8_matched_ascii utf8_ranges_high split: option.splits)

lemma utf8_head_le: "utf8_head b bs = (ok, k) \<Longrightarrow> k \<le> length bs"
  using utf8_matched_le by (auto simp: utf8_head_def Let_def split: option.splits)

lemma utf8_head_of_ascii: "b < 0x80 \<Longrightarrow> utf8_head b bs = (True, 0)"
  by (simp add: utf8_head_def utf8_ranges_def)

lemma from_utf8_lossy_ascii_Cons:
  "b < 0x80 \<Longrightarrow> from_utf8_lossy (b # bs) = byte_char b # from_utf8_lossy bs"
  by (simp add: utf8_head_of_ascii)

text \<open>An ASCII byte is never part of a longer sequence: decoding splits there.\<close>

lemma from_utf8_lossy_split:
  "a < 0x80 \<Longrightarrow>
     from_utf8_lossy (xs @ a # ys) = from_utf8_lossy xs @ byte_char a # from_utf8_lossy ys"
proof (induction xs rule: from_utf8_lossy.induct)
  case (2 b bs)
  obtain ok k where h: "utf8_head b bs = (ok, k)" by (cases "utf8_head b bs")
  have "k \<le> length bs" using h by (rule utf8_head_le)
  with 2 h show ?case by (simp add: utf8_head_ascii_tail)
qed (simp add: utf8_head_of_ascii)

lemma from_utf8_lossy_Nil_iff [simp]: "from_utf8_lossy bs = [] \<longleftrightarrow> bs = []"
  by (cases bs) (auto simp: replacement_char_def split: prod.splits)

lemma byte_char_ascii: "b < 0x80 \<longleftrightarrow> of_char (byte_char b) < (128 :: nat)"
proof -
  have "of_char (byte_char b) = unat b"
    by (metis char_byte_byte_char unat_char_byte)
  then show ?thesis by (simp add: word_less_nat_alt)
qed

lemma utf8_matched_not_ascii:
  assumes "high_ranges rs" and "b \<in> set (take (utf8_matched rs bs) bs)"
  shows "\<not> b < 0x80"
  using assms
proof (induction rs bs rule: utf8_matched.induct)
  case (3 r rs b' bs)
  have "\<not> b' < 0x80" if "fst r \<le> b'"
  proof -
    from "3.prems"(1) have "0x80 \<le> fst r" by simp
    then have "0x80 \<le> b'" using that by (rule order_trans)
    then show ?thesis by (simp add: not_less)
  qed
  with 3 show ?case by (auto split: if_splits)
qed auto

text \<open>The ASCII bytes of the input are exactly the ASCII characters of the text.\<close>

lemma from_utf8_lossy_ascii_mem:
  "a < 0x80 \<Longrightarrow> byte_char a \<in> set (from_utf8_lossy bs) \<longleftrightarrow> a \<in> set bs"
proof (induction bs rule: from_utf8_lossy.induct)
  case (2 b bs)
  obtain ok k where h: "utf8_head b bs = (ok, k)" by (cases "utf8_head b bs")
  have IH: "byte_char a \<in> set (from_utf8_lossy (drop k bs)) \<longleftrightarrow> a \<in> set (drop k bs)"
    using 2 h by simp
  have nr: "byte_char a \<notin> set replacement_char"
    using "2.prems" by (auto simp: byte_char_ascii replacement_char_def)
  have tk: "a \<notin> set (take k bs)"
  proof
    assume "a \<in> set (take k bs)"
    moreover have "k = 0 \<or> (\<exists>rs. high_ranges rs \<and> k = utf8_matched rs bs)"
      using h utf8_ranges_high by (auto simp: utf8_head_def Let_def split: option.splits)
    ultimately have "\<not> a < 0x80" using utf8_matched_not_ascii by fastforce
    with "2.prems" show False by simp
  qed
  have bs: "a \<in> set bs \<longleftrightarrow> a \<in> set (drop k bs)"
    using tk by (metis UnE append_take_drop_id in_set_dropD set_append)
  show ?case
  proof (cases ok)
    case True
    have "byte_char a \<notin> set (from_bytes (take k bs))"
      using tk by (auto simp: from_bytes_def)
    with True h IH bs show ?thesis by simp
  next
    case False
    have "a \<noteq> b" using False h "2.prems" by (auto simp: utf8_head_of_ascii)
    with False h IH bs nr show ?thesis by simp
  qed
qed simp

lemma from_utf8_lossy_valid: "valid_utf8 bs \<Longrightarrow> from_utf8_lossy bs = from_bytes bs"
proof (induction bs rule: from_utf8_lossy.induct)
  case (2 b bs)
  obtain ok k where h: "utf8_head b bs = (ok, k)" by (cases "utf8_head b bs")
  have "from_bytes (take k bs) @ from_bytes (drop k bs) = from_bytes bs"
    by (metis append_take_drop_id from_bytes_simps(3))
  with 2 h show ?case by simp
qed simp

lemma from_utf8_lossy_as_bytes: "rust_string s \<Longrightarrow> from_utf8_lossy (as_bytes s) = s"
  by (simp add: rust_string_def from_utf8_lossy_valid)

lemma from_utf8_as_bytes [codec_simps]: "rust_string s \<Longrightarrow> from_utf8 (as_bytes s) = Some s"
  by (simp add: rust_string_def from_utf8_def)

lemma from_utf8_Some: "from_utf8 bs = Some s \<Longrightarrow> as_bytes s = bs \<and> rust_string s"
  by (auto simp: from_utf8_def rust_string_def split: if_splits)

lemma rust_string_Nil [simp]: "rust_string []"
  by (simp add: rust_string_def)

lemma is_ascii_simps [simp]:
  "is_ascii []"
  "is_ascii (c # s) \<longleftrightarrow> of_char c < (128 :: nat) \<and> is_ascii s"
  "is_ascii (s @ t) \<longleftrightarrow> is_ascii s \<and> is_ascii t"
  by (simp_all add: is_ascii_def)

lemma char_byte_ascii: "char_byte c < 0x80 \<longleftrightarrow> of_char c < (128 :: nat)"
  by (simp add: byte_char_ascii)

lemma is_ascii_rust_string: "is_ascii s \<Longrightarrow> rust_string s"
  unfolding rust_string_def
  by (induction s) (auto simp: char_byte_ascii [symmetric] utf8_head_of_ascii)

section \<open>Line facts\<close>

lemma strip_cr_Nil [simp]: "strip_cr [] = []"
  by (simp add: strip_cr_def)

lemma split_on_last_append:
  "c \<notin> set ys \<Longrightarrow> split_on c (xs @ ys) = butlast (split_on c xs) @ [last (split_on c xs) @ ys]"
proof (induction xs)
  case (Cons x xs)
  then show ?case by (cases "split_on c xs") (auto split: list.splits)
qed (simp add: split_on_no_sep)

lemma str_lines_LF: "LF \<notin> set l \<Longrightarrow> str_lines (l @ LF # s) = strip_cr l # str_lines s"
  by (simp add: str_lines_def Let_def split_on_append_sep split_on_no_sep)

lemma str_lines_last: "LF \<notin> set l \<Longrightarrow> str_lines l = (if l = [] then [] else [l])"
  by (simp add: str_lines_def Let_def split_on_no_sep)

section \<open>Case and number facts\<close>

lemma of_char_nat_eq_iff: "of_char c = (of_char d :: nat) \<longleftrightarrow> c = d"
  by simp

lemma of_char_ascii_lower:
  "of_char (ascii_lower c) = (let n = of_char c :: nat in if 65 \<le> n \<and> n \<le> 90 then n + 32 else n)"
  by (simp add: ascii_lower_def Let_def)

lemma of_char_ascii_upper:
  "of_char (ascii_upper c) = (let n = of_char c :: nat in if 97 \<le> n \<and> n \<le> 122 then n - 32 else n)"
  by (simp add: ascii_upper_def Let_def less_imp_diff_less)

lemma ascii_lower_idem [simp]: "ascii_lower (ascii_lower c) = ascii_lower c"
  unfolding of_char_nat_eq_iff [symmetric] of_char_ascii_lower Let_def by auto

lemma ascii_upper_idem [simp]: "ascii_upper (ascii_upper c) = ascii_upper c"
  unfolding of_char_nat_eq_iff [symmetric] of_char_ascii_upper Let_def by auto

lemma to_ascii_lowercase_idem [simp]: "to_ascii_lowercase (to_ascii_lowercase s) = to_ascii_lowercase s"
  by (simp add: to_ascii_lowercase_def comp_def)

lemma to_ascii_uppercase_idem [simp]: "to_ascii_uppercase (to_ascii_uppercase s) = to_ascii_uppercase s"
  by (simp add: to_ascii_uppercase_def comp_def)

lemma length_to_ascii_lowercase [simp]: "length (to_ascii_lowercase s) = length s"
  by (simp add: to_ascii_lowercase_def)

lemma is_ascii_lower [simp]: "is_ascii (to_ascii_lowercase s) \<longleftrightarrow> is_ascii s"
  by (induction s) (auto simp: to_ascii_lowercase_def of_char_ascii_lower Let_def)

lemma is_ascii_upper [simp]: "is_ascii (to_ascii_uppercase s) \<longleftrightarrow> is_ascii s"
  by (induction s) (auto simp: to_ascii_uppercase_def of_char_ascii_upper Let_def)

lemma ascii_lower_control: "of_char d < (32 :: nat) \<Longrightarrow> ascii_lower c = d \<longleftrightarrow> c = d"
  unfolding of_char_nat_eq_iff [symmetric] of_char_ascii_lower Let_def by auto

lemma ascii_upper_control: "of_char d < (32 :: nat) \<Longrightarrow> ascii_upper c = d \<longleftrightarrow> c = d"
  unfolding of_char_nat_eq_iff [symmetric] of_char_ascii_upper Let_def by auto

text \<open>Decimal display reads back, and holds only digits.\<close>

lemma digits_value_append:
  "digits_value r a (xs @ ys) =
     (case digits_value r a xs of None \<Rightarrow> None | Some b \<Rightarrow> digits_value r b ys)"
  by (induction r a xs rule: digits_value.induct) (auto split: option.splits)

lemma of_char_digit_char: "d < 10 \<Longrightarrow> of_char (digit_char d) = (48 + d :: nat)"
  by (simp add: digit_char_def)

lemma digit_char_simps:
  "digit_char 0 = CHR ''0''" "digit_char 1 = CHR ''1''" "digit_char 2 = CHR ''2''"
  "digit_char 3 = CHR ''3''" "digit_char 4 = CHR ''4''" "digit_char 5 = CHR ''5''"
  "digit_char 6 = CHR ''6''" "digit_char 7 = CHR ''7''" "digit_char 8 = CHR ''8''"
  "digit_char 9 = CHR ''9''" "digit_char (Suc 0) = CHR ''1''"
  unfolding of_char_nat_eq_iff [symmetric] by (simp_all add: of_char_digit_char)

lemma digit_value_digit_char: "d < 10 \<Longrightarrow> digit_value 10 (digit_char d) = Some d"
  by (simp add: digit_value_def of_char_digit_char)

lemma digits_value_nat_to_string: "digits_value 10 0 (nat_to_string n) = Some n"
proof (induction n rule: nat_to_string.induct)
  case (1 n)
  then show ?case
    by (cases "n < 10")
       (simp_all add: nat_to_string.simps [of n] digits_value_append digit_value_digit_char)
qed

lemma nat_to_string_not_Nil [simp]: "nat_to_string n \<noteq> []"
  by (subst nat_to_string.simps) simp

lemma nat_to_string_digits: "c \<in> set (nat_to_string n) \<Longrightarrow> \<exists>d<10. c = digit_char d"
proof (induction n rule: nat_to_string.induct)
  case (1 n)
  have "\<exists>d<10. digit_char (n mod 10) = digit_char d"
    by (rule exI [of _ "n mod 10"]) simp
  with 1 show ?case by (auto simp: nat_to_string.simps [of n] split: if_splits)
qed

lemma nat_to_string_code:
  "c \<in> set (nat_to_string n) \<Longrightarrow> 48 \<le> (of_char c :: nat) \<and> (of_char c :: nat) \<le> 57"
  by (auto dest!: nat_to_string_digits simp: of_char_digit_char)

lemma nat_to_string_inj: "nat_to_string m = nat_to_string n \<longleftrightarrow> m = n"
  by (metis digits_value_nat_to_string option.inject)

lemma parse_uint_nat_to_string [codec_simps]:
  assumes "n < 2 ^ bits"
  shows "parse_uint bits 10 (nat_to_string n) = Some n"
proof -
  obtain c s where cs: "nat_to_string n = c # s" by (cases "nat_to_string n") auto
  have "48 \<le> (of_char c :: nat)" using nat_to_string_code [of c n] cs by simp
  then have "c \<noteq> CHR ''+''" by auto
  with cs assms digits_value_nat_to_string [of n] show ?thesis by (simp add: parse_uint_def)
qed

end
