(* ===== verification/Tls_Profile.thy ===== *)
theory Tls_Profile
  imports RustStr
begin

text \<open>
  \<^verbatim>\<open>enclave/src/tls_profile.rs\<close>: the TLS fingerprint profile and its canonical binary
  form, by which a profile travels in \<^verbatim>\<open>tls_spec\<close>.  \<open>canonical_encode\<close> and
  \<open>decode\<close> are translated with their cursor (\<open>dec\<close>, the struct \<^verbatim>\<open>Dec\<close>), its
  bounds checks and every error.

  The contract of one encoder and decoder pair is the locale \<open>codec\<close>: what the encoder wrote
  is read back, and a decoder that succeeds has read exactly what the encoder writes.  The loops
  over a length prefix are proved once, in the locale \<open>counted_codec\<close>; every field of the format
  is an interpretation.
\<close>

section \<open>Data\<close>

datatype Stack = Rustls | Boring | OpenSsl | RustlsAwsLc
datatype TlsVersion = Tls12 | Tls13
datatype GreasePolicy = GreaseDisabled | GreaseEnabled
datatype ExtOrder = FixedOrder | PermutePerSession
datatype CertPolicy = WebpkiRoots

record H2Settings =
  settings :: "(u16 \<times> u32) list"
  window_update :: u32
  pseudo_header_order :: "string list"

record TlsProfile =
  spec_id :: u32
  issued_at :: u64
  label :: string
  stack :: Stack
  cipher_list :: string
  sigalgs :: "string list"
  groups :: "string list"
  alpn :: "string list"
  grease :: GreasePolicy
  ext_order :: ExtOrder
  min_negotiated :: TlsVersion
  cert_policy :: CertPolicy
  h2 :: "H2Settings option"

datatype DecodeError = Eof | Utf8 | BadTag string | Trailing

section \<open>Encoding\<close>

definition put_len :: "nat \<Rightarrow> u8 list" where
  "put_len n = nat_be 4 n"

definition put_bytes :: "u8 list \<Rightarrow> u8 list" where
  "put_bytes b = put_len (length b) @ b"

definition put_str :: "string \<Rightarrow> u8 list" where
  "put_str s = put_bytes (as_bytes s)"

definition put_strs :: "string list \<Rightarrow> u8 list" where
  "put_strs v = put_len (length v) @ concat (map put_str v)"

definition put_u16 :: "u16 \<Rightarrow> u8 list" where
  "put_u16 w = nat_be 2 (unat w)"

definition put_u32 :: "u32 \<Rightarrow> u8 list" where
  "put_u32 w = nat_be 4 (unat w)"

definition put_u64 :: "u64 \<Rightarrow> u8 list" where
  "put_u64 w = nat_be 8 (unat w)"

definition put_setting :: "u16 \<times> u32 \<Rightarrow> u8 list" where
  "put_setting s = put_u16 (fst s) @ put_u32 (snd s)"

fun put_stack :: "Stack \<Rightarrow> u8 list" where
  "put_stack Rustls = [0]"
| "put_stack Boring = [1]"
| "put_stack OpenSsl = [2]"
| "put_stack RustlsAwsLc = [3]"

fun put_grease :: "GreasePolicy \<Rightarrow> u8 list" where
  "put_grease GreaseDisabled = [0]"
| "put_grease GreaseEnabled = [1]"

fun put_ext_order :: "ExtOrder \<Rightarrow> u8 list" where
  "put_ext_order FixedOrder = [0]"
| "put_ext_order PermutePerSession = [1]"

fun put_version :: "TlsVersion \<Rightarrow> u8 list" where
  "put_version Tls12 = [0]"
| "put_version Tls13 = [1]"

fun put_cert_policy :: "CertPolicy \<Rightarrow> u8 list" where
  "put_cert_policy WebpkiRoots = [0]"

fun put_h2 :: "H2Settings option \<Rightarrow> u8 list" where
  "put_h2 None = [0]"
| "put_h2 (Some h) =
     [1] @ put_len (length (settings h)) @ concat (map put_setting (settings h))
       @ put_u32 (window_update h) @ put_strs (pseudo_header_order h)"

definition canonical_encode :: "TlsProfile \<Rightarrow> u8 list" where
  "canonical_encode s =
     put_u32 (spec_id s) @ put_u64 (issued_at s) @ put_str (label s) @ put_stack (stack s)
     @ put_str (cipher_list s) @ put_strs (sigalgs s) @ put_strs (groups s) @ put_strs (alpn s)
     @ put_grease (grease s) @ put_ext_order (ext_order s) @ put_version (min_negotiated s)
     @ put_cert_policy (cert_policy s) @ put_h2 (h2 s)"

section \<open>Decoding\<close>

record dec =
  dec_b :: "u8 list"
  dec_i :: nat

type_synonym 'a decoder = "dec \<Rightarrow> DecodeError + ('a \<times> dec)"

definition dec_new :: "u8 list \<Rightarrow> dec" where
  "dec_new b = \<lparr>dec_b = b, dec_i = 0\<rparr>"

definition dec_bind :: "'a decoder \<Rightarrow> ('a \<Rightarrow> 'b decoder) \<Rightarrow> 'b decoder" where
  "dec_bind m f d = result_bind (m d) (\<lambda>(x, d'). f x d')"

definition dec_return :: "'a \<Rightarrow> 'a decoder" where
  "dec_return x d = Ok (x, d)"

definition dec_take :: "nat \<Rightarrow> u8 list decoder" where
  "dec_take n d =
     (let end_pos = dec_i d + n
      in if 2 ^ 64 \<le> end_pos then Err Eof
         else if length (dec_b d) < end_pos then Err Eof
         else Ok (take n (drop (dec_i d) (dec_b d)), d\<lparr>dec_i := end_pos\<rparr>))"

definition dec_u8 :: "u8 decoder" where
  "dec_u8 = dec_bind (dec_take 1) (\<lambda>s. dec_return (s ! 0))"

definition dec_u16 :: "u16 decoder" where
  "dec_u16 = dec_bind (dec_take 2) (\<lambda>s. dec_return (of_nat (be_nat s)))"

definition dec_u32 :: "u32 decoder" where
  "dec_u32 = dec_bind (dec_take 4) (\<lambda>s. dec_return (of_nat (be_nat s)))"

definition dec_u64 :: "u64 decoder" where
  "dec_u64 = dec_bind (dec_take 8) (\<lambda>s. dec_return (of_nat (be_nat s)))"

definition dec_len :: "nat decoder" where
  "dec_len = dec_bind dec_u32 (\<lambda>n. dec_return (unat n))"

definition dec_bytes :: "u8 list decoder" where
  "dec_bytes = dec_bind dec_len dec_take"

definition dec_s :: "string decoder" where
  "dec_s = dec_bind dec_bytes (\<lambda>b d. case from_utf8 b of None \<Rightarrow> Err Utf8 | Some s \<Rightarrow> Ok (s, d))"

text \<open>The loop \<^verbatim>\<open>for _ in 0..n { v.push(item()?) }\<close>.\<close>

fun dec_repeat :: "'a decoder \<Rightarrow> nat \<Rightarrow> 'a list decoder" where
  "dec_repeat item 0 = dec_return []"
| "dec_repeat item (Suc n) =
     dec_bind item (\<lambda>x. dec_bind (dec_repeat item n) (\<lambda>xs. dec_return (x # xs)))"

definition dec_strs :: "string list decoder" where
  "dec_strs = dec_bind dec_len (dec_repeat dec_s)"

definition dec_setting :: "(u16 \<times> u32) decoder" where
  "dec_setting = dec_bind dec_u16 (\<lambda>k. dec_bind dec_u32 (\<lambda>v. dec_return (k, v)))"

definition dec_stack :: "Stack decoder" where
  "dec_stack = dec_bind dec_u8 (\<lambda>t d.
     if t = 0 then Ok (Rustls, d) else if t = 1 then Ok (Boring, d)
     else if t = 2 then Ok (OpenSsl, d) else if t = 3 then Ok (RustlsAwsLc, d)
     else Err (BadTag ''stack''))"

definition dec_grease :: "GreasePolicy decoder" where
  "dec_grease = dec_bind dec_u8 (\<lambda>t d.
     if t = 0 then Ok (GreaseDisabled, d) else if t = 1 then Ok (GreaseEnabled, d)
     else Err (BadTag ''grease''))"

definition dec_ext_order :: "ExtOrder decoder" where
  "dec_ext_order = dec_bind dec_u8 (\<lambda>t d.
     if t = 0 then Ok (FixedOrder, d) else if t = 1 then Ok (PermutePerSession, d)
     else Err (BadTag ''ext_order''))"

definition dec_version :: "TlsVersion decoder" where
  "dec_version = dec_bind dec_u8 (\<lambda>t d.
     if t = 0 then Ok (Tls12, d) else if t = 1 then Ok (Tls13, d)
     else Err (BadTag ''tls_version''))"

definition dec_cert_policy :: "CertPolicy decoder" where
  "dec_cert_policy = dec_bind dec_u8 (\<lambda>t d.
     if t = 0 then Ok (WebpkiRoots, d) else Err (BadTag ''cert_policy''))"

definition dec_settings :: "(u16 \<times> u32) list decoder" where
  "dec_settings = dec_bind dec_len (dec_repeat dec_setting)"

definition dec_h2 :: "H2Settings option decoder" where
  "dec_h2 = dec_bind dec_u8 (\<lambda>t.
     if t = 0 then dec_return None
     else if t = 1 then
       dec_bind dec_settings (\<lambda>ss. dec_bind dec_u32 (\<lambda>wu. dec_bind dec_strs (\<lambda>pho.
         dec_return (Some \<lparr>settings = ss, window_update = wu, pseudo_header_order = pho\<rparr>))))
     else (\<lambda>d. Err (BadTag ''h2'')))"

definition dec_profile :: "TlsProfile decoder" where
  "dec_profile =
     dec_bind dec_u32 (\<lambda>sid. dec_bind dec_u64 (\<lambda>iat. dec_bind dec_s (\<lambda>lab.
     dec_bind dec_stack (\<lambda>st. dec_bind dec_s (\<lambda>cl. dec_bind dec_strs (\<lambda>sa.
     dec_bind dec_strs (\<lambda>gr. dec_bind dec_strs (\<lambda>al. dec_bind dec_grease (\<lambda>gp.
     dec_bind dec_ext_order (\<lambda>eo. dec_bind dec_version (\<lambda>mn. dec_bind dec_cert_policy (\<lambda>cp.
     dec_bind dec_h2 (\<lambda>hh.
       dec_return \<lparr>spec_id = sid, issued_at = iat, label = lab, stack = st, cipher_list = cl,
         sigalgs = sa, groups = gr, alpn = al, grease = gp, ext_order = eo,
         min_negotiated = mn, cert_policy = cp, h2 = hh\<rparr>)))))))))))))"

definition decode :: "u8 list \<Rightarrow> DecodeError + TlsProfile" where
  "decode b =
     result_bind (dec_profile (dec_new b))
       (\<lambda>(p, d). if dec_i d \<noteq> length (dec_b d) then Err Trailing else Ok p)"

section \<open>What a profile in memory satisfies\<close>

definition str_ok :: "string \<Rightarrow> bool" where
  "str_ok s = (rust_string s \<and> length s < 2 ^ 32)"

definition strs_ok :: "string list \<Rightarrow> bool" where
  "strs_ok v = (length v < 2 ^ 32 \<and> list_all str_ok v)"

fun h2_ok :: "H2Settings option \<Rightarrow> bool" where
  "h2_ok None = True"
| "h2_ok (Some h) = (length (settings h) < 2 ^ 32 \<and> strs_ok (pseudo_header_order h))"

definition profile_ok :: "TlsProfile \<Rightarrow> bool" where
  "profile_ok p =
     (str_ok (label p) \<and> str_ok (cipher_list p) \<and> strs_ok (sigalgs p) \<and> strs_ok (groups p)
      \<and> strs_ok (alpn p) \<and> h2_ok (h2 p))"

section \<open>The contract of a codec\<close>

text \<open>The cursor moves from \<open>d\<close> to \<open>d'\<close> over exactly the bytes \<open>xs\<close>.\<close>

definition reads :: "dec \<Rightarrow> u8 list \<Rightarrow> dec \<Rightarrow> bool" where
  "reads d xs d' \<longleftrightarrow>
     d' = d\<lparr>dec_i := dec_i d + length xs\<rparr> \<and> dec_i d + length xs \<le> length (dec_b d)
     \<and> length (dec_b d) < 2 ^ 64 \<and> take (length xs) (drop (dec_i d) (dec_b d)) = xs"

locale codec =
  fixes enc :: "'a \<Rightarrow> u8 list" and dcd :: "'a decoder" and ok :: "'a \<Rightarrow> bool"
  assumes complete: "ok x \<Longrightarrow> reads d (enc x) d' \<Longrightarrow> dcd d = Ok (x, d')"
    and sound: "length (dec_b d) < 2 ^ 64 \<Longrightarrow> dcd d = Ok (x, d') \<Longrightarrow> ok x \<and> reads d (enc x) d'"

lemma reads_append: "reads d (xs @ ys) d' \<longleftrightarrow> (\<exists>d1. reads d xs d1 \<and> reads d1 ys d')"
proof
  assume r: "reads d (xs @ ys) d'"
  let ?d1 = "d\<lparr>dec_i := dec_i d + length xs\<rparr>"
  have t: "take (length xs + length ys) (drop (dec_i d) (dec_b d)) = xs @ ys"
    using r by (simp add: reads_def)
  have "take (length xs) (drop (dec_i d) (dec_b d)) = xs"
    using t by (metis append_eq_conv_conj take_take min.absorb1 le_add1)
  moreover have "take (length ys) (drop (dec_i d + length xs) (dec_b d)) = ys"
    using arg_cong [OF t, of "drop (length xs)"] by (simp add: drop_take add.commute)
  ultimately have "reads d xs ?d1" "reads ?d1 ys d'"
    using r by (auto simp: reads_def)
  then show "\<exists>d1. reads d xs d1 \<and> reads d1 ys d'" by blast
next
  assume "\<exists>d1. reads d xs d1 \<and> reads d1 ys d'"
  then show "reads d (xs @ ys) d'"
    by (auto simp: reads_def take_add add.commute add.left_commute)
qed

lemma reads_appendI: "reads d xs d1 \<Longrightarrow> reads d1 ys d' \<Longrightarrow> reads d (xs @ ys) d'"
  unfolding reads_append by blast

lemma reads_Nil: "reads d [] d' \<longleftrightarrow> d' = d \<and> dec_i d \<le> length (dec_b d) \<and> length (dec_b d) < 2 ^ 64"
  by (auto simp: reads_def)

lemma reads_b: "reads d xs d' \<Longrightarrow> dec_b d' = dec_b d"
  by (auto simp: reads_def)

lemma reads_bound: "reads d xs d' \<Longrightarrow> length (dec_b d) < 2 ^ 64"
  by (simp add: reads_def)

lemma dec_bind_Ok: "dec_bind m f d = Ok r \<longleftrightarrow> (\<exists>x d1. m d = Ok (x, d1) \<and> f x d1 = Ok r)"
  by (auto simp: dec_bind_def result_bind_Inr_iff)

lemma dec_return_Ok: "dec_return x d = Ok (y, d') \<longleftrightarrow> y = x \<and> d' = d"
  by (auto simp: dec_return_def)

lemma dec_bind_eval: "m d = Ok (x, d1) \<Longrightarrow> dec_bind m f d = f x d1"
  by (simp add: dec_bind_def)

lemma dec_take_Ok:
  "length (dec_b d) < 2 ^ 64 \<Longrightarrow> dec_take n d = Ok (xs, d') \<longleftrightarrow> length xs = n \<and> reads d xs d'"
  by (auto simp: dec_take_def reads_def Let_def)

lemma dec_take_reads: "reads d xs d' \<Longrightarrow> length xs = n \<Longrightarrow> dec_take n d = Ok (xs, d')"
  by (auto simp: dec_take_def reads_def Let_def)

context codec
begin

lemma sound_length:
  "length (dec_b d) < 2 ^ 64 \<Longrightarrow> dcd d = Ok (x, d') \<Longrightarrow> length (dec_b d') < 2 ^ 64"
  using sound reads_b by metis

lemma bind_complete:
  "ok x \<Longrightarrow> reads d (enc x) d1 \<Longrightarrow> dec_bind dcd f d = f x d1"
  by (simp add: complete dec_bind_eval)

lemma bind_sound:
  assumes "length (dec_b d) < 2 ^ 64" and "dec_bind dcd f d = Ok r"
  obtains x d1 where "ok x" "reads d (enc x) d1" "length (dec_b d1) < 2 ^ 64" "f x d1 = Ok r"
  using assms sound reads_b unfolding dec_bind_Ok by metis

end

locale counted_codec = codec +
  assumes enc_pos: "enc x \<noteq> []"
begin

lemma repeat_complete:
  "list_all ok xs \<Longrightarrow> reads d (concat (map enc xs)) d' \<Longrightarrow> dec_repeat dcd (length xs) d = Ok (xs, d')"
proof (induction xs arbitrary: d)
  case (Cons x xs)
  then obtain d1 where d1: "reads d (enc x) d1" "reads d1 (concat (map enc xs)) d'"
    by (auto simp: reads_append)
  with Cons have "dec_repeat dcd (length xs) d1 = Ok (xs, d')" by simp
  with Cons.prems(1) d1(1) show ?case
    by (simp add: bind_complete [of x d d1] dec_bind_eval dec_return_def)
qed (simp add: reads_Nil dec_return_def)

lemma repeat_sound:
  "length (dec_b d) < 2 ^ 64 \<Longrightarrow> dec_i d \<le> length (dec_b d) \<Longrightarrow>
     dec_repeat dcd n d = Ok (xs, d') \<Longrightarrow>
     length xs = n \<and> list_all ok xs \<and> reads d (concat (map enc xs)) d'"
proof (induction n arbitrary: d xs)
  case 0
  then show ?case by (simp add: dec_return_Ok reads_Nil)
next
  case (Suc n)
  from Suc.prems(3) obtain x xs' d1 where x: "dcd d = Ok (x, d1)"
    and r: "dec_repeat dcd n d1 = Ok (xs', d')" and xs: "xs = x # xs'"
    by (auto simp: dec_bind_Ok dec_return_Ok)
  have s: "ok x" "reads d (enc x) d1" using sound [OF Suc.prems(1) x] by auto
  have "length (dec_b d1) < 2 ^ 64" "dec_i d1 \<le> length (dec_b d1)"
    using s(2) by (auto simp: reads_def)
  from Suc.IH [OF this r] s xs show ?case by (auto simp: reads_append)
qed

text \<open>A length prefix the input cannot hold is refused: no more items are read than bytes are there.\<close>

lemma repeat_bounded:
  "length (dec_b d) < 2 ^ 64 \<Longrightarrow> dec_i d \<le> length (dec_b d) \<Longrightarrow>
     length (dec_b d) - dec_i d < n \<Longrightarrow> \<exists>e. dec_repeat dcd n d = Err e"
proof (cases "dec_repeat dcd n d")
  case (Inr r)
  assume a: "length (dec_b d) < 2 ^ 64" "dec_i d \<le> length (dec_b d)" "length (dec_b d) - dec_i d < n"
  obtain xs d' where "dec_repeat dcd n d = Ok (xs, d')" using Inr by (cases r) auto
  from repeat_sound [OF a(1,2) this] have "length xs = n" "reads d (concat (map enc xs)) d'" by auto
  moreover have "length xs \<le> length (concat (map enc xs))"
  proof (induction xs)
    case (Cons y ys)
    then show ?case using enc_pos [of y] by (cases "enc y") auto
  qed simp
  ultimately show ?thesis using a by (auto simp: reads_def)
qed blast

end

section \<open>Every field is a codec\<close>

lemma word_be_roundtrip:
  fixes w :: "'a::len word"
  assumes "LENGTH('a) = 8 * k"
  shows "of_nat (be_nat (nat_be k (unat w))) = w"
proof -
  have "unat w < 256 ^ k" using unsigned_less [of w] assms by (simp add: power_mult)
  then show ?thesis by (simp add: codec_simps)
qed

lemma be_word_roundtrip:
  assumes "LENGTH('a::len) = 8 * length s"
  shows "nat_be (length s) (unat (of_nat (be_nat s) :: 'a word)) = s"
proof -
  have "be_nat s < 2 ^ LENGTH('a)" using be_nat_less [of s] assms by (simp add: power_mult)
  then show ?thesis by (simp add: unat_of_nat take_bit_nat_eq_self codec_simps)
qed

lemma word_codec:
  fixes enc :: "'a::len word \<Rightarrow> u8 list"
  assumes len: "LENGTH('a) = 8 * k" and enc: "\<And>w. enc w = nat_be k (unat w)"
    and dcd: "dcd = dec_bind (dec_take k) (\<lambda>s. dec_return (of_nat (be_nat s)))"
  shows "codec enc dcd (\<lambda>_. True)"
proof
  fix w :: "'a word" and d d'
  assume r: "reads d (enc w) d'"
  have "dec_take k d = Ok (enc w, d')"
    using r by (rule dec_take_reads) (simp add: enc)
  then show "dcd d = Ok (w, d')"
    by (simp add: dcd dec_bind_eval dec_return_def enc word_be_roundtrip [OF len])
next
  fix w :: "'a word" and d d'
  assume b: "length (dec_b d) < 2 ^ 64" and "dcd d = Ok (w, d')"
  then obtain s where "dec_take k d = Ok (s, d')" and w: "w = of_nat (be_nat s)"
    by (auto simp: dcd dec_bind_Ok dec_return_Ok)
  then have s: "length s = k" "reads d s d'" using b by (simp_all add: dec_take_Ok)
  then have "enc w = s" using be_word_roundtrip [of s, where 'a = 'a] len by (simp add: enc w)
  with s show "True \<and> reads d (enc w) d'" by simp
qed

interpretation c16: codec put_u16 dec_u16 "\<lambda>_. True"
  by (rule word_codec [where k = 2]) (simp_all add: put_u16_def dec_u16_def)

interpretation c32: codec put_u32 dec_u32 "\<lambda>_. True"
  by (rule word_codec [where k = 4]) (simp_all add: put_u32_def dec_u32_def)

interpretation c64: codec put_u64 dec_u64 "\<lambda>_. True"
  by (rule word_codec [where k = 8]) (simp_all add: put_u64_def dec_u64_def)

interpretation c8: codec "\<lambda>t. [t]" dec_u8 "\<lambda>_. True"
proof
  fix t d d'
  assume r: "reads d [t] d'"
  then have "dec_take 1 d = Ok ([t], d')" by (rule dec_take_reads) simp
  then show "dec_u8 d = Ok (t, d')" by (simp add: dec_u8_def dec_bind_eval dec_return_def)
next
  fix t d d'
  assume b: "length (dec_b d) < 2 ^ 64" and "dec_u8 d = Ok (t, d')"
  then obtain s where "dec_take 1 d = Ok (s, d')" and t: "t = s ! 0"
    by (auto simp: dec_u8_def dec_bind_Ok dec_return_Ok)
  then have "length s = 1" "reads d s d'" using b by (simp_all add: dec_take_Ok)
  then show "True \<and> reads d [t] d'" unfolding t by (cases s) auto
qed

interpretation clen: codec put_len dec_len "\<lambda>n. n < 2 ^ 32"
proof
  fix n d d'
  assume n: "n < 2 ^ 32" and r: "reads d (put_len n) d'"
  have u: "unat (of_nat n :: u32) = n" using n by (simp add: unat_of_nat take_bit_nat_eq_self)
  have "put_u32 (of_nat n) = put_len n" by (simp add: put_u32_def put_len_def u)
  then show "dec_len d = Ok (n, d')"
    using c32.complete [where x = "of_nat n" and d = d and d' = d'] r u by (simp add: dec_len_def dec_bind_eval dec_return_def)
next
  fix n d d'
  assume b: "length (dec_b d) < 2 ^ 64" and "dec_len d = Ok (n, d')"
  then obtain w where w: "dec_u32 d = Ok (w, d')" "n = unat w"
    by (auto simp: dec_len_def dec_bind_Ok dec_return_Ok)
  with c32.sound [OF b w(1)] unsigned_less [of w] show "n < 2 ^ 32 \<and> reads d (put_len n) d'"
    by (simp add: put_u32_def put_len_def)
qed

interpretation cbytes: codec put_bytes dec_bytes "\<lambda>b. length b < 2 ^ 32"
proof
  fix x d d'
  assume x: "length x < 2 ^ 32" and "reads d (put_bytes x) d'"
  then obtain d1 where "reads d (put_len (length x)) d1" "reads d1 x d'"
    by (auto simp: put_bytes_def reads_append)
  with x show "dec_bytes d = Ok (x, d')"
    by (simp add: dec_bytes_def clen.bind_complete [of "length x" d d1] dec_take_reads)
next
  fix x d d'
  assume b: "length (dec_b d) < 2 ^ 64" and "dec_bytes d = Ok (x, d')"
  then obtain n d1 where "n < 2 ^ 32" "reads d (put_len n) d1" "length (dec_b d1) < 2 ^ 64"
    "dec_take n d1 = Ok (x, d')"
    unfolding dec_bytes_def by (rule clen.bind_sound)
  then show "length x < 2 ^ 32 \<and> reads d (put_bytes x) d'"
    by (auto simp: dec_take_Ok put_bytes_def reads_append)
qed

interpretation cstr: counted_codec put_str dec_s str_ok
proof
  fix x d d'
  assume "str_ok x" and "reads d (put_str x) d'"
  then show "dec_s d = Ok (x, d')"
    by (simp add: str_ok_def put_str_def dec_s_def cbytes.bind_complete [of "as_bytes x" d d']
        from_utf8_as_bytes)
next
  fix x d d'
  assume b: "length (dec_b d) < 2 ^ 64" and "dec_s d = Ok (x, d')"
  then obtain y where y: "dec_bytes d = Ok (y, d')" "from_utf8 y = Some x"
    by (auto simp: dec_s_def dec_bind_Ok split: option.splits)
  have "as_bytes x = y" "rust_string x" using from_utf8_Some [OF y(2)] by simp_all
  with cbytes.sound [OF b y(1)] show "str_ok x \<and> reads d (put_str x) d'"
    by (auto simp: str_ok_def put_str_def)
next
  show "put_str x \<noteq> []" for x
    using length_nat_be [of 4 "length x"] by (auto simp: put_str_def put_bytes_def put_len_def simp del: length_nat_be)
qed

interpretation csetting: counted_codec put_setting dec_setting "\<lambda>_. True"
proof
  fix x d d'
  assume "reads d (put_setting x) d'"
  then obtain d1 where "reads d (put_u16 (fst x)) d1" "reads d1 (put_u32 (snd x)) d'"
    by (auto simp: put_setting_def reads_append)
  then show "dec_setting d = Ok (x, d')"
    by (simp add: dec_setting_def c16.bind_complete [where x = "fst x" and d = d and ?d1.0 = d1]
        c32.bind_complete [where x = "snd x" and d = d1 and ?d1.0 = d'] dec_return_def)
next
  fix x d d'
  assume b: "length (dec_b d) < 2 ^ 64" and "dec_setting d = Ok (x, d')"
  then obtain k d1 v where 1: "dec_u16 d = Ok (k, d1)" and 2: "dec_u32 d1 = Ok (v, d')"
    and x: "x = (k, v)"
    by (auto simp: dec_setting_def dec_bind_Ok dec_return_Ok)
  have "reads d (put_u16 k) d1" using c16.sound [OF b 1] by simp
  moreover have "reads d1 (put_u32 v) d'"
    using c32.sound [OF _ 2] b calculation by (simp add: reads_b)
  ultimately show "True \<and> reads d (put_setting x) d'"
    by (auto simp: put_setting_def x reads_append)
next
  show "put_setting x \<noteq> []" for x
    using length_nat_be [of 2 "unat (fst x)"] by (auto simp: put_setting_def put_u16_def simp del: length_nat_be)
qed

text \<open>A length prefix followed by that many items is a codec again.\<close>

sublocale counted_codec \<subseteq> counted: codec "\<lambda>xs. put_len (length xs) @ concat (map enc xs)"
  "dec_bind dec_len (dec_repeat dcd)" "\<lambda>xs. length xs < 2 ^ 32 \<and> list_all ok xs"
proof
  fix xs d d'
  assume ok: "length xs < 2 ^ 32 \<and> list_all ok xs"
    and "reads d (put_len (length xs) @ concat (map enc xs)) d'"
  then obtain d1 where "reads d (put_len (length xs)) d1" "reads d1 (concat (map enc xs)) d'"
    by (auto simp: reads_append)
  with ok show "dec_bind dec_len (dec_repeat dcd) d = Ok (xs, d')"
    by (simp add: clen.bind_complete [of "length xs" d d1] repeat_complete)
next
  fix xs d d'
  assume b: "length (dec_b d) < 2 ^ 64" and "dec_bind dec_len (dec_repeat dcd) d = Ok (xs, d')"
  then obtain n d1 where n: "n < 2 ^ 32" "reads d (put_len n) d1" "length (dec_b d1) < 2 ^ 64"
    "dec_repeat dcd n d1 = Ok (xs, d')"
    by (rule clen.bind_sound)
  have "dec_i d1 \<le> length (dec_b d1)" using n(2) by (auto simp: reads_def)
  from repeat_sound [OF n(3) this n(4)] n
  show "(length xs < 2 ^ 32 \<and> list_all ok xs) \<and> reads d (put_len (length xs) @ concat (map enc xs)) d'"
    by (auto simp: reads_append)
qed

interpretation cstrs: codec put_strs dec_strs strs_ok
  using cstr.counted.codec_axioms
  unfolding put_strs_def [abs_def] dec_strs_def strs_ok_def [abs_def] .

interpretation csettings: codec "\<lambda>xs. put_len (length xs) @ concat (map put_setting xs)" dec_settings
    "\<lambda>xs. length xs < 2 ^ 32"
  using csetting.counted.codec_axioms unfolding dec_settings_def by (simp add: list.pred_True)

text \<open>One-byte tags.\<close>

lemma tag_codec:
  assumes enc: "\<And>x. enc x = [tag x]" and dcd: "dcd = dec_bind dec_u8 f"
    and f_tag: "\<And>x d. f (tag x) d = Ok (x, d)"
    and tag_f: "\<And>t d x d'. f t d = Ok (x, d') \<Longrightarrow> t = tag x \<and> d' = d"
  shows "codec enc dcd (\<lambda>_. True)"
proof
  fix x d d'
  assume "reads d (enc x) d'"
  then have "dec_u8 d = Ok (tag x, d')" by (intro c8.complete) (simp_all add: enc)
  then show "dcd d = Ok (x, d')" by (simp add: dcd dec_bind_eval f_tag)
next
  fix x d d'
  assume b: "length (dec_b d) < 2 ^ 64" and "dcd d = Ok (x, d')"
  then obtain t d1 where t: "dec_u8 d = Ok (t, d1)" "f t d1 = Ok (x, d')"
    by (auto simp: dcd dec_bind_Ok)
  with tag_f [OF t(2)] c8.sound [OF b t(1)] show "True \<and> reads d (enc x) d'"
    by (simp add: enc)
qed

interpretation cstack: codec put_stack dec_stack "\<lambda>_. True"
  apply (rule tag_codec [where tag = "\<lambda>s. hd (put_stack s)", OF _ dec_stack_def])
  subgoal for x by (cases x) simp_all
  subgoal for x d by (cases x) simp_all
  subgoal for t d x d' by (auto split: if_splits)
  done

interpretation cgrease: codec put_grease dec_grease "\<lambda>_. True"
  apply (rule tag_codec [where tag = "\<lambda>s. hd (put_grease s)", OF _ dec_grease_def])
  subgoal for x by (cases x) simp_all
  subgoal for x d by (cases x) simp_all
  subgoal for t d x d' by (auto split: if_splits)
  done

interpretation cext: codec put_ext_order dec_ext_order "\<lambda>_. True"
  apply (rule tag_codec [where tag = "\<lambda>s. hd (put_ext_order s)", OF _ dec_ext_order_def])
  subgoal for x by (cases x) simp_all
  subgoal for x d by (cases x) simp_all
  subgoal for t d x d' by (auto split: if_splits)
  done

interpretation cversion: codec put_version dec_version "\<lambda>_. True"
  apply (rule tag_codec [where tag = "\<lambda>s. hd (put_version s)", OF _ dec_version_def])
  subgoal for x by (cases x) simp_all
  subgoal for x d by (cases x) simp_all
  subgoal for t d x d' by (auto split: if_splits)
  done

interpretation ccert: codec put_cert_policy dec_cert_policy "\<lambda>_. True"
  apply (rule tag_codec [where tag = "\<lambda>s. hd (put_cert_policy s)", OF _ dec_cert_policy_def])
  subgoal for x by (cases x) simp_all
  subgoal for x d by (cases x) simp_all
  subgoal for t d x d' by (auto split: if_splits)
  done

interpretation ch2: codec put_h2 dec_h2 h2_ok
proof
  fix x d d'
  assume ok: "h2_ok x" and r: "reads d (put_h2 x) d'"
  show "dec_h2 d = Ok (x, d')"
  proof (cases x)
    case None
    with r have "dec_u8 d = Ok (0, d')" by (intro c8.complete) simp_all
    with None show ?thesis by (simp add: dec_h2_def dec_bind_eval dec_return_def)
  next
    case (Some h)
    with r obtain d1 d2 d3 where t: "reads d [1] d1"
      and ss: "reads d1 (put_len (length (settings h)) @ concat (map put_setting (settings h))) d2"
      and wu: "reads d2 (put_u32 (window_update h)) d3"
      and ps: "reads d3 (put_strs (pseudo_header_order h)) d'"
      unfolding Some put_h2.simps append_assoc [symmetric] reads_append by blast
    have "dec_u8 d = Ok (1, d1)" using t by (intro c8.complete) simp_all
    moreover have "dec_settings d1 = Ok (settings h, d2)"
      using ok Some by (intro csettings.complete ss) simp
    moreover have "dec_u32 d2 = Ok (window_update h, d3)" by (intro c32.complete wu) simp
    moreover have "dec_strs d3 = Ok (pseudo_header_order h, d')"
      using ok Some by (intro cstrs.complete ps) simp
    ultimately show ?thesis using Some by (simp add: dec_h2_def dec_bind_eval dec_return_def)
  qed
next
  fix x d d'
  assume b: "length (dec_b d) < 2 ^ 64" and "dec_h2 d = Ok (x, d')"
  then obtain t d1 where t: "reads d [t] d1" "length (dec_b d1) < 2 ^ 64"
    and rest: "(if t = 0 then dec_return None
     else if t = 1 then
       dec_bind dec_settings (\<lambda>ss. dec_bind dec_u32 (\<lambda>wu. dec_bind dec_strs (\<lambda>pho.
         dec_return (Some \<lparr>settings = ss, window_update = wu, pseudo_header_order = pho\<rparr>))))
     else (\<lambda>d. Err (BadTag ''h2''))) d1 = Ok (x, d')"
    unfolding dec_h2_def by (rule c8.bind_sound)
  show "h2_ok x \<and> reads d (put_h2 x) d'"
  proof (cases "t = 0")
    case True
    with t rest show ?thesis by (auto simp: dec_return_Ok)
  next
    case False
    with rest have "t = 1" by (auto split: if_splits)
    with rest obtain ss d2 wu d3 pho where ss: "dec_settings d1 = Ok (ss, d2)"
      and wu: "dec_u32 d2 = Ok (wu, d3)" and ps: "dec_strs d3 = Ok (pho, d')"
      and x: "x = Some \<lparr>settings = ss, window_update = wu, pseudo_header_order = pho\<rparr>"
      by (auto simp: dec_bind_Ok dec_return_Ok)
    note s1 = csettings.sound [OF t(2) ss]
    note l2 = csettings.sound_length [OF t(2) ss]
    note s2 = c32.sound [OF l2 wu]
    note l3 = c32.sound_length [OF l2 wu]
    note s3 = cstrs.sound [OF l3 ps]
    show ?thesis
      using s1 s2 s3 t(1) \<open>t = 1\<close> unfolding x put_h2.simps h2_ok.simps append_assoc [symmetric] reads_append
      by auto
  qed
qed

text \<open>The profile, field by field.\<close>

lemma dec_profile_complete:
  assumes ok: "profile_ok p" and r: "reads d (canonical_encode p) d'"
  shows "dec_profile d = Ok (p, d')"
proof -
  obtain d1 d2 d3 d4 d5 d6 d7 d8 d9 d10 d11 d12 where
    r1: "reads d (put_u32 (spec_id p)) d1"
    and r2: "reads d1 (put_u64 (issued_at p)) d2"
    and r3: "reads d2 (put_str (label p)) d3"
    and r4: "reads d3 (put_stack (stack p)) d4"
    and r5: "reads d4 (put_str (cipher_list p)) d5"
    and r6: "reads d5 (put_strs (sigalgs p)) d6"
    and r7: "reads d6 (put_strs (groups p)) d7"
    and r8: "reads d7 (put_strs (alpn p)) d8"
    and r9: "reads d8 (put_grease (grease p)) d9"
    and r10: "reads d9 (put_ext_order (ext_order p)) d10"
    and r11: "reads d10 (put_version (min_negotiated p)) d11"
    and r12: "reads d11 (put_cert_policy (cert_policy p)) d12"
    and r13: "reads d12 (put_h2 (h2 p)) d'"
    using r unfolding canonical_encode_def append_assoc [symmetric] reads_append by blast
  have e1: "dec_u32 d = Ok (spec_id p, d1)" by (intro c32.complete r1) simp
  have e2: "dec_u64 d1 = Ok (issued_at p, d2)" by (intro c64.complete r2) simp
  have e3: "dec_s d2 = Ok (label p, d3)" using ok by (intro cstr.complete r3) (simp add: profile_ok_def)
  have e4: "dec_stack d3 = Ok (stack p, d4)" by (intro cstack.complete r4) simp
  have e5: "dec_s d4 = Ok (cipher_list p, d5)" using ok by (intro cstr.complete r5) (simp add: profile_ok_def)
  have e6: "dec_strs d5 = Ok (sigalgs p, d6)" using ok by (intro cstrs.complete r6) (simp add: profile_ok_def)
  have e7: "dec_strs d6 = Ok (groups p, d7)" using ok by (intro cstrs.complete r7) (simp add: profile_ok_def)
  have e8: "dec_strs d7 = Ok (alpn p, d8)" using ok by (intro cstrs.complete r8) (simp add: profile_ok_def)
  have e9: "dec_grease d8 = Ok (grease p, d9)" by (intro cgrease.complete r9) simp
  have e10: "dec_ext_order d9 = Ok (ext_order p, d10)" by (intro cext.complete r10) simp
  have e11: "dec_version d10 = Ok (min_negotiated p, d11)" by (intro cversion.complete r11) simp
  have e12: "dec_cert_policy d11 = Ok (cert_policy p, d12)" by (intro ccert.complete r12) simp
  have e13: "dec_h2 d12 = Ok (h2 p, d')" using ok by (intro ch2.complete r13) (simp add: profile_ok_def)
  show ?thesis
    unfolding dec_profile_def
    by (simp only: e1 e2 e3 e4 e5 e6 e7 e8 e9 e10 e11 e12 e13 dec_bind_def dec_return_def result_bind_simps
        prod.case) simp
qed

lemma dec_profile_sound:
  assumes b: "length (dec_b d) < 2 ^ 64" and e: "dec_profile d = Ok (p, d')"
  shows "profile_ok p \<and> reads d (canonical_encode p) d'"
proof -
  obtain x1 d1 x2 d2 x3 d3 x4 d4 x5 d5 x6 d6 x7 d7 x8 d8 x9 d9 x10 d10 x11 d11 x12 d12 x13  where
    e1: "dec_u32 d = Ok (x1, d1)"
    and e2: "dec_u64 d1 = Ok (x2, d2)"
    and e3: "dec_s d2 = Ok (x3, d3)"
    and e4: "dec_stack d3 = Ok (x4, d4)"
    and e5: "dec_s d4 = Ok (x5, d5)"
    and e6: "dec_strs d5 = Ok (x6, d6)"
    and e7: "dec_strs d6 = Ok (x7, d7)"
    and e8: "dec_strs d7 = Ok (x8, d8)"
    and e9: "dec_grease d8 = Ok (x9, d9)"
    and e10: "dec_ext_order d9 = Ok (x10, d10)"
    and e11: "dec_version d10 = Ok (x11, d11)"
    and e12: "dec_cert_policy d11 = Ok (x12, d12)"
    and e13: "dec_h2 d12 = Ok (x13, d')"
    and p: "p = \<lparr>spec_id = x1, issued_at = x2, label = x3, stack = x4, cipher_list = x5, sigalgs = x6,
      groups = x7, alpn = x8, grease = x9, ext_order = x10, min_negotiated = x11, cert_policy = x12, h2 = x13\<rparr>"
    using e unfolding dec_profile_def dec_bind_Ok dec_return_Ok
    by (elim exE conjE) (rule that; (assumption | simp only:))
  note s1 = c32.sound [OF b e1] and l1 = c32.sound_length [OF b e1]
  note s2 = c64.sound [OF l1 e2] and l2 = c64.sound_length [OF l1 e2]
  note s3 = cstr.sound [OF l2 e3] and l3 = cstr.sound_length [OF l2 e3]
  note s4 = cstack.sound [OF l3 e4] and l4 = cstack.sound_length [OF l3 e4]
  note s5 = cstr.sound [OF l4 e5] and l5 = cstr.sound_length [OF l4 e5]
  note s6 = cstrs.sound [OF l5 e6] and l6 = cstrs.sound_length [OF l5 e6]
  note s7 = cstrs.sound [OF l6 e7] and l7 = cstrs.sound_length [OF l6 e7]
  note s8 = cstrs.sound [OF l7 e8] and l8 = cstrs.sound_length [OF l7 e8]
  note s9 = cgrease.sound [OF l8 e9] and l9 = cgrease.sound_length [OF l8 e9]
  note s10 = cext.sound [OF l9 e10] and l10 = cext.sound_length [OF l9 e10]
  note s11 = cversion.sound [OF l10 e11] and l11 = cversion.sound_length [OF l10 e11]
  note s12 = ccert.sound [OF l11 e12] and l12 = ccert.sound_length [OF l11 e12]
  note s13 = ch2.sound [OF l12 e13]
  have "profile_ok p" using s3 s5 s6 s7 s8 s13 by (simp add: p profile_ok_def)
  moreover have "reads d (canonical_encode p) d'"
    unfolding canonical_encode_def p TlsProfile.select_convs
    by (intro reads_appendI [OF s1 [THEN conjunct2]] reads_appendI [OF s2 [THEN conjunct2]]
        reads_appendI [OF s3 [THEN conjunct2]] reads_appendI [OF s4 [THEN conjunct2]]
        reads_appendI [OF s5 [THEN conjunct2]] reads_appendI [OF s6 [THEN conjunct2]]
        reads_appendI [OF s7 [THEN conjunct2]] reads_appendI [OF s8 [THEN conjunct2]]
        reads_appendI [OF s9 [THEN conjunct2]] reads_appendI [OF s10 [THEN conjunct2]]
        reads_appendI [OF s11 [THEN conjunct2]] reads_appendI [OF s12 [THEN conjunct2]]
        s13 [THEN conjunct2])
  ultimately show ?thesis by simp
qed

interpretation cprofile: codec canonical_encode dec_profile profile_ok
  by unfold_locales (rule dec_profile_complete dec_profile_sound; assumption)+

section \<open>Properties\<close>

lemma reads_all: "length b < 2 ^ 64 \<Longrightarrow> reads (dec_new (b @ r)) b \<lparr>dec_b = b @ r, dec_i = length b\<rparr>
    \<longleftrightarrow> length (b @ r) < 2 ^ 64"
  by (auto simp: reads_def dec_new_def)

lemma decode_encode:
  assumes "profile_ok p" and "length (canonical_encode p) < 2 ^ 64"
  shows "decode (canonical_encode p) = Ok p"
proof -
  have "reads (dec_new (canonical_encode p)) (canonical_encode p)
      \<lparr>dec_b = canonical_encode p, dec_i = length (canonical_encode p)\<rparr>"
    using assms(2) reads_all [of "canonical_encode p" "[]"] by simp
  with assms(1) have "dec_profile (dec_new (canonical_encode p))
      = Ok (p, \<lparr>dec_b = canonical_encode p, dec_i = length (canonical_encode p)\<rparr>)"
    by (rule cprofile.complete)
  then show ?thesis by (simp add: decode_def)
qed

text \<open>
  C17: a profile that was encoded is decoded to itself: \<open>decode\<close> inverts
  \<open>canonical_encode\<close> on every profile whose strings are Rust strings and whose lengths fit
  the 32-bit prefixes, as long as the encoding fits in memory.
\<close>

theorem decode_canonical_encode:
  assumes "profile_ok p" and "length (canonical_encode p) < 2 ^ 64"
  shows "decode (canonical_encode p) = Ok p"
  using assms by (rule decode_encode)

text \<open>
  C18: the binary form is canonical.  Whatever bytes \<open>decode\<close> accepts are exactly the encoding
  of the profile it returns, so no two byte strings stand for the same profile, and the profile is
  one that can be encoded.
\<close>

theorem decode_canonical:
  assumes "length b < 2 ^ 64" and "decode b = Ok p"
  shows "canonical_encode p = b \<and> profile_ok p"
proof -
  obtain d where d: "dec_profile (dec_new b) = Ok (p, d)" "dec_i d = length (dec_b d)"
    using assms(2) by (auto simp: decode_def result_bind_Inr_iff split: if_splits)
  have "length (dec_b (dec_new b)) < 2 ^ 64" using assms(1) by (simp add: dec_new_def)
  from cprofile.sound [OF this d(1)] d(2) show ?thesis
    by (auto simp: reads_def dec_new_def)
qed

text \<open>
  Bytes after a complete profile are refused with \<^verbatim>\<open>DecodeError::Trailing\<close>.
\<close>

theorem decode_trailing:
  assumes "profile_ok p" and "length (canonical_encode p @ x) < 2 ^ 64" and "x \<noteq> []"
  shows "decode (canonical_encode p @ x) = Err Trailing"
proof -
  have "reads (dec_new (canonical_encode p @ x)) (canonical_encode p)
      \<lparr>dec_b = canonical_encode p @ x, dec_i = length (canonical_encode p)\<rparr>"
    using assms(2) reads_all [of "canonical_encode p" x] by simp
  with assms(1) have "dec_profile (dec_new (canonical_encode p @ x))
      = Ok (p, \<lparr>dec_b = canonical_encode p @ x, dec_i = length (canonical_encode p)\<rparr>)"
    by (rule cprofile.complete)
  with assms(3) show ?thesis by (simp add: decode_def)
qed

section \<open>Witnesses\<close>

definition sample_profile :: TlsProfile where
  "sample_profile = \<lparr>spec_id = 1, issued_at = 0, label = ''ex'', stack = Boring, cipher_list = [],
     sigalgs = [], groups = [''X25519'', ''P-256''], alpn = [''http/1.1''], grease = GreaseDisabled,
     ext_order = FixedOrder, min_negotiated = Tls12, cert_policy = WebpkiRoots,
     h2 = Some \<lparr>settings = [(1, 65536)], window_update = 7, pseudo_header_order = ['':path'']\<rparr>\<rparr>"

lemma sample_profile_ok: "profile_ok sample_profile"
  by (simp add: sample_profile_def profile_ok_def str_ok_def strs_ok_def is_ascii_rust_string)

lemma sample_profile_length: "length (canonical_encode sample_profile) = 98"
  by (simp add: sample_profile_def canonical_encode_def put_str_def put_strs_def put_bytes_def
      put_len_def put_u16_def put_u32_def put_u64_def put_setting_def)

theorem decode_canonical_encode_witness:
  "profile_ok sample_profile \<and> decode (canonical_encode sample_profile) = Ok sample_profile"
  using decode_canonical_encode [of sample_profile] sample_profile_ok sample_profile_length by simp

theorem decode_canonical_witness:
  "decode (canonical_encode sample_profile) = Ok sample_profile
   \<and> canonical_encode sample_profile = canonical_encode sample_profile \<and> profile_ok sample_profile"
proof -
  have d: "dec_profile (dec_new (canonical_encode sample_profile)) = Ok (sample_profile,
      \<lparr>dec_b = canonical_encode sample_profile, dec_i = length (canonical_encode sample_profile)\<rparr>)"
    by (rule cprofile.complete [OF sample_profile_ok])
       (use reads_all [of "canonical_encode sample_profile" "[]"] sample_profile_length in simp)
  then have "decode (canonical_encode sample_profile) = Ok sample_profile" by (simp add: decode_def)
  with decode_canonical [of "canonical_encode sample_profile" sample_profile] sample_profile_length
  show ?thesis by simp
qed

theorem decode_trailing_witness:
  "profile_ok sample_profile \<and> decode (canonical_encode sample_profile @ [0xFF]) = Err Trailing"
  using decode_trailing [of sample_profile "[0xFF]"] sample_profile_ok sample_profile_length by simp

end
