(* ===== verification/BTree.thy ===== *)
theory BTree
  imports Prelude
begin

text \<open>
  \<^verbatim>\<open>BTreeMap<K, V>\<close>, and \<^verbatim>\<open>serde_json::Map<String, Value>\<close>, which is one
  (the crate is built without \<^verbatim>\<open>preserve_order\<close>): an association list in strictly
  ascending key order, so that iteration is the list itself.  The interface a client relies on is
  the locale \<open>ordered_map\<close>; its lemmas on bulk insertion, the
  \<^verbatim>\<open>for (k, v) in src { dst.insert(k, v) }\<close> loops of the source, are proved once there
  and reach the other theories through the interpretation \<open>bt\<close>.
\<close>

section \<open>Operations\<close>

type_synonym ('k, 'v) btree = "('k \<times> 'v) list"

definition bt_empty :: "('k, 'v) btree" where
  "bt_empty = []"

definition bt_get :: "('k, 'v) btree \<Rightarrow> 'k \<Rightarrow> 'v option" where
  "bt_get m k = map_of m k"

fun bt_insert :: "('k::linorder) \<Rightarrow> 'v \<Rightarrow> ('k, 'v) btree \<Rightarrow> ('k, 'v) btree" where
  "bt_insert k v [] = [(k, v)]"
| "bt_insert k v ((k', v') # m) =
     (if k < k' then (k, v) # (k', v') # m
      else if k = k' then (k, v) # m
      else (k', v') # bt_insert k v m)"

fun bt_remove :: "('k::linorder) \<Rightarrow> ('k, 'v) btree \<Rightarrow> ('k, 'v) btree" where
  "bt_remove k [] = []"
| "bt_remove k ((k', v') # m) = (if k = k' then m else (k', v') # bt_remove k m)"

definition bt_contains :: "('k, 'v) btree \<Rightarrow> 'k \<Rightarrow> bool" where
  "bt_contains m k = (bt_get m k \<noteq> None)"

definition bt_values :: "('k, 'v) btree \<Rightarrow> 'v list" where
  "bt_values m = map snd m"

definition bt_wf :: "('k::linorder, 'v) btree \<Rightarrow> bool" where
  "bt_wf m = sorted_wrt (<) (map fst m)"

text \<open>The loop \<^verbatim>\<open>for (k, v) in src { dst.insert(k, v) }\<close>.\<close>

definition bt_extend :: "('k::linorder, 'v) btree \<Rightarrow> ('k, 'v) btree \<Rightarrow> ('k, 'v) btree" where
  "bt_extend dst src = fold (\<lambda>(k, v) m. bt_insert k v m) src dst"

section \<open>The interface\<close>

locale ordered_map =
  fixes empty :: "'m"
    and get :: "'m \<Rightarrow> 'k \<Rightarrow> 'v option"
    and insert_kv :: "'k \<Rightarrow> 'v \<Rightarrow> 'm \<Rightarrow> 'm"
    and remove :: "'k \<Rightarrow> 'm \<Rightarrow> 'm"
    and entries :: "'m \<Rightarrow> ('k \<times> 'v) list"
    and wf :: "'m \<Rightarrow> bool"
  assumes get_empty: "get empty k = None"
    and get_insert: "wf m \<Longrightarrow> get (insert_kv k v m) k' = (if k' = k then Some v else get m k')"
    and get_remove: "wf m \<Longrightarrow> get (remove k m) k' = (if k' = k then None else get m k')"
    and wf_empty: "wf empty"
    and wf_insert: "wf m \<Longrightarrow> wf (insert_kv k v m)"
    and wf_remove: "wf m \<Longrightarrow> wf (remove k m)"
    and entries_get: "wf m \<Longrightarrow> (k, v) \<in> set (entries m) \<longleftrightarrow> get m k = Some v"
    and ext: "wf m \<Longrightarrow> wf n \<Longrightarrow> (\<And>k. get m k = get n k) \<Longrightarrow> m = n"
begin

lemma wf_fold_insert: "wf m \<Longrightarrow> wf (fold (\<lambda>(k, v). insert_kv k v) kvs m)"
  by (induction kvs arbitrary: m) (auto simp: wf_insert split: prod.splits)

lemma get_fold_insert:
  "wf m \<Longrightarrow> get (fold (\<lambda>(k, v). insert_kv k v) kvs m) k =
     (case map_of (rev kvs) k of Some v \<Rightarrow> Some v | None \<Rightarrow> get m k)"
  by (induction kvs arbitrary: m)
     (auto simp: get_insert wf_insert map_add_def split: option.splits)

lemma insert_idem: "wf m \<Longrightarrow> insert_kv k v (insert_kv k w m) = insert_kv k v m"
  by (intro ext wf_insert) (simp_all add: get_insert wf_insert)

lemma insert_commute:
  "wf m \<Longrightarrow> k \<noteq> k' \<Longrightarrow> insert_kv k v (insert_kv k' w m) = insert_kv k' w (insert_kv k v m)"
  by (intro ext wf_insert) (simp_all add: get_insert wf_insert)

lemma insert_same: "wf m \<Longrightarrow> get m k = Some v \<Longrightarrow> insert_kv k v m = m"
  by (intro ext wf_insert) (simp_all add: get_insert)

lemma insert_remove: "wf m \<Longrightarrow> insert_kv k v (remove k m) = insert_kv k v m"
  by (intro ext wf_insert wf_remove) (simp_all add: get_insert get_remove wf_remove)

end

section \<open>The implementation meets it\<close>

lemma bt_wf_Nil [simp]: "bt_wf []"
  by (simp add: bt_wf_def)

lemma bt_wf_Cons [simp]: "bt_wf ((k, v) # m) \<longleftrightarrow> (\<forall>k'\<in>set (map fst m). k < k') \<and> bt_wf m"
  by (simp add: bt_wf_def)

lemma bt_wf_distinct: "bt_wf m \<Longrightarrow> distinct (map fst m)"
  by (simp add: bt_wf_def strict_sorted_iff)

lemma bt_get_Nil [simp]: "bt_get [] k = None"
  by (simp add: bt_get_def)

lemma bt_get_Cons [simp]: "bt_get ((k', v) # m) k = (if k = k' then Some v else bt_get m k)"
  by (simp add: bt_get_def)

lemma bt_insert_keys: "set (map fst (bt_insert k v m)) = insert k (set (map fst m))"
  by (induction k v m rule: bt_insert.induct) auto

lemma bt_insert_get [bt_simps]: "bt_get (bt_insert k v m) k' = (if k' = k then Some v else bt_get m k')"
  by (induction k v m rule: bt_insert.induct) auto

lemma bt_insert_wf: "bt_wf m \<Longrightarrow> bt_wf (bt_insert k v m)"
  by (induction k v m rule: bt_insert.induct)
     (auto simp: bt_insert_keys [unfolded set_map] dest: less_trans)

lemma bt_remove_keys: "set (map fst (bt_remove k m)) \<subseteq> set (map fst m)"
  by (induction k m rule: bt_remove.induct) auto

lemma bt_get_key_None: "k \<notin> set (map fst m) \<Longrightarrow> bt_get m k = None"
  by (simp add: bt_get_def map_of_eq_None_iff)

lemma bt_remove_get [bt_simps]:
  "bt_wf m \<Longrightarrow> bt_get (bt_remove k m) k' = (if k' = k then None else bt_get m k')"
proof (induction k m rule: bt_remove.induct)
  case (2 k k0 v0 m)
  then have "k0 \<notin> set (map fst m)" by auto
  with 2 show ?case by (auto simp: bt_get_key_None)
qed simp

lemma bt_remove_wf: "bt_wf m \<Longrightarrow> bt_wf (bt_remove k m)"
proof (induction k m rule: bt_remove.induct)
  case (2 k k0 v0 m)
  then show ?case using bt_remove_keys [of k m] by (auto simp del: set_map simp: subset_iff)
qed simp

lemma bt_get_set: "bt_wf m \<Longrightarrow> (k, v) \<in> set m \<longleftrightarrow> bt_get m k = Some v"
  by (simp add: bt_get_def bt_wf_distinct)

lemma sorted_wrt_less_set_eq:
  fixes xs ys :: "('k::linorder) list"
  shows "sorted_wrt (<) xs \<Longrightarrow> sorted_wrt (<) ys \<Longrightarrow> set xs = set ys \<Longrightarrow> xs = ys"
  by (metis sorted_distinct_set_unique strict_sorted_iff)

lemma bt_rebuild: "distinct (map fst m) \<Longrightarrow> m = map (\<lambda>k. (k, the (bt_get m k))) (map fst m)"
proof (induction m)
  case (Cons kv m)
  have "map (\<lambda>k. (k, the (bt_get (kv # m) k))) (map fst m) = map (\<lambda>k. (k, the (bt_get m k))) (map fst m)"
    using Cons.prems by (intro map_cong refl) (cases kv, auto simp del: set_map)
  with Cons show ?case by (cases kv) simp
qed simp

lemma bt_ext:
  assumes "bt_wf m" and "bt_wf n" and eq: "\<And>k. bt_get m k = bt_get n k"
  shows "m = n"
proof -
  have "set m = set n" using assms by (auto simp: bt_get_set)
  then have "map fst m = map fst n"
    using assms(1,2) by (intro sorted_wrt_less_set_eq) (auto simp: bt_wf_def)
  moreover have "bt_get m = bt_get n" using eq by (rule ext)
  ultimately show ?thesis
    using bt_rebuild [OF bt_wf_distinct [OF assms(1)]] bt_rebuild [OF bt_wf_distinct [OF assms(2)]]
    by simp
qed

interpretation bt: ordered_map bt_empty bt_get bt_insert bt_remove "\<lambda>m. m" bt_wf
  by unfold_locales
     (auto simp: bt_empty_def bt_insert_get bt_remove_get bt_insert_wf bt_remove_wf bt_get_set
       intro: bt_ext)

section \<open>Derived facts\<close>

lemma bt_extend_wf [wf_intros]: "bt_wf dst \<Longrightarrow> bt_wf (bt_extend dst src)"
  unfolding bt_extend_def by (rule bt.wf_fold_insert)

lemma map_of_rev_distinct: "distinct (map fst m) \<Longrightarrow> map_of (rev m) = map_of m"
  by (rule map_of_inject_set [THEN iffD2]) (simp_all add: rev_map [symmetric])

lemma bt_extend_get [bt_simps]:
  "bt_wf dst \<Longrightarrow> bt_wf src \<Longrightarrow>
     bt_get (bt_extend dst src) k = (case bt_get src k of Some v \<Rightarrow> Some v | None \<Rightarrow> bt_get dst k)"
  unfolding bt_extend_def
  by (simp only: bt.get_fold_insert map_of_rev_distinct bt_wf_distinct bt_get_def [symmetric])

lemma bt_insert_not_Nil [simp]: "bt_insert k v m \<noteq> []"
  by (cases m) (auto split: if_splits)

lemma bt_contains_insert [simp]: "bt_contains (bt_insert k v m) k' \<longleftrightarrow> k' = k \<or> bt_contains m k'"
  by (simp add: bt_contains_def bt_insert_get)

lemma bt_values_insert_set: "set (bt_values (bt_insert k v m)) \<subseteq> insert v (set (bt_values m))"
  unfolding bt_values_def by (induction k v m rule: bt_insert.induct) auto

lemma bt_get_values: "bt_get m k = Some v \<Longrightarrow> v \<in> set (bt_values m)"
  by (auto simp: bt_get_def bt_values_def dest: map_of_SomeD intro: rev_image_eqI)

end
