(* ===== verification/Json.thy ===== *)
theory Json
  imports RustStr BTree
begin

text \<open>
  The JSON values the enclave observes and signs: \<^verbatim>\<open>serde_json::Value\<close> with its
  accessors, and the functions of \<^verbatim>\<open>enclave/src/main.rs\<close> that walk values:
  \<open>canonical_json\<close>, \<open>pick_value\<close>, \<open>has_present_path\<close> and the field helpers of
  the merge functions.

  The crate's text layer is a parameter, the record \<open>serde\<close>: its parser
  (\<^verbatim>\<open>from_str::<Value>\<close>), its printers of strings and numbers, and the printer of
  whole values.  What the canonical form relies on is the predicate \<open>printer_ok\<close>: a printed
  string starts with a quotation mark and shows where it ends, a printed number consists of number
  characters, and different numbers print differently.

  \<open>wf_json\<close> is the invariant of a value built by the crate: keys of an object are in strictly
  ascending order and a number is a 64-bit integer or a finite float.
\<close>

section \<open>Values\<close>

datatype number = NInt int | NFloat u64

datatype json =
    JNull
  | JBool bool
  | JNumber number
  | JString string
  | JArray "json list"
  | JObject "(string \<times> json) list"

type_synonym jmap = "(string, json) btree"

record serde = unicode +
  from_str :: "string \<Rightarrow> json option"
  str_json :: "string \<Rightarrow> string"
  num_json :: "number \<Rightarrow> string"
  value_json :: "json \<Rightarrow> string"

fun as_object :: "json \<Rightarrow> jmap option" where
  "as_object (JObject m) = Some m"
| "as_object _ = None"

fun as_array :: "json \<Rightarrow> json list option" where
  "as_array (JArray xs) = Some xs"
| "as_array _ = None"

fun as_str :: "json \<Rightarrow> string option" where
  "as_str (JString s) = Some s"
| "as_str _ = None"

fun as_bool :: "json \<Rightarrow> bool option" where
  "as_bool (JBool b) = Some b"
| "as_bool _ = None"

fun as_i64 :: "json \<Rightarrow> int option" where
  "as_i64 (JNumber (NInt i)) = (if - (2 ^ 63) \<le> i \<and> i < 2 ^ 63 then Some i else None)"
| "as_i64 _ = None"

fun as_u64 :: "json \<Rightarrow> nat option" where
  "as_u64 (JNumber (NInt i)) = (if 0 \<le> i \<and> i < 2 ^ 64 then Some (nat i) else None)"
| "as_u64 _ = None"

definition is_array :: "json \<Rightarrow> bool" where
  "is_array v = (as_array v \<noteq> None)"

definition is_null :: "json \<Rightarrow> bool" where
  "is_null v = (v = JNull)"

text \<open>\<^verbatim>\<open>Value::get(&str)\<close>: \<^verbatim>\<open>None\<close> on anything but an object.\<close>

definition value_get :: "json \<Rightarrow> string \<Rightarrow> json option" where
  "value_get v k = Option.bind (as_object v) (\<lambda>m. bt_get m k)"

abbreviation jint :: "int \<Rightarrow> json" where
  "jint i \<equiv> JNumber (NInt i)"

abbreviation empty_object :: json where
  "empty_object \<equiv> JObject []"

section \<open>Canonical text\<close>

fun canonical_json :: "('x) serde_scheme \<Rightarrow> json \<Rightarrow> string" where
  "canonical_json X JNull = ''null''"
| "canonical_json X (JBool b) = (if b then ''true'' else ''false'')"
| "canonical_json X (JNumber n) = num_json X n"
| "canonical_json X (JString s) = str_json X s"
| "canonical_json X (JArray items) =
     ''['' @ join '','' (map (canonical_json X) items) @ '']''"
| "canonical_json X (JObject m) =
     ''{'' @ join '','' (map (\<lambda>(k, t). str_json X k @ '':'' @ t)
                        (sort_key fst (map (\<lambda>(k, v). (k, canonical_json X v)) m))) @ ''}''"

section \<open>Views of values\<close>

definition pick_keys :: "string list \<Rightarrow> jmap \<Rightarrow> jmap" where
  "pick_keys keys m =
     fold (\<lambda>key out. case bt_get m key of None \<Rightarrow> out | Some v \<Rightarrow> bt_insert key v out) keys bt_empty"

fun pick_value :: "json \<Rightarrow> string list \<Rightarrow> json" where
  "pick_value (JArray items) keys = JArray (map (\<lambda>item. pick_value item keys) items)"
| "pick_value (JObject m) keys = JObject (pick_keys keys m)"
| "pick_value v keys = v"

fun get_path :: "json \<Rightarrow> string list \<Rightarrow> json option" where
  "get_path v [] = Some v"
| "get_path v (part # parts) =
     (case value_get v part of None \<Rightarrow> None | Some w \<Rightarrow> get_path w parts)"

definition has_present_path :: "json \<Rightarrow> string \<Rightarrow> bool" where
  "has_present_path value path =
     (case get_path value (split_on (CHR ''.'') path) of
        None \<Rightarrow> False
      | Some JNull \<Rightarrow> False
      | Some (JString s) \<Rightarrow> s \<noteq> []
      | Some (JArray a) \<Rightarrow> a \<noteq> []
      | Some _ \<Rightarrow> True)"

section \<open>Field helpers of the merge functions\<close>

definition append_string_field :: "jmap \<Rightarrow> string \<Rightarrow> json option \<Rightarrow> jmap" where
  "append_string_field target field value =
     (case Option.bind value as_str of
        None \<Rightarrow> target
      | Some s \<Rightarrow>
          bt_insert field
            (JString (case Option.bind (bt_get target field) as_str of
                        Some existing \<Rightarrow> existing @ s
                      | None \<Rightarrow> s)) target)"

definition set_string_field :: "jmap \<Rightarrow> string \<Rightarrow> json option \<Rightarrow> jmap" where
  "set_string_field target field value =
     (case Option.bind value as_str of
        None \<Rightarrow> target
      | Some s \<Rightarrow> bt_insert field (JString s) target)"

definition merge_value_object :: "jmap \<Rightarrow> json \<Rightarrow> jmap" where
  "merge_value_object target source =
     (case source of JObject m \<Rightarrow> bt_extend target m | _ \<Rightarrow> target)"

definition merge_nested_object :: "jmap \<Rightarrow> string \<Rightarrow> json option \<Rightarrow> jmap" where
  "merge_nested_object target field value =
     (case value of
        None \<Rightarrow> target
      | Some v \<Rightarrow>
          (case (Option.bind (bt_get target field) as_object, as_object v) of
             (Some existing, Some incoming) \<Rightarrow>
               bt_insert field (JObject (bt_extend existing incoming)) target
           | _ \<Rightarrow> bt_insert field v target))"

section \<open>Well-formed values\<close>

fun wf_number :: "number \<Rightarrow> bool" where
  "wf_number (NInt i) = (- (2 ^ 63) \<le> i \<and> i < 2 ^ 64)"
| "wf_number (NFloat w) = (unat w div 2 ^ 52 mod 2048 \<noteq> 2047)"

fun wf_json :: "json \<Rightarrow> bool" where
  "wf_json (JNumber n) = wf_number n"
| "wf_json (JArray items) = list_all wf_json items"
| "wf_json (JObject m) = (bt_wf m \<and> list_all (\<lambda>kv. wf_json (snd kv)) m)"
| "wf_json _ = True"

definition wf_map :: "jmap \<Rightarrow> bool" where
  "wf_map m = wf_json (JObject m)"

definition wf_opt :: "json option \<Rightarrow> bool" where
  "wf_opt v = (case v of None \<Rightarrow> True | Some w \<Rightarrow> wf_json w)"

text \<open>What the canonical form relies on in the crate's printers.\<close>

definition number_chars :: string where
  "number_chars = ''0123456789+-.eE''"

definition printer_ok :: "('x) serde_scheme \<Rightarrow> bool" where
  "printer_ok X \<longleftrightarrow>
     (\<forall>s. \<exists>t. str_json X s = CHR 0x22 # t)
     \<and> (\<forall>s t r u. str_json X s @ r = str_json X t @ u \<longrightarrow> s = t \<and> r = u)
     \<and> (\<forall>n. wf_number n \<longrightarrow> num_json X n \<noteq> [] \<and> set (num_json X n) \<subseteq> set number_chars)
     \<and> (\<forall>m n. wf_number m \<longrightarrow> wf_number n \<longrightarrow> num_json X m = num_json X n \<longrightarrow> m = n)"

section \<open>Well-formedness is kept\<close>

lemma wf_map_iff: "wf_map m \<longleftrightarrow> bt_wf m \<and> (\<forall>v\<in>set (bt_values m). wf_json v)"
  by (auto simp: wf_map_def list_all_iff bt_values_def)

lemma wf_json_JObject [simp]: "wf_json (JObject m) \<longleftrightarrow> wf_map m"
  by (simp add: wf_map_def)

declare wf_json.simps(3) [simp del]

lemma wf_map_bt: "wf_map m \<Longrightarrow> bt_wf m"
  by (simp add: wf_map_iff)

lemma wf_map_empty [simp, wf_intros]: "wf_map []" "wf_map bt_empty"
  by (simp_all add: wf_map_iff bt_empty_def bt_values_def)

lemma wf_map_insert [wf_intros]: "wf_map m \<Longrightarrow> wf_json v \<Longrightarrow> wf_map (bt_insert k v m)"
  using bt_values_insert_set [of k v m] by (auto simp: wf_map_iff bt_insert_wf)

lemma wf_map_get: "wf_map m \<Longrightarrow> bt_get m k = Some v \<Longrightarrow> wf_json v"
  by (auto simp: wf_map_iff dest: bt_get_values)

lemma wf_opt_simps [simp]: "wf_opt None" "wf_opt (Some v) = wf_json v"
  by (simp_all add: wf_opt_def)

lemma wf_opt_get [wf_intros]: "wf_map m \<Longrightarrow> wf_opt (bt_get m k)"
  by (auto simp: wf_opt_def dest: wf_map_get split: option.splits)

lemma wf_opt_SomeD: "wf_opt x \<Longrightarrow> x = Some v \<Longrightarrow> wf_json v"
  by simp

lemma as_object_wf: "wf_json v \<Longrightarrow> as_object v = Some m \<Longrightarrow> wf_map m"
  by (cases v) auto

lemma as_array_wf: "wf_json v \<Longrightarrow> as_array v = Some xs \<Longrightarrow> x \<in> set xs \<Longrightarrow> wf_json x"
  by (cases v) (auto simp: list_all_iff)

lemma as_object_Some [simp]: "as_object v = Some m \<longleftrightarrow> v = JObject m"
  by (cases v) auto

lemma as_array_Some [simp]: "as_array v = Some xs \<longleftrightarrow> v = JArray xs"
  by (cases v) auto

lemma as_str_Some [simp]: "as_str v = Some s \<longleftrightarrow> v = JString s"
  by (cases v) auto

lemma wf_map_extend [wf_intros]: "wf_map dst \<Longrightarrow> wf_map src \<Longrightarrow> wf_map (bt_extend dst src)"
proof -
  have *: "(\<forall>kv\<in>set src. wf_json (snd kv)) \<Longrightarrow> wf_map dst \<Longrightarrow> wf_map (bt_extend dst src)" for dst
    unfolding bt_extend_def by (induction src arbitrary: dst) (auto simp: wf_map_insert)
  show "wf_map dst \<Longrightarrow> wf_map src \<Longrightarrow> wf_map (bt_extend dst src)"
    by (rule *) (auto simp: wf_map_iff bt_values_def)
qed

lemma append_string_field_wf [wf_intros]:
  "wf_map m \<Longrightarrow> wf_map (append_string_field m field value)"
  by (auto simp: append_string_field_def intro: wf_map_insert split: option.splits)

lemma set_string_field_wf [wf_intros]:
  "wf_map m \<Longrightarrow> wf_map (set_string_field m field value)"
  by (auto simp: set_string_field_def intro: wf_map_insert split: option.splits)

lemma merge_value_object_wf [wf_intros]:
  "wf_map m \<Longrightarrow> wf_json v \<Longrightarrow> wf_map (merge_value_object m v)"
  by (auto simp: merge_value_object_def intro: wf_map_extend split: json.splits)

lemma bind_as_object_wf:
  "wf_map m \<Longrightarrow> Option.bind (bt_get m k) as_object = Some n \<Longrightarrow> wf_map n"
  by (auto simp: bind_eq_Some_conv dest: wf_map_get)

lemma merge_nested_object_wf [wf_intros]:
  "wf_map m \<Longrightarrow> wf_opt v \<Longrightarrow> wf_map (merge_nested_object m field v)"
  by (auto simp: merge_nested_object_def intro!: wf_map_insert wf_map_extend
      dest: bind_as_object_wf split: option.splits)

lemma pick_keys_wf [wf_intros]: "wf_map m \<Longrightarrow> wf_map (pick_keys keys m)"
proof -
  assume m: "wf_map m"
  have "wf_map out \<Longrightarrow> wf_map (fold (\<lambda>key out. case bt_get m key of None \<Rightarrow> out
      | Some v \<Rightarrow> bt_insert key v out) keys out)" for out
    by (induction keys arbitrary: out)
       (auto intro: wf_map_insert wf_map_get [OF m] split: option.splits)
  then show ?thesis by (simp add: pick_keys_def)
qed

lemma pick_value_wf [wf_intros]: "wf_json v \<Longrightarrow> wf_json (pick_value v keys)"
  by (induction v keys rule: pick_value.induct) (auto simp: list_all_iff intro: pick_keys_wf)

section \<open>Laws of the field helpers\<close>

lemma pick_keys_get_aux:
  "bt_get (fold (\<lambda>key out. case bt_get m key of None \<Rightarrow> out | Some v \<Rightarrow> bt_insert key v out) keys out) k
     = (if k \<in> set keys \<and> bt_get m k \<noteq> None then bt_get m k else bt_get out k)"
  by (induction keys arbitrary: out) (auto simp: bt_insert_get split: option.splits)

lemma pick_keys_get [bt_simps]:
  "bt_get (pick_keys keys m) k = (if k \<in> set keys then bt_get m k else None)"
  by (simp add: pick_keys_def pick_keys_get_aux bt_empty_def)

lemma pick_keys_bt_wf: "bt_wf (pick_keys keys m)"
proof -
  have "bt_wf out \<Longrightarrow> bt_wf (fold (\<lambda>key out. case bt_get m key of None \<Rightarrow> out
      | Some v \<Rightarrow> bt_insert key v out) keys out)" for out
    by (induction keys arbitrary: out) (auto intro: bt_insert_wf split: option.splits)
  then show ?thesis by (simp add: pick_keys_def bt_empty_def)
qed

text \<open>A view depends only on the picked keys of the object.\<close>

lemma pick_keys_cong:
  "(\<And>k. k \<in> set keys \<Longrightarrow> bt_get m k = bt_get n k) \<Longrightarrow> pick_keys keys m = pick_keys keys n"
  by (rule bt_ext) (simp_all add: pick_keys_bt_wf pick_keys_get)

lemma pick_value_idem: "pick_value (pick_value v keys) keys = pick_value v keys"
  by (induction v keys rule: pick_value.induct) (auto simp: pick_keys_get intro: pick_keys_cong)

lemma append_string_field_get:
  "bt_get (append_string_field m f (Some (JString s))) k =
     (if k = f then Some (JString ((case Option.bind (bt_get m f) as_str of Some e \<Rightarrow> e | None \<Rightarrow> []) @ s))
      else bt_get m k)"
  by (auto simp: append_string_field_def bt_insert_get split: option.splits)

text \<open>Two deltas appended one after the other are the concatenated delta.\<close>

lemma append_string_field_append:
  assumes "bt_wf m"
  shows "append_string_field (append_string_field m f (Some (JString s))) f (Some (JString t))
     = append_string_field m f (Some (JString (s @ t)))"
proof (rule bt_ext)
  show "bt_wf (append_string_field (append_string_field m f (Some (JString s))) f (Some (JString t)))"
    and "bt_wf (append_string_field m f (Some (JString (s @ t))))"
    using assms by (auto simp: append_string_field_def intro!: bt_insert_wf split: option.splits)
qed (auto simp: append_string_field_get split: option.splits)

end
