(* ===== verification/Canonical.thy ===== *)
theory Canonical
  imports Json
begin

text \<open>
  The canonical text of \<^verbatim>\<open>canonical_json\<close> is what the enclave hashes into
  \<^verbatim>\<open>field-claims-sha256\<close> and the field hashes.  It is unambiguous: two well-formed
  values with the same canonical text are the same value, also when the text is followed by more
  text that starts with a JSON delimiter.  A concrete printer (\<open>sample_serde\<close>) shows that the
  assumption on the printers can hold.
\<close>

section \<open>Text after a value\<close>

definition delimited :: "string \<Rightarrow> bool" where
  "delimited r = (r = [] \<or> hd r \<in> {CHR '','', CHR '']'', CHR ''}''})"

lemma delimited_simps [simp]:
  "delimited []"
  "delimited (c # r) \<longleftrightarrow> c = CHR '','' \<or> c = CHR '']'' \<or> c = CHR ''}''"
  by (auto simp: delimited_def)

definition join_rest :: "string list \<Rightarrow> string" where
  "join_rest xs = (if xs = [] then [] else CHR '','' # join '','' xs)"

lemma join_Cons: "join '','' (x # xs) = x @ join_rest xs"
  by (cases xs) (simp_all add: join_rest_def)

lemma delimited_join_rest:
  "c \<in> {CHR '']'', CHR ''}''} \<Longrightarrow> delimited (join_rest xs @ c # r)"
  by (auto simp: join_rest_def)

text \<open>
  A comma-separated list in brackets determines its elements when each element determines itself
  before a delimiter.
\<close>

lemma bracketed_inj:
  assumes el: "\<And>x y r u. x \<in> set xs \<Longrightarrow> y \<in> set ys \<Longrightarrow> delimited r \<Longrightarrow> delimited u \<Longrightarrow>
      p x @ r = p y @ u \<Longrightarrow> x = y \<and> r = u"
    and ne: "\<And>x. x \<in> set xs \<union> set ys \<Longrightarrow> p x \<noteq> [] \<and> \<not> delimited (p x)"
    and c: "c \<in> {CHR '']'', CHR ''}''}"
    and eq: "join '','' (map p xs) @ c # r = join '','' (map p ys) @ c # u"
  shows "xs = ys \<and> r = u"
  using el ne eq
proof (induction xs arbitrary: ys)
  case Nil
  show ?case
  proof (cases ys)
    case (Cons y ys')
    then have "p y \<noteq> [] \<and> \<not> delimited (p y)" using Nil.prems(2) by simp
    moreover have "c # r = p y @ join_rest (map p ys') @ c # u"
      using Nil.prems(3) Cons by (simp add: join_Cons)
    ultimately show ?thesis using c by (cases "p y") auto
  qed (use Nil.prems in simp)
next
  case (Cons x xs)
  show ?case
  proof (cases ys)
    case Nil
    then have "p x \<noteq> [] \<and> \<not> delimited (p x)" using Cons.prems(2) by simp
    moreover have "c # u = p x @ join_rest (map p xs) @ c # r"
      using Cons.prems(3) Nil by (simp add: join_Cons)
    ultimately show ?thesis using c by (cases "p x") auto
  next
    case (Cons y ys')
    have "p x @ (join_rest (map p xs) @ c # r) = p y @ (join_rest (map p ys') @ c # u)"
      using Cons.prems(3) \<open>ys = y # ys'\<close> by (simp add: join_Cons)
    then have xy: "x = y" and rest: "join_rest (map p xs) @ c # r = join_rest (map p ys') @ c # u"
      using Cons.prems(1) [of x y "join_rest (map p xs) @ c # r" "join_rest (map p ys') @ c # u"]
        delimited_join_rest [OF c] \<open>ys = y # ys'\<close> by auto
    have "join '','' (map p xs) @ c # r = join '','' (map p ys') @ c # u"
    proof -
      have "xs = [] \<longleftrightarrow> ys' = []"
        using rest c by (auto simp: join_rest_def split: if_splits)
      then show ?thesis using rest by (auto simp: join_rest_def split: if_splits)
    qed
    then have "xs = ys' \<and> r = u"
      using Cons.prems(1,2) \<open>ys = y # ys'\<close> by (intro Cons.IH) auto
    with xy \<open>ys = y # ys'\<close> show ?thesis by simp
  qed
qed

section \<open>The first character shows the kind of value\<close>

lemma printer_ok_str: "printer_ok X \<Longrightarrow> \<exists>t. str_json X s = CHR 0x22 # t"
  unfolding printer_ok_def by blast

lemma printer_ok_str_inj: "printer_ok X \<Longrightarrow> str_json X s @ r = str_json X t @ u \<Longrightarrow> s = t \<and> r = u"
  unfolding printer_ok_def by blast

lemma printer_ok_num:
  "printer_ok X \<Longrightarrow> wf_number n \<Longrightarrow> num_json X n \<noteq> [] \<and> set (num_json X n) \<subseteq> set number_chars"
  unfolding printer_ok_def by blast

lemma printer_ok_num_inj:
  "printer_ok X \<Longrightarrow> wf_number m \<Longrightarrow> wf_number n \<Longrightarrow> num_json X m = num_json X n \<Longrightarrow> m = n"
  unfolding printer_ok_def by blast

lemma num_json_first:
  assumes "printer_ok X" "wf_number n"
  obtains c t where "num_json X n = c # t" "c \<in> set number_chars"
  using printer_ok_num [OF assms] by (cases "num_json X n") auto

lemma number_char_neq:
  "c \<in> set number_chars \<Longrightarrow>
     c \<noteq> CHR ''n'' \<and> c \<noteq> CHR ''t'' \<and> c \<noteq> CHR ''f'' \<and> c \<noteq> CHR 0x22 \<and> c \<noteq> CHR ''['' \<and> c \<noteq> CHR ''{''
     \<and> c \<noteq> CHR '','' \<and> c \<noteq> CHR '']'' \<and> c \<noteq> CHR ''}''"
  unfolding number_chars_def list.set insert_iff empty_iff by (elim disjE; simp)

lemma number_text_inj:
  assumes "set a \<subseteq> set number_chars" "set b \<subseteq> set number_chars"
    and "delimited r" "delimited u" "a @ r = b @ u"
  shows "a = b \<and> r = u"
  using assms
proof (induction a arbitrary: b)
  case Nil
  then show ?case by (cases b) (auto dest: number_char_neq)
next
  case (Cons x a)
  then show ?case by (cases b) (auto dest: number_char_neq)
qed

lemma canonical_json_first:
  assumes "printer_ok X" "wf_json v"
  shows "\<exists>c t. canonical_json X v = c # t \<and> \<not> delimited [c] \<and>
     (case v of JNull \<Rightarrow> c = CHR ''n'' | JBool b \<Rightarrow> c = (if b then CHR ''t'' else CHR ''f'')
      | JNumber _ \<Rightarrow> c \<in> set number_chars | JString _ \<Rightarrow> c = CHR 0x22
      | JArray _ \<Rightarrow> c = CHR ''['' | JObject _ \<Rightarrow> c = CHR ''{'')"
proof (cases v)
  case (JNumber n)
  with assms obtain c t where "num_json X n = c # t" "c \<in> set number_chars"
    using num_json_first by force
  with JNumber show ?thesis by (auto dest: number_char_neq)
next
  case (JString s)
  obtain t where "str_json X s = CHR 0x22 # t" using printer_ok_str [OF assms(1)] by blast
  with JString show ?thesis by simp
qed auto

section \<open>Sorted entries\<close>

lemma sort_key_sorted: "sorted (map f xs) \<Longrightarrow> sort_key f xs = xs"
  by (induction xs) (auto simp: insort_is_Cons)

lemma canonical_json_object:
  assumes "bt_wf m"
  shows "canonical_json X (JObject m) =
     CHR ''{'' # join '','' (map (\<lambda>(k, v). str_json X k @ CHR '':'' # canonical_json X v) m) @ ''}''"
proof -
  have "sorted (map fst m)" using assms by (simp add: bt_wf_def strict_sorted_iff)
  then have "sort_key fst (map (\<lambda>(k, v). (k, canonical_json X v)) m)
      = map (\<lambda>(k, v). (k, canonical_json X v)) m"
    by (intro sort_key_sorted) (simp add: comp_def case_prod_beta)
  moreover have "(\<lambda>(k, t). str_json X k @ '':'' @ t) \<circ> (\<lambda>(k, v). (k, canonical_json X v))
      = (\<lambda>(k, v). str_json X k @ CHR '':'' # canonical_json X v)"
    by auto
  ultimately show ?thesis by simp
qed

section \<open>Unambiguity\<close>

lemma canonical_json_inj_aux:
  assumes X: "printer_ok X"
  shows "wf_json v \<Longrightarrow> wf_json w \<Longrightarrow> delimited r \<Longrightarrow> delimited u \<Longrightarrow>
     canonical_json X v @ r = canonical_json X w @ u \<Longrightarrow> v = w \<and> r = u"
proof (induction v arbitrary: w r u)
  case JNull
  then show ?case using canonical_json_first [OF X JNull(2)]
    by (cases w) (auto dest: number_char_neq split: if_splits)
next
  case (JBool b)
  then show ?case using canonical_json_first [OF X JBool(2)]
    by (cases w) (auto dest: number_char_neq split: if_splits)
next
  case (JNumber n)
  obtain c t where c: "num_json X n = c # t" "c \<in> set number_chars"
    using num_json_first [OF X] JNumber(1) by force
  have "\<exists>m. w = JNumber m"
    using canonical_json_first [OF X JNumber(2)] JNumber(5) c
    by (cases w) (auto dest: number_char_neq split: if_splits)
  then obtain m where m: "w = JNumber m" ..
  have "num_json X n = num_json X m \<and> r = u"
    using JNumber m printer_ok_num [OF X] by (intro number_text_inj) auto
  then show ?case using JNumber(1,2) m printer_ok_num_inj [OF X] by auto
next
  case (JString s)
  obtain t where t: "str_json X s = CHR 0x22 # t" using printer_ok_str [OF X] by blast
  have "\<exists>m. w = JString m"
    using canonical_json_first [OF X JString(2)] JString(5) t
    by (cases w) (auto dest: number_char_neq split: if_splits)
  then obtain s' where w: "w = JString s'" ..
  then have "str_json X s @ r = str_json X s' @ u" using JString(5) by simp
  then show ?case unfolding w using printer_ok_str_inj [OF X] by blast
next
  case (JArray xs)
  have "\<exists>ys. w = JArray ys"
    using canonical_json_first [OF X JArray.prems(2)] JArray.prems(5)
    by (cases w) (auto dest: number_char_neq split: if_splits)
  then obtain ys where w: "w = JArray ys" ..
  have wf: "\<And>x. x \<in> set xs \<union> set ys \<Longrightarrow> wf_json x"
    using JArray.prems(1,2) w by (auto simp: list_all_iff)
  have "xs = ys \<and> r = u"
  proof (rule bracketed_inj [where p = "canonical_json X" and c = "CHR '']''"])
    show "x = y \<and> r = u" if "x \<in> set xs" "y \<in> set ys" "delimited r" "delimited u"
      "canonical_json X x @ r = canonical_json X y @ u" for x y r u
      using that JArray.IH wf by blast
    show "canonical_json X x \<noteq> [] \<and> \<not> delimited (canonical_json X x)" if "x \<in> set xs \<union> set ys" for x
      using canonical_json_first [OF X wf [OF that]] by auto
  qed (use JArray.prems(5) w in auto)
  with w show ?case by simp
next
  case (JObject m)
  have "\<exists>n. w = JObject n"
    using canonical_json_first [OF X JObject.prems(2)] JObject.prems(5)
    by (cases w) (auto dest: number_char_neq split: if_splits)
  then obtain n where w: "w = JObject n" ..
  let ?p = "\<lambda>(k, v). str_json X k @ CHR '':'' # canonical_json X v"
  have bt: "bt_wf m" "bt_wf n" using JObject.prems(1,2) w by (auto intro: wf_map_bt)
  have wf: "\<And>kv. kv \<in> set m \<union> set n \<Longrightarrow> wf_json (snd kv)"
    using JObject.prems(1,2) w by (auto simp: wf_map_iff bt_values_def)
  have "m = n \<and> r = u"
  proof (rule bracketed_inj [where p = ?p and c = "CHR ''}''"])
    show "x = y \<and> r = u" if h: "x \<in> set m" "y \<in> set n" "delimited r" "delimited u" "?p x @ r = ?p y @ u"
      for x y r u
    proof -
      obtain k v k' v' where kv: "x = (k, v)" "y = (k', v')" by (cases x, cases y)
      with h(5) have "str_json X k @ (CHR '':'' # canonical_json X v @ r)
          = str_json X k' @ (CHR '':'' # canonical_json X v' @ u)" by simp
      from printer_ok_str_inj [OF X this]
      have "k = k'" "canonical_json X v @ r = canonical_json X v' @ u" by simp_all
      moreover have "wf_json v" "wf_json v'" using wf [of x] wf [of y] h(1,2) kv by simp_all
      ultimately show ?thesis
        using JObject.IH [of x v v' r u] h kv by (simp add: snds.intros)
    qed
    show "?p x \<noteq> [] \<and> \<not> delimited (?p x)" if "x \<in> set m \<union> set n" for x
      using printer_ok_str [OF X, of "fst x"] by (cases x) auto
  qed (use JObject.prems(5) w bt in \<open>auto simp: canonical_json_object simp del: canonical_json.simps(6)\<close>)
  with w show ?case by simp
qed

section \<open>A concrete printer\<close>

text \<open>
  A JSON printer with the two escapes a string literal cannot do without; numbers in decimal, floats
  by their bits.
\<close>

fun escape_char :: "char \<Rightarrow> string" where
  "escape_char c = (if c = CHR 0x22 \<or> c = CHR 0x5C then [CHR 0x5C, c] else [c])"

definition quote_string :: "string \<Rightarrow> string" where
  "quote_string s = CHR 0x22 # concat (map escape_char s) @ [CHR 0x22]"

fun show_number :: "number \<Rightarrow> string" where
  "show_number (NInt i) = (if i < 0 then CHR ''-'' # nat_to_string (nat (- i)) else nat_to_string (nat i))"
| "show_number (NFloat w) = CHR ''e'' # nat_to_string (unat w)"

definition sample_serde :: "(string \<Rightarrow> json option) \<Rightarrow> serde" where
  "sample_serde parse = \<lparr>uni_lower = to_ascii_lowercase, uni_upper = to_ascii_uppercase,
     from_str = parse, str_json = quote_string, num_json = show_number,
     value_json = (\<lambda>v. canonical_json
        \<lparr>uni_lower = to_ascii_lowercase, uni_upper = to_ascii_uppercase, from_str = parse,
         str_json = quote_string, num_json = show_number, value_json = (\<lambda>_. [])\<rparr> v)\<rparr>"

lemma quote_string_inj:
  "concat (map escape_char s) @ CHR 0x22 # r = concat (map escape_char t) @ CHR 0x22 # u \<Longrightarrow> s = t \<and> r = u"
proof (induction s arbitrary: t)
  case Nil
  then show ?case by (cases t) (auto split: if_splits)
next
  case (Cons c s)
  then show ?case by (cases t) (auto split: if_splits)
qed

lemma digit_in_number_chars: "d < 10 \<Longrightarrow> digit_char d \<in> set number_chars"
proof -
  assume "d < 10"
  then have "d \<in> {0, 1, 2, 3, 4, 5, 6, 7, 8, 9}" by auto
  then show ?thesis by (elim insertE) (simp_all add: digit_char_simps number_chars_def)
qed

lemma nat_to_string_number_chars: "set (nat_to_string n) \<subseteq> set number_chars"
  by (auto dest!: nat_to_string_digits intro: digit_in_number_chars)

lemma nat_to_string_hd: "nat_to_string n = c # s \<Longrightarrow> c \<noteq> CHR ''-'' \<and> c \<noteq> CHR ''e''"
  using nat_to_string_code [of c n] by auto

lemma show_number_inj: "show_number m = show_number n \<Longrightarrow> m = n"
  by (cases m; cases n)
     (auto simp: nat_to_string_inj nat_to_string_hd word_unat_eq_iff split: if_splits
       dest: nat_to_string_hd sym [of "_ # _" "nat_to_string _"])

lemma show_number_chars: "show_number n \<noteq> [] \<and> set (show_number n) \<subseteq> set number_chars"
proof -
  have "CHR ''-'' \<in> set number_chars" "CHR ''e'' \<in> set number_chars"
    by (simp_all add: number_chars_def)
  with nat_to_string_number_chars show ?thesis by (cases n) (auto split: if_splits)
qed

lemma sample_serde_ok: "printer_ok (sample_serde parse)"
proof -
  have "num_json (sample_serde parse) = show_number" "str_json (sample_serde parse) = quote_string"
    by (simp_all add: sample_serde_def)
  moreover have "quote_string s @ r = quote_string t @ u \<Longrightarrow> s = t \<and> r = u" for s t r u
    using quote_string_inj [of s r t u] by (simp add: quote_string_def)
  moreover have "\<exists>t. quote_string s = CHR 0x22 # t" for s
    by (simp add: quote_string_def)
  ultimately show ?thesis
    unfolding printer_ok_def using show_number_chars show_number_inj by metis
qed

section \<open>Properties\<close>

text \<open>
  C13: the canonical text is unambiguous.  Two well-formed values with the same canonical text, the
  bytes that are hashed into the signed statement, are equal, whatever delimited text follows each:
  a relay cannot present a different value under the same canonical bytes.
\<close>

theorem canonical_json_unambiguous:
  assumes "printer_ok X" and "wf_json v" and "wf_json w" and "delimited r" and "delimited u"
    and "canonical_json X v @ r = canonical_json X w @ u"
  shows "v = w \<and> r = u"
  using canonical_json_inj_aux [OF assms] .

theorem canonical_json_unambiguous_witness:
  "printer_ok (sample_serde (\<lambda>_. None)) \<and> wf_json (JArray [jint 1, JNull])
   \<and> canonical_json (sample_serde (\<lambda>_. None)) (JArray [jint 1, JNull]) = ''[1,null]''
   \<and> JArray [jint 1, JNull] = JArray [jint 1, JNull] \<and> '','' = '',''"
proof -
  have t: "canonical_json (sample_serde (\<lambda>_. None)) (JArray [jint 1, JNull]) = ''[1,null]''"
    by (simp add: sample_serde_def nat_to_string.simps digit_char_simps)
  have "JArray [jint 1, JNull] = JArray [jint 1, JNull] \<and> '','' = '',''"
    by (rule canonical_json_unambiguous [of "sample_serde (\<lambda>_. None)"])
       (simp_all add: sample_serde_ok)
  with t show ?thesis by (simp add: sample_serde_ok)
qed

end
