(* ===== verification/Statement.thy ===== *)
theory Statement
  imports Canonical
begin

text \<open>
  The signed statement \<^verbatim>\<open>tee-exchange-v2\<close> of \<^verbatim>\<open>enclave/src/main.rs\<close>: the byte
  helpers (\<open>hex\<close>, \<open>find\<close>, \<open>no_crlf\<close>, \<open>path_no_query\<close>) and
  \<open>build_v2_statement\<close>.  The specification beside it is \<open>statement_lines\<close>, the list
  of lines of the protocol document; the statement is those lines, each with its LF, and with
  fields free of line breaks it determines every field, which is what makes one signature bind one
  exchange.

  SHA-256 and base64 are parameters (the record \<open>crypto\<close>).
\<close>

section \<open>Third-party primitives\<close>

record crypto = serde +
  sha256 :: "u8 list \<Rightarrow> u8 list"
  b64_encode :: "u8 list \<Rightarrow> string"
  b64_decode :: "string \<Rightarrow> u8 list option"

section \<open>Helpers\<close>

definition hex_byte :: "u8 \<Rightarrow> string" where
  "hex_byte x = [hex_digit (unat x div 16), hex_digit (unat x mod 16)]"

definition hex :: "u8 list \<Rightarrow> string" where
  "hex b = concat (map hex_byte b)"

definition sha256_hex :: "('x) crypto_scheme \<Rightarrow> u8 list \<Rightarrow> string" where
  "sha256_hex X b = hex (sha256 X b)"

definition find :: "'a list \<Rightarrow> 'a list \<Rightarrow> nat option" where
  "find hay needle =
     (if needle = [] \<or> length hay < length needle then None
      else List.find (\<lambda>i. take (length needle) (drop i hay) = needle)
             [0..<Suc (length hay - length needle)])"

definition no_crlf :: "string \<Rightarrow> bool" where
  "no_crlf s = (\<not> list_ex (\<lambda>b. b = CR \<or> b = LF) s)"

definition path_no_query :: "string \<Rightarrow> string" where
  "path_no_query p = (case str_find (CHR ''?'') p of Some i \<Rightarrow> take i p | None \<Rightarrow> p)"

definition field_claims_sha256_hex :: "('x) crypto_scheme \<Rightarrow> json \<Rightarrow> string" where
  "field_claims_sha256_hex X claims = sha256_hex X (as_bytes (canonical_json X claims))"

section \<open>The statement\<close>

definition DOMAIN_V2 :: string where
  "DOMAIN_V2 = ''tee-exchange-v2''"

definition build_v2_statement ::
  "('x) crypto_scheme \<Rightarrow> string \<Rightarrow> string \<Rightarrow> string \<Rightarrow> string \<Rightarrow> u16 \<Rightarrow> string \<Rightarrow> string \<Rightarrow> string
     \<Rightarrow> json option \<Rightarrow> u8 list" where
  "build_v2_statement X nonce_b64 upstream_host upstream_path http_method http_status
     resp_content_type request_body_sha256_hex response_body_sha256_hex field_claims =
   as_bytes (
     DOMAIN_V2 @ [LF]
     @ ''nonce='' @ nonce_b64 @ [LF]
     @ ''upstream-host='' @ to_lowercase X upstream_host @ [LF]
     @ ''upstream-path='' @ path_no_query upstream_path @ [LF]
     @ ''http-method='' @ to_uppercase X http_method @ [LF]
     @ ''http-status='' @ nat_to_string (unat http_status) @ [LF]
     @ ''resp-content-type='' @ resp_content_type @ [LF]
     @ ''request-body-sha256='' @ request_body_sha256_hex @ [LF]
     @ ''response-body-sha256='' @ response_body_sha256_hex @ [LF]
     @ (case field_claims of
          None \<Rightarrow> []
        | Some claims \<Rightarrow> ''field-claims-sha256='' @ field_claims_sha256_hex X claims @ [LF]))"

section \<open>Specification: the lines of the protocol document\<close>

definition statement_lines ::
  "string \<Rightarrow> string \<Rightarrow> string \<Rightarrow> string \<Rightarrow> string \<Rightarrow> string \<Rightarrow> string \<Rightarrow> string \<Rightarrow> string option \<Rightarrow> string list"
where
  "statement_lines nonce host path method status ctype reqhash resphash claimshash =
     [''tee-exchange-v2'', ''nonce='' @ nonce, ''upstream-host='' @ host, ''upstream-path='' @ path,
      ''http-method='' @ method, ''http-status='' @ status, ''resp-content-type='' @ ctype,
      ''request-body-sha256='' @ reqhash, ''response-body-sha256='' @ resphash]
     @ (case claimshash of None \<Rightarrow> [] | Some h \<Rightarrow> [''field-claims-sha256='' @ h])"

definition unlines :: "string list \<Rightarrow> string" where
  "unlines ls = concat (map (\<lambda>l. l @ [LF]) ls)"

text \<open>The case mapping of non-ASCII text, a parameter, introduces no line break.\<close>

definition unicode_ok :: "('x) unicode_scheme \<Rightarrow> bool" where
  "unicode_ok X \<longleftrightarrow> (\<forall>s. no_crlf s \<longrightarrow> no_crlf (uni_lower X s) \<and> no_crlf (uni_upper X s))"

section \<open>Facts on the helpers\<close>

lemma no_crlf_iff: "no_crlf s \<longleftrightarrow> CR \<notin> set s \<and> LF \<notin> set s"
  by (auto simp: no_crlf_def list_ex_iff)

lemma no_crlf_LF: "no_crlf s \<Longrightarrow> LF \<notin> set s"
  by (simp add: no_crlf_iff)

lemma no_crlf_simps [simp]:
  "no_crlf []"
  "no_crlf (c # s) \<longleftrightarrow> c \<noteq> CR \<and> c \<noteq> LF \<and> no_crlf s"
  "no_crlf (s @ t) \<longleftrightarrow> no_crlf s \<and> no_crlf t"
  by (auto simp: no_crlf_iff)

lemma no_crlf_take: "no_crlf s \<Longrightarrow> no_crlf (take n s)"
  by (auto simp: no_crlf_iff dest: in_set_takeD)

lemma path_no_query_no_crlf: "no_crlf p \<Longrightarrow> no_crlf (path_no_query p)"
  by (simp add: path_no_query_def no_crlf_take split: option.splits)

lemma path_no_query_free: "CHR ''?'' \<notin> set (path_no_query p)"
proof (cases "str_find (CHR ''?'') p")
  case None
  then have "CHR ''?'' \<notin> set p" by (auto simp: str_find_def position_None_iff)
  with None show ?thesis by (simp add: path_no_query_def)
next
  case (Some i)
  then have "\<forall>j<i. p ! j \<noteq> CHR ''?''" "i < length p"
    by (auto simp: str_find_def position_Some_iff)
  then have "CHR ''?'' \<notin> set (take i p)" by (auto simp: in_set_conv_nth)
  with Some show ?thesis by (simp add: path_no_query_def)
qed

lemma path_no_query_id: "CHR ''?'' \<notin> set p \<Longrightarrow> path_no_query p = p"
proof -
  assume "CHR ''?'' \<notin> set p"
  then have "str_find (CHR ''?'') p = None" by (auto simp: str_find_def position_None_iff)
  then show ?thesis by (simp add: path_no_query_def)
qed

lemma path_no_query_idem [simp]: "path_no_query (path_no_query p) = path_no_query p"
  by (rule path_no_query_id) (rule path_no_query_free)

lemma path_no_query_prefix: "\<exists>q. p = path_no_query p @ q \<and> (q = [] \<or> hd q = CHR ''?'')"
proof (cases "str_find (CHR ''?'') p")
  case (Some i)
  then have i: "i < length p" "p ! i = CHR ''?''" by (auto simp: str_find_def position_Some_iff)
  then have "p = take i p @ drop i p" "hd (drop i p) = CHR ''?''" by (simp_all add: hd_drop_conv_nth)
  with Some show ?thesis unfolding path_no_query_def by (metis option.simps(5))
qed (auto simp: path_no_query_def)

lemma to_ascii_lowercase_no_crlf [simp]: "no_crlf (to_ascii_lowercase s) = no_crlf s"
  by (induction s) (simp_all add: to_ascii_lowercase_def ascii_lower_control)

lemma to_ascii_uppercase_no_crlf [simp]: "no_crlf (to_ascii_uppercase s) = no_crlf s"
  by (induction s) (simp_all add: to_ascii_uppercase_def ascii_upper_control)

lemma to_lowercase_no_crlf: "unicode_ok X \<Longrightarrow> no_crlf s \<Longrightarrow> no_crlf (to_lowercase X s)"
  by (simp add: to_lowercase_def unicode_ok_def)

lemma to_uppercase_no_crlf: "unicode_ok X \<Longrightarrow> no_crlf s \<Longrightarrow> no_crlf (to_uppercase X s)"
  by (simp add: to_uppercase_def unicode_ok_def)

lemma nat_to_string_no_crlf: "no_crlf (nat_to_string n)"
  using nat_to_string_code [of CR n] nat_to_string_code [of LF n] by (auto simp: no_crlf_iff)

lemma of_char_hex_digit: "d < 16 \<Longrightarrow> of_char (hex_digit d) = (if d < 10 then 48 + d else 87 + d :: nat)"
  by (simp add: hex_digit_def)

lemma hex_digit_inj: "d < 16 \<Longrightarrow> e < 16 \<Longrightarrow> hex_digit d = hex_digit e \<longleftrightarrow> d = e"
  unfolding of_char_nat_eq_iff [symmetric] by (auto simp: of_char_hex_digit)

lemma hex_digit_no_crlf: "d < 16 \<Longrightarrow> hex_digit d \<noteq> CR \<and> hex_digit d \<noteq> LF"
  unfolding of_char_nat_eq_iff [symmetric] by (auto simp: of_char_hex_digit)

lemma unat_div16_less: "unat (x :: u8) div 16 < 16"
  using unat_u8_less [of x] by simp

lemma hex_byte_inj: "hex_byte x = hex_byte y \<longleftrightarrow> x = y"
proof
  assume "hex_byte x = hex_byte y"
  then have "unat x div 16 = unat y div 16" "unat x mod 16 = unat y mod 16"
    using unat_div16_less [of x] unat_div16_less [of y] by (auto simp: hex_byte_def hex_digit_inj)
  then have "unat x = unat y" by (metis div_mult_mod_eq)
  then show "x = y" by (simp add: word_unat_eq_iff)
qed simp

lemma length_hex: "length (hex b) = 2 * length b"
  by (induction b) (simp_all add: hex_def hex_byte_def)

lemma hex_no_crlf: "no_crlf (hex b)"
  using unat_div16_less by (induction b) (simp_all add: hex_def hex_byte_def hex_digit_no_crlf)

lemma hex_inj: "hex a = hex b \<longleftrightarrow> a = b"
proof
  show "hex a = hex b \<Longrightarrow> a = b"
  proof (induction a arbitrary: b)
    case Nil
    then show ?case by (cases b) (auto simp: hex_def hex_byte_def)
  next
    case (Cons x a)
    then obtain y b' where b: "b = y # b'" by (cases b) (auto simp: hex_def hex_byte_def)
    with Cons.prems have "hex_byte x = hex_byte y" "hex a = hex b'"
      by (simp_all add: hex_def hex_byte_def)
    with Cons.IH b show ?case by (simp add: hex_byte_inj)
  qed
qed simp

lemma find_Some:
  assumes "find hay needle = Some i"
  shows "needle \<noteq> [] \<and> i + length needle \<le> length hay \<and> take (length needle) (drop i hay) = needle
     \<and> (\<forall>j<i. take (length needle) (drop j hay) \<noteq> needle)"
proof -
  have f: "List.find (\<lambda>i. take (length needle) (drop i hay) = needle)
      [0..<Suc (length hay - length needle)] = Some i"
    and n: "needle \<noteq> []" "length needle \<le> length hay"
    using assms by (auto simp: find_def split: if_splits)
  from f obtain k where k: "k < Suc (length hay - length needle)" "i = k"
    "take (length needle) (drop i hay) = needle"
    "\<forall>j<k. take (length needle) (drop ([0..<Suc (length hay - length needle)] ! j) hay) \<noteq> needle"
    unfolding find_Some_iff by (auto simp del: upt_Suc)
  then have "\<forall>j<i. take (length needle) (drop j hay) \<noteq> needle"
    by (auto simp del: upt_Suc)
  with k n show ?thesis by auto
qed

lemma find_None:
  assumes "find hay needle = None" and "needle \<noteq> []"
  shows "take (length needle) (drop i hay) \<noteq> needle"
proof (cases "i + length needle \<le> length hay")
  case True
  then have "i \<in> set [0..<Suc (length hay - length needle)]" by auto
  with assms True show ?thesis by (auto simp: find_def find_None_iff simp del: upt_Suc split: if_splits)
next
  case False
  then have "length (take (length needle) (drop i hay)) < length needle"
    using assms(2) by (cases needle) auto
  then show ?thesis by auto
qed

section \<open>The statement is the specified lines\<close>

lemma build_v2_statement_lines:
  "build_v2_statement X n h p m st ct rq rs fc =
     as_bytes (unlines (statement_lines n (to_lowercase X h) (path_no_query p) (to_uppercase X m)
       (nat_to_string (unat st)) ct rq rs (map_option (field_claims_sha256_hex X) fc)))"
  by (simp add: build_v2_statement_def unlines_def statement_lines_def DOMAIN_V2_def split: option.split)

lemma unlines_inj:
  "(\<forall>l\<in>set ls. LF \<notin> set l) \<Longrightarrow> (\<forall>l\<in>set ms. LF \<notin> set l) \<Longrightarrow> unlines ls = unlines ms \<Longrightarrow> ls = ms"
proof (induction ls arbitrary: ms)
  case Nil
  then show ?case by (cases ms) (auto simp: unlines_def)
next
  case (Cons l ls)
  then obtain k ks where ms: "ms = k # ks" by (cases ms) (auto simp: unlines_def)
  with Cons.prems have "l @ LF # unlines ls = k @ LF # unlines ks" by (simp add: unlines_def)
  moreover have "LF \<notin> set l" "LF \<notin> set k" using Cons.prems ms by simp_all
  ultimately have "l = k \<and> unlines ls = unlines ks" by (intro append_sep_eq [where c = LF])
  with Cons.IH [of ks] Cons.prems ms show ?case by simp
qed

lemma statement_lines_no_crlf:
  assumes "no_crlf n" "no_crlf h" "no_crlf p" "no_crlf m" "no_crlf st" "no_crlf ct" "no_crlf rq"
    "no_crlf rs" "case fh of None \<Rightarrow> True | Some x \<Rightarrow> no_crlf x"
    and "l \<in> set (statement_lines n h p m st ct rq rs fh)"
  shows "no_crlf l"
  using assms by (auto simp: statement_lines_def split: option.splits)

definition fields_no_crlf :: "string \<Rightarrow> string \<Rightarrow> string \<Rightarrow> string \<Rightarrow> string \<Rightarrow> string \<Rightarrow> string \<Rightarrow> bool" where
  "fields_no_crlf nonce host path method ctype rq rs =
     list_all no_crlf [nonce, host, path, method, ctype, rq, rs]"

lemma statement_all_lines_no_crlf:
  assumes "unicode_ok X" and "fields_no_crlf n h p m ct rq rs"
    and "l \<in> set (statement_lines n (to_lowercase X h) (path_no_query p) (to_uppercase X m)
       (nat_to_string (unat st)) ct rq rs (map_option (field_claims_sha256_hex X) fc))"
  shows "no_crlf l"
proof (rule statement_lines_no_crlf [OF _ _ _ _ _ _ _ _ _ assms(3)])
  show "case map_option (field_claims_sha256_hex X) fc of None \<Rightarrow> True | Some x \<Rightarrow> no_crlf x"
    by (simp add: field_claims_sha256_hex_def sha256_hex_def hex_no_crlf split: option.splits)
qed (use assms(1,2) in \<open>simp_all add: fields_no_crlf_def to_lowercase_no_crlf to_uppercase_no_crlf
    path_no_query_no_crlf nat_to_string_no_crlf\<close>)

lemma build_v2_statement_inj:
  assumes "unicode_ok X" and "fields_no_crlf n h p m ct rq rs" and "fields_no_crlf n' h' p' m' ct' rq' rs'"
    and "build_v2_statement X n h p m st ct rq rs fc = build_v2_statement X n' h' p' m' st' ct' rq' rs' fc'"
  shows "n = n' \<and> to_lowercase X h = to_lowercase X h' \<and> path_no_query p = path_no_query p'
    \<and> to_uppercase X m = to_uppercase X m' \<and> st = st' \<and> ct = ct' \<and> rq = rq' \<and> rs = rs'
    \<and> map_option (field_claims_sha256_hex X) fc = map_option (field_claims_sha256_hex X) fc'"
proof -
  let ?L = "statement_lines n (to_lowercase X h) (path_no_query p) (to_uppercase X m)
       (nat_to_string (unat st)) ct rq rs (map_option (field_claims_sha256_hex X) fc)"
  let ?M = "statement_lines n' (to_lowercase X h') (path_no_query p') (to_uppercase X m')
       (nat_to_string (unat st')) ct' rq' rs' (map_option (field_claims_sha256_hex X) fc')"
  have "unlines ?L = unlines ?M" using assms(4) by (simp add: build_v2_statement_lines)
  then have "?L = ?M"
    by (rule unlines_inj [rotated 2])
       (use statement_all_lines_no_crlf [OF assms(1,2)] statement_all_lines_no_crlf [OF assms(1,3)]
         in \<open>blast dest: no_crlf_LF\<close>)+
  then show ?thesis
    by (auto simp: statement_lines_def nat_to_string_inj word_unat_eq_iff split: option.splits)
qed

section \<open>Properties\<close>

text \<open>
  The layout of the protocol document: nine LF-terminated lines in its order, ten with field
  claims, and no CR anywhere; splitting the text at LF gives back exactly those lines.
\<close>

theorem build_v2_statement_layout:
  assumes "unicode_ok X" and "fields_no_crlf n h p m ct rq rs"
  shows "split_on LF (from_bytes (build_v2_statement X n h p m st ct rq rs fc)) =
      statement_lines n (to_lowercase X h) (path_no_query p) (to_uppercase X m)
        (nat_to_string (unat st)) ct rq rs (map_option (field_claims_sha256_hex X) fc) @ [[]]
    \<and> CR \<notin> set (from_bytes (build_v2_statement X n h p m st ct rq rs fc))"
proof -
  let ?L = "statement_lines n (to_lowercase X h) (path_no_query p) (to_uppercase X m)
       (nat_to_string (unat st)) ct rq rs (map_option (field_claims_sha256_hex X) fc)"
  have nc: "\<forall>l\<in>set ?L. no_crlf l" using statement_all_lines_no_crlf [OF assms] by blast
  have "\<forall>l\<in>set ls. no_crlf l \<Longrightarrow> split_on LF (unlines ls) = ls @ [[]] \<and> CR \<notin> set (unlines ls)" for ls
    by (induction ls) (auto simp: unlines_def split_on_append_sep split_on_no_sep no_crlf_iff)
  from this [OF nc] show ?thesis by (simp add: build_v2_statement_lines)
qed

section \<open>Witnesses\<close>

definition sample_crypto :: "(string \<Rightarrow> json option) \<Rightarrow> crypto" where
  "sample_crypto parse = \<lparr>uni_lower = to_ascii_lowercase, uni_upper = to_ascii_uppercase,
     from_str = parse, str_json = quote_string, num_json = show_number,
     value_json = canonical_json (sample_serde parse),
     sha256 = (\<lambda>b. take 32 (b @ replicate 32 0)), b64_encode = hex,
     b64_decode = (\<lambda>s. if no_crlf s then Some (as_bytes s) else None)\<rparr>"

lemma sample_crypto_unicode_ok: "unicode_ok (sample_crypto parse)"
  by (simp add: unicode_ok_def sample_crypto_def)

theorem build_v2_statement_layout_witness:
  "fields_no_crlf ''bm9u'' ''h'' ''/p'' ''GET'' ''text/plain'' ''00'' ''11''
   \<and> split_on LF (from_bytes (build_v2_statement (sample_crypto (\<lambda>_. None)) ''bm9u'' ''h'' ''/p'' ''GET'' 200
        ''text/plain'' ''00'' ''11'' None))
     = statement_lines ''bm9u'' (to_lowercase (sample_crypto (\<lambda>_. None)) ''h'') (path_no_query ''/p'')
         (to_uppercase (sample_crypto (\<lambda>_. None)) ''GET'') (nat_to_string (unat (200 :: u16))) ''text/plain'' ''00'' ''11'' None @ [[]]"
proof -
  have ok: "fields_no_crlf ''bm9u'' ''h'' ''/p'' ''GET'' ''text/plain'' ''00'' ''11''"
    by (simp add: fields_no_crlf_def)
  from build_v2_statement_layout [OF sample_crypto_unicode_ok ok, where st = 200 and fc = None] ok show ?thesis by simp
qed

end
