(* ===== verification/Merge.thy ===== *)
theory Merge
  imports Json
begin

text \<open>
  The delta merges of \<^verbatim>\<open>enclave/src/main.rs\<close>: how one streamed fragment changes
  the value accumulated so far.  A \<^verbatim>\<open>&mut\<close> map argument is passed and returned;
  a loop over a map visits its entries in ascending key order, which is the order of the list that
  models it.

  The lemmas show that every merge keeps values well-formed, that repeated tool-call fragments
  concatenate their arguments, and how far an index taken from a fragment grows a list.
\<close>

section \<open>Shared idioms\<close>

text \<open>
  \<^verbatim>\<open>x.and_then(Value::as_object).cloned().unwrap_or_default()\<close> and the same with
  \<^verbatim>\<open>as_array\<close>; \<^verbatim>\<open>map.entry(k).or_insert_with(d)\<close> read as a
  value that is written back; the cast \<^verbatim>\<open>n as i64\<close> of a \<^verbatim>\<open>usize\<close>,
  which wraps.
\<close>

definition obj_or_empty :: "json option \<Rightarrow> jmap" where
  "obj_or_empty v = (case Option.bind v as_object of Some m \<Rightarrow> m | None \<Rightarrow> bt_empty)"

definition arr_or_empty :: "json option \<Rightarrow> json list" where
  "arr_or_empty v = (case Option.bind v as_array of Some xs \<Rightarrow> xs | None \<Rightarrow> [])"

definition entry_or :: "('k, 'v) btree \<Rightarrow> 'k \<Rightarrow> 'v \<Rightarrow> 'v" where
  "entry_or m k d = (case bt_get m k of Some v \<Rightarrow> v | None \<Rightarrow> d)"

definition usize_as_i64 :: "nat \<Rightarrow> int" where
  "usize_as_i64 n = (int n + 2 ^ 63) mod 2 ^ 64 - 2 ^ 63"

definition get_str :: "jmap \<Rightarrow> string \<Rightarrow> string option" where
  "get_str m k = Option.bind (bt_get m k) as_str"

definition get_object :: "jmap \<Rightarrow> string \<Rightarrow> jmap option" where
  "get_object m k = Option.bind (bt_get m k) as_object"

definition get_array :: "jmap \<Rightarrow> string \<Rightarrow> json list option" where
  "get_array m k = Option.bind (bt_get m k) as_array"

definition get_i64 :: "jmap \<Rightarrow> string \<Rightarrow> int option" where
  "get_i64 m k = Option.bind (bt_get m k) as_i64"

type_synonym blocks = "(int, jmap) btree"

section \<open>OpenAI\<close>

definition merge_tool_call_field :: "string \<times> json \<Rightarrow> jmap \<Rightarrow> jmap" where
  "merge_tool_call_field kv item =
     (case kv of (key, value) \<Rightarrow>
        if key = ''index'' then item
        else if key = ''function'' then
          (case as_object value of
             Some fn_delta \<Rightarrow>
               let fn_obj = obj_or_empty (bt_get item ''function'');
                   fn_obj = append_string_field fn_obj ''name'' (bt_get fn_delta ''name'');
                   fn_obj = append_string_field fn_obj ''arguments'' (bt_get fn_delta ''arguments'')
               in bt_insert ''function'' (JObject fn_obj) item
           | None \<Rightarrow> item)
        else bt_insert key value item)"

definition merge_tool_call :: "json \<Rightarrow> json list \<Rightarrow> json list" where
  "merge_tool_call raw current =
     (case as_object raw of
        None \<Rightarrow> current
      | Some raw_obj \<Rightarrow>
          let index = (case Option.bind (bt_get raw_obj ''index'') as_u64 of
                         Some v \<Rightarrow> v | None \<Rightarrow> length current);
              current = pad_to empty_object index current;
              item = obj_or_empty (Some (current ! index));
              item = fold merge_tool_call_field raw_obj item
          in current[index := JObject item])"

definition merge_tool_calls :: "json list \<Rightarrow> json list \<Rightarrow> json list" where
  "merge_tool_calls current delta = fold merge_tool_call delta current"

definition merge_openai_chat_delta :: "jmap \<Rightarrow> jmap \<Rightarrow> jmap" where
  "merge_openai_chat_delta message delta =
     (let message = (if \<not> bt_contains message ''role''
                     then (case get_str delta ''role'' of
                             Some role \<Rightarrow> bt_insert ''role'' (JString role) message
                           | None \<Rightarrow> message)
                     else message);
          message = append_string_field message ''content'' (bt_get delta ''content'');
          message = append_string_field message ''reasoning_content''
                      (bt_get delta ''reasoning_content'')
      in (case get_array delta ''tool_calls'' of
            Some tool_calls \<Rightarrow>
              bt_insert ''tool_calls''
                (JArray (merge_tool_calls (arr_or_empty (bt_get message ''tool_calls'')) tool_calls))
                message
          | None \<Rightarrow> message))"

definition merge_openai_response_content_part ::
  "jmap \<Rightarrow> json option \<Rightarrow> json option \<Rightarrow> string option \<Rightarrow> json option \<Rightarrow> string option \<Rightarrow> json option \<Rightarrow> jmap" where
  "merge_openai_response_content_part item raw_index raw_part append_field append_value set_field set_value =
     (let content = arr_or_empty (bt_get item ''content'');
          index = (case Option.bind raw_index as_u64 of Some v \<Rightarrow> v | None \<Rightarrow> length content);
          content = pad_to empty_object index content;
          part = obj_or_empty (Some (content ! index));
          part = (case Option.bind raw_part as_object of
                    Some raw \<Rightarrow> bt_extend part raw | None \<Rightarrow> part);
          part = (case append_field of
                    Some field \<Rightarrow> append_string_field part field append_value | None \<Rightarrow> part);
          part = (case set_field of
                    Some field \<Rightarrow> set_string_field part field set_value | None \<Rightarrow> part);
          content = content[index := JObject part]
      in bt_insert ''content'' (JArray content) item)"

section \<open>Anthropic\<close>

definition seed_anthropic_content_blocks :: "blocks \<Rightarrow> json option \<Rightarrow> blocks" where
  "seed_anthropic_content_blocks bs content =
     (case Option.bind content as_array of
        None \<Rightarrow> bs
      | Some items \<Rightarrow>
          fold (\<lambda>(i, item) bs.
                  case as_object item of
                    Some block \<Rightarrow>
                      bt_insert (usize_as_i64 i) (entry_or bs (usize_as_i64 i) block) bs
                  | None \<Rightarrow> bs)
               (enumerate 0 items) bs)"

definition merge_anthropic_content_delta :: "jmap \<Rightarrow> jmap \<Rightarrow> jmap" where
  "merge_anthropic_content_delta block delta =
     (let block = (if \<not> bt_contains block ''type''
                   then (case get_str delta ''type'' of
                           Some delta_type \<Rightarrow>
                             bt_insert ''type'' (JString (trim_end_matches delta_type ''_delta'')) block
                         | None \<Rightarrow> block)
                   else block);
          block = append_string_field block ''text'' (bt_get delta ''text'');
          block = append_string_field block ''thinking'' (bt_get delta ''thinking'');
          block = append_string_field block ''signature'' (bt_get delta ''signature'')
      in append_string_field block ''input_json'' (bt_get delta ''partial_json''))"

section \<open>Gemini\<close>

text \<open>The shared tail of the two semantic merges: objects merge, null is skipped, the rest replaces.\<close>

definition merge_or_replace :: "string \<Rightarrow> json \<Rightarrow> jmap \<Rightarrow> jmap" where
  "merge_or_replace k v target =
     (case (Option.bind (bt_get target k) as_object, as_object v) of
        (Some existing, Some incoming) \<Rightarrow>
          bt_insert k (JObject (bt_extend existing incoming)) target
      | _ \<Rightarrow> if \<not> is_null v then bt_insert k v target else target)"

definition merge_semantic_part :: "jmap \<Rightarrow> jmap \<Rightarrow> jmap" where
  "merge_semantic_part target source =
     fold (\<lambda>(k, v) target.
             if k = ''text'' \<or> k = ''thinking'' \<or> k = ''signature''
             then append_string_field target k (Some v)
             else merge_or_replace k v target) source target"

definition merge_indexed_parts :: "json option \<Rightarrow> json list \<Rightarrow> json" where
  "merge_indexed_parts existing incoming =
     JArray (fold (\<lambda>(i, raw) out.
                     let out = pad_to empty_object i out in
                     case as_object raw of
                       None \<Rightarrow> out[i := raw]
                     | Some raw_obj \<Rightarrow>
                         out[i := JObject (merge_semantic_part (obj_or_empty (Some (out ! i))) raw_obj)])
                  (enumerate 0 incoming) (arr_or_empty existing))"

definition merge_gemini_content :: "jmap \<Rightarrow> jmap \<Rightarrow> jmap" where
  "merge_gemini_content content content_obj =
     fold (\<lambda>(content_key, content_value) content.
             if content_key = ''parts'' then
               (case as_array content_value of
                  Some parts \<Rightarrow>
                    bt_insert ''parts'' (merge_indexed_parts (bt_get content ''parts'') parts) content
                | None \<Rightarrow> content)
             else if \<not> is_null content_value then bt_insert content_key content_value content
             else content) content_obj content"

definition merge_gemini_candidate :: "jmap \<Rightarrow> jmap \<Rightarrow> jmap" where
  "merge_gemini_candidate target source =
     fold (\<lambda>(k, v) target.
             if k = ''index'' then target
             else if k = ''content'' then
               (case as_object v of
                  Some content_obj \<Rightarrow>
                    bt_insert ''content''
                      (JObject (merge_gemini_content (obj_or_empty (bt_get target ''content''))
                        content_obj)) target
                | None \<Rightarrow> target)
             else if \<not> is_null v then bt_insert k v target
             else target) source target"

section \<open>DashScope\<close>

definition merge_dashscope_message :: "jmap \<Rightarrow> jmap \<Rightarrow> jmap" where
  "merge_dashscope_message target source =
     (let target = append_string_field target ''content'' (bt_get source ''content'');
          target = append_string_field target ''reasoning_content''
                     (bt_get source ''reasoning_content'');
          target = (case get_array source ''tool_calls'' of
                      Some tool_calls \<Rightarrow>
                        bt_insert ''tool_calls''
                          (JArray (merge_tool_calls (arr_or_empty (bt_get target ''tool_calls''))
                             tool_calls)) target
                    | None \<Rightarrow> target)
      in fold (\<lambda>(k, v) target.
                 if k \<noteq> ''content'' \<and> k \<noteq> ''reasoning_content'' \<and> k \<noteq> ''tool_calls'' \<and> \<not> is_null v
                 then bt_insert k v target else target) source target)"

section \<open>Bedrock\<close>

definition merge_nested_semantic_object :: "json option \<Rightarrow> jmap \<Rightarrow> string list \<Rightarrow> json" where
  "merge_nested_semantic_object existing incoming append_fields =
     JObject (fold (\<lambda>(k, v) out.
                      if k \<in> set append_fields then append_string_field out k (Some v)
                      else merge_or_replace k v out) incoming (obj_or_empty existing))"

definition merge_bedrock_content_delta :: "jmap \<Rightarrow> jmap \<Rightarrow> jmap" where
  "merge_bedrock_content_delta block delta =
     (let block = append_string_field block ''text'' (bt_get delta ''text'');
          block = (if bt_get delta ''text'' \<noteq> None \<and> \<not> bt_contains block ''type''
                   then bt_insert ''type'' (JString ''text'') block else block);
          block = (case get_object delta ''reasoningContent'' of
                     Some reasoning \<Rightarrow>
                       bt_insert ''reasoningContent''
                         (merge_nested_semantic_object (bt_get block ''reasoningContent'') reasoning
                           [''text'', ''signature'']) block
                   | None \<Rightarrow> block);
          block = (case get_object delta ''toolUse'' of
                     Some tool_use \<Rightarrow>
                       bt_insert ''toolUse''
                         (merge_nested_semantic_object (bt_get block ''toolUse'') tool_use [''input''])
                         block
                   | None \<Rightarrow> block);
          block = (case get_object delta ''citationsContent'' of
                     Some citations \<Rightarrow>
                       bt_insert ''citationsContent''
                         (merge_nested_semantic_object (bt_get block ''citationsContent'') citations
                           [''text'']) block
                   | None \<Rightarrow> block)
      in fold (\<lambda>(k, v) block.
                 if k \<noteq> ''text'' \<and> k \<noteq> ''reasoningContent'' \<and> k \<noteq> ''toolUse''
                    \<and> k \<noteq> ''citationsContent'' \<and> \<not> is_null v
                 then bt_insert k v block else block) delta block)"

section \<open>Cohere\<close>

definition merge_cohere_content_block :: "blocks \<Rightarrow> int \<Rightarrow> json \<Rightarrow> blocks" where
  "merge_cohere_content_block bs index raw_block =
     (case as_object raw_block of
        None \<Rightarrow> bs
      | Some raw_obj \<Rightarrow>
          bt_insert index (merge_semantic_part (entry_or bs index bt_empty) raw_obj) bs)"

definition merge_cohere_message_delta :: "jmap \<Rightarrow> blocks \<Rightarrow> json \<Rightarrow> jmap \<times> blocks" where
  "merge_cohere_message_delta message content_blocks raw_message =
     (case as_object raw_message of
        None \<Rightarrow> (message, content_blocks)
      | Some message_obj \<Rightarrow>
          let message = fold (\<lambda>(k, v) message.
                  if k \<noteq> ''content'' \<and> \<not> is_null v then bt_insert k v message else message)
                message_obj message
          in (case bt_get message_obj ''content'' of
                None \<Rightarrow> (message, content_blocks)
              | Some raw_content \<Rightarrow>
                  (message,
                   (case raw_content of
                      JArray items \<Rightarrow>
                        fold (\<lambda>(i, item) bs. merge_cohere_content_block bs (usize_as_i64 i) item)
                          (enumerate 0 items) content_blocks
                    | JObject content_obj \<Rightarrow>
                        let index = (case get_i64 content_obj ''index'' of
                                       Some i \<Rightarrow> i
                                     | None \<Rightarrow> if content_blocks = [] then 0
                                               else usize_as_i64 (length content_blocks) - 1)
                        in merge_cohere_content_block content_blocks index raw_content
                    | JString s \<Rightarrow>
                        let block = entry_or content_blocks 0
                              (bt_insert ''type'' (JString ''text'') bt_empty)
                        in bt_insert 0 (append_string_field block ''text'' (Some (JString s)))
                             content_blocks
                    | _ \<Rightarrow> content_blocks))))"

section \<open>Well-formedness is kept\<close>

definition wf_blocks :: "blocks \<Rightarrow> bool" where
  "wf_blocks bs \<longleftrightarrow> bt_wf bs \<and> (\<forall>v\<in>set (bt_values bs). wf_map v)"

lemma fold_invariant_in:
  "(\<And>x m. x \<in> set xs \<Longrightarrow> P m \<Longrightarrow> P (f x m)) \<Longrightarrow> P m \<Longrightarrow> P (fold f xs m)"
  by (induction xs arbitrary: m) auto

lemma wf_map_entry: "wf_map m \<Longrightarrow> (k, v) \<in> set m \<Longrightarrow> wf_json v"
  by (auto simp: wf_map_iff bt_values_def)

lemma wf_map_fold [wf_intros]:
  assumes "wf_map source" and "wf_map target"
    and "\<And>k v m. wf_json v \<Longrightarrow> wf_map m \<Longrightarrow> wf_map (f (k, v) m)"
  shows "wf_map (fold f source target)"
  using assms by (intro fold_invariant_in [where P = wf_map]) (auto dest: wf_map_entry)

lemma obj_or_empty_wf [wf_intros]: "wf_opt v \<Longrightarrow> wf_map (obj_or_empty v)"
  by (auto simp: obj_or_empty_def bind_eq_Some_conv split: option.splits)

lemma arr_or_empty_wf [wf_intros]: "wf_opt v \<Longrightarrow> list_all wf_json (arr_or_empty v)"
  by (auto simp: arr_or_empty_def bind_eq_Some_conv split: option.splits)

lemma get_object_wf: "wf_map m \<Longrightarrow> get_object m k = Some n \<Longrightarrow> wf_map n"
  by (auto simp: get_object_def bind_eq_Some_conv dest: wf_map_get)

lemma get_array_wf: "wf_map m \<Longrightarrow> get_array m k = Some xs \<Longrightarrow> list_all wf_json xs"
  by (auto simp: get_array_def bind_eq_Some_conv dest: wf_map_get)

lemma pad_to_wf: "list_all wf_json xs \<Longrightarrow> list_all wf_json (pad_to empty_object i xs)"
  by (auto simp: list_all_iff pad_to_def)

lemma pad_nth_wf [wf_intros]:
  "list_all wf_json xs \<Longrightarrow> wf_map (obj_or_empty (Some (pad_to empty_object i xs ! i)))"
  using pad_to_wf [of xs i] by (intro obj_or_empty_wf) (simp add: list_all_length)

lemma list_update_wf [wf_intros]:
  "list_all wf_json xs \<Longrightarrow> wf_json v \<Longrightarrow> list_all wf_json (xs[i := v])"
  using set_update_subset_insert [of xs i v] by (auto simp: list_all_iff)

lemma merge_tool_call_field_wf:
  "wf_json v \<Longrightarrow> wf_map item \<Longrightarrow> wf_map (merge_tool_call_field (k, v) item)"
  by (cases v) (auto simp: merge_tool_call_field_def Let_def intro!: wf_intros)

lemma merge_tool_call_wf:
  "wf_json raw \<Longrightarrow> list_all wf_json current \<Longrightarrow> list_all wf_json (merge_tool_call raw current)"
  by (cases raw)
     (auto simp: merge_tool_call_def Let_def intro!: list_update_wf pad_to_wf wf_map_fold pad_nth_wf
        merge_tool_call_field_wf)

lemma merge_tool_calls_wf [wf_intros]:
  "list_all wf_json current \<Longrightarrow> list_all wf_json delta \<Longrightarrow> list_all wf_json (merge_tool_calls current delta)"
  unfolding merge_tool_calls_def
  by (rule fold_invariant_in [where P = "list_all wf_json"])
     (auto simp: list_all_iff [of _ delta] merge_tool_call_wf)

lemma insert_tool_calls_wf:
  assumes "wf_map m" and "wf_map delta"
  shows "wf_map (case get_array delta k of
           Some calls \<Rightarrow> bt_insert k (JArray (merge_tool_calls (arr_or_empty (bt_get m k)) calls)) m
         | None \<Rightarrow> m)"
  using assms by (auto intro!: wf_map_insert merge_tool_calls_wf arr_or_empty_wf wf_opt_get
      dest: get_array_wf split: option.splits)

lemma merge_openai_chat_delta_wf [wf_intros]:
  "wf_map message \<Longrightarrow> wf_map delta \<Longrightarrow> wf_map (merge_openai_chat_delta message delta)"
  unfolding merge_openai_chat_delta_def Let_def
  by (intro insert_tool_calls_wf append_string_field_wf)
     (auto intro!: wf_map_insert split: option.splits)

lemma merge_openai_response_content_part_wf [wf_intros]:
  assumes "wf_map item" and "wf_opt raw_part"
  shows "wf_map (merge_openai_response_content_part item raw_index raw_part af av sf sv)"
proof -
  have "wf_map m" if "Option.bind raw_part as_object = Some m" for m
    using assms(2) that by (auto simp: bind_eq_Some_conv)
  with assms(1) show ?thesis
    unfolding merge_openai_response_content_part_def Let_def
    by (auto intro!: wf_map_insert list_update_wf pad_to_wf arr_or_empty_wf wf_opt_get
        append_string_field_wf set_string_field_wf wf_map_extend pad_nth_wf
        split: option.splits)
qed

lemma wf_blocks_insert [wf_intros]: "wf_blocks bs \<Longrightarrow> wf_map v \<Longrightarrow> wf_blocks (bt_insert k v bs)"
  using bt_values_insert_set [of k v bs] by (auto simp: wf_blocks_def bt_insert_wf)

lemma wf_blocks_remove [wf_intros]: "wf_blocks bs \<Longrightarrow> wf_blocks (bt_remove k bs)"
proof -
  have "set (bt_values (bt_remove k bs)) \<subseteq> set (bt_values bs)"
    by (induction k bs rule: bt_remove.induct) (auto simp: bt_values_def)
  then show "wf_blocks bs \<Longrightarrow> wf_blocks (bt_remove k bs)" by (auto simp: wf_blocks_def bt_remove_wf)
qed

lemma wf_blocks_empty [simp, wf_intros]: "wf_blocks bt_empty" "wf_blocks []"
  by (simp_all add: wf_blocks_def bt_empty_def bt_values_def)

lemma wf_blocks_entry [wf_intros]: "wf_blocks bs \<Longrightarrow> wf_map d \<Longrightarrow> wf_map (entry_or bs k d)"
  by (auto simp: wf_blocks_def entry_or_def dest: bt_get_values split: option.splits)

lemma wf_blocks_values: "wf_blocks bs \<Longrightarrow> list_all wf_json (map JObject (bt_values bs))"
  by (auto simp: wf_blocks_def list_all_iff)

lemma usize_as_i64_range: "- (2 ^ 63) \<le> usize_as_i64 n" "usize_as_i64 n < 2 ^ 63"
  by (simp_all add: usize_as_i64_def)

lemma usize_as_i64_small: "n < 2 ^ 63 \<Longrightarrow> usize_as_i64 n = int n"
  by (simp add: usize_as_i64_def)

lemma enumerate_snd: "(i, x) \<in> set (enumerate n xs) \<Longrightarrow> x \<in> set xs"
  by (auto simp: in_set_enumerate_eq)

lemma seed_anthropic_content_blocks_wf [wf_intros]:
  assumes "wf_blocks bs" and "wf_opt content"
  shows "wf_blocks (seed_anthropic_content_blocks bs content)"
proof (cases "Option.bind content as_array")
  case None
  with assms show ?thesis by (simp add: seed_anthropic_content_blocks_def)
next
  case (Some items)
  with assms(2) have "list_all wf_json items" by (auto simp: bind_eq_Some_conv)
  then have "wf_json x" if "(i, x) \<in> set (enumerate 0 items)" for i x
    using that by (auto simp: list_all_iff dest: enumerate_snd)
  with Some assms(1) show ?thesis
    by (auto simp: seed_anthropic_content_blocks_def intro!: fold_invariant_in [where P = wf_blocks]
        wf_blocks_insert wf_blocks_entry dest!: as_object_wf split: option.splits) force
qed

lemma merge_anthropic_content_delta_wf [wf_intros]:
  "wf_map block \<Longrightarrow> wf_map (merge_anthropic_content_delta block delta)"
  unfolding merge_anthropic_content_delta_def Let_def
  by (auto intro!: append_string_field_wf wf_map_insert split: option.splits)

lemma merge_or_replace_wf [wf_intros]:
  "wf_json v \<Longrightarrow> wf_map m \<Longrightarrow> wf_map (merge_or_replace k v m)"
  by (cases v) (auto simp: merge_or_replace_def intro!: wf_map_insert wf_map_extend
      dest: bind_as_object_wf split: option.splits)

lemma merge_semantic_part_wf [wf_intros]:
  "wf_map target \<Longrightarrow> wf_map source \<Longrightarrow> wf_map (merge_semantic_part target source)"
  unfolding merge_semantic_part_def
  by (auto intro!: wf_map_fold append_string_field_wf merge_or_replace_wf)

lemma merge_indexed_parts_wf [wf_intros]:
  assumes "wf_opt existing" and "list_all wf_json incoming"
  shows "wf_json (merge_indexed_parts existing incoming)"
proof -
  have x: "wf_json x" if "(i, x) \<in> set (enumerate 0 incoming)" for i x
    using that assms(2) by (auto simp: list_all_iff dest: enumerate_snd)
  have "list_all wf_json (fold (\<lambda>(i, raw) out. let out = pad_to empty_object i out in
           case as_object raw of None \<Rightarrow> out[i := raw]
           | Some raw_obj \<Rightarrow> out[i := JObject (merge_semantic_part (obj_or_empty (Some (out ! i))) raw_obj)])
         (enumerate 0 incoming) (arr_or_empty existing))"
    using assms(1)
    by (intro fold_invariant_in [where P = "list_all wf_json"])
       (auto simp: Let_def dest!: x intro!: list_update_wf pad_to_wf pad_nth_wf
         merge_semantic_part_wf arr_or_empty_wf split: option.splits)
  then show ?thesis by (simp add: merge_indexed_parts_def)
qed

lemma merge_gemini_content_wf [wf_intros]:
  "wf_map content \<Longrightarrow> wf_map obj \<Longrightarrow> wf_map (merge_gemini_content content obj)"
  unfolding merge_gemini_content_def
  by (auto intro!: wf_map_fold wf_map_insert merge_indexed_parts_wf wf_opt_get split: option.splits)

lemma merge_gemini_candidate_wf [wf_intros]:
  "wf_map target \<Longrightarrow> wf_map source \<Longrightarrow> wf_map (merge_gemini_candidate target source)"
  unfolding merge_gemini_candidate_def
  by (auto intro!: wf_map_fold wf_map_insert merge_gemini_content_wf obj_or_empty_wf wf_opt_get
      split: option.splits)

lemma merge_dashscope_message_wf [wf_intros]:
  "wf_map target \<Longrightarrow> wf_map source \<Longrightarrow> wf_map (merge_dashscope_message target source)"
  unfolding merge_dashscope_message_def Let_def
  by (intro wf_map_fold insert_tool_calls_wf append_string_field_wf)
     (auto intro!: wf_map_insert)

lemma merge_nested_semantic_object_wf [wf_intros]:
  "wf_opt existing \<Longrightarrow> wf_map incoming \<Longrightarrow> wf_json (merge_nested_semantic_object existing incoming fs)"
  unfolding merge_nested_semantic_object_def
  by (auto intro!: wf_map_fold append_string_field_wf merge_or_replace_wf obj_or_empty_wf)

lemma insert_nested_semantic_wf:
  assumes "wf_map block" and "wf_map delta"
  shows "wf_map (case get_object delta k of
           Some obj \<Rightarrow> bt_insert k (merge_nested_semantic_object (bt_get block k) obj fs) block
         | None \<Rightarrow> block)"
  using assms by (auto intro!: wf_map_insert merge_nested_semantic_object_wf wf_opt_get
      dest: get_object_wf split: option.splits)

lemma merge_bedrock_content_delta_wf [wf_intros]:
  "wf_map block \<Longrightarrow> wf_map delta \<Longrightarrow> wf_map (merge_bedrock_content_delta block delta)"
  unfolding merge_bedrock_content_delta_def Let_def
  by (intro wf_map_fold insert_nested_semantic_wf)
     (auto intro!: append_string_field_wf wf_map_insert)

lemma merge_cohere_content_block_wf [wf_intros]:
  "wf_blocks bs \<Longrightarrow> wf_json raw \<Longrightarrow> wf_blocks (merge_cohere_content_block bs i raw)"
  by (cases raw) (auto simp: merge_cohere_content_block_def bt_empty_def
      intro!: wf_blocks_insert wf_blocks_entry merge_semantic_part_wf)

lemma merge_cohere_message_delta_wf:
  assumes "wf_map message" and "wf_blocks bs" and "wf_json raw"
  shows "wf_map (fst (merge_cohere_message_delta message bs raw))
    \<and> wf_blocks (snd (merge_cohere_message_delta message bs raw))"
proof (cases raw)
  case (JObject obj)
  with assms have obj: "wf_map obj" by simp
  define m where "m = fold (\<lambda>(k, v) message.
      if k \<noteq> ''content'' \<and> \<not> is_null v then bt_insert k v message else message) obj message"
  have m: "wf_map m"
    unfolding m_def using obj assms(1) by (intro wf_map_fold) (auto intro: wf_map_insert)
  have items: "wf_blocks (fold (\<lambda>(i, item) bs. merge_cohere_content_block bs (usize_as_i64 i) item)
      (enumerate 0 items) bs)" if "list_all wf_json items" for items
    using assms(2) that
    by (intro fold_invariant_in [where P = wf_blocks])
       (auto simp: list_all_iff intro!: merge_cohere_content_block_wf dest!: enumerate_snd)
  show ?thesis
  proof (cases "bt_get obj ''content''")
    case None
    with JObject m assms(2) show ?thesis
      by (simp add: merge_cohere_message_delta_def m_def)
  next
    case (Some c)
    with obj have "wf_json c" by (rule wf_map_get)
    with JObject Some m assms(2) show ?thesis
      by (cases c) (auto simp: merge_cohere_message_delta_def m_def [symmetric] Let_def
          intro!: items wf_map_insert merge_cohere_content_block_wf wf_blocks_insert append_string_field_wf
            wf_blocks_entry)
  qed
qed (use assms in \<open>simp_all add: merge_cohere_message_delta_def\<close>)

section \<open>Tool calls\<close>

text \<open>
  The arguments accumulated for the tool call at a position, and the arguments a fragment carries
  for a position.
\<close>

definition function_arguments :: "json option \<Rightarrow> string" where
  "function_arguments f = (case get_str (obj_or_empty f) ''arguments'' of Some s \<Rightarrow> s | None \<Rightarrow> [])"

definition call_arguments :: "nat \<Rightarrow> json list \<Rightarrow> string" where
  "call_arguments i calls =
     (if i < length calls then function_arguments (value_get (calls ! i) ''function'') else [])"

definition fragment_index :: "json \<Rightarrow> nat option" where
  "fragment_index raw = Option.bind (value_get raw ''index'') as_u64"

definition fragment_arguments :: "nat \<Rightarrow> json \<Rightarrow> string" where
  "fragment_arguments i raw =
     (if fragment_index raw = Some i then function_arguments (value_get raw ''function'') else [])"

lemma append_string_field_other:
  "k \<noteq> f \<Longrightarrow> bt_get (append_string_field m f v) k = bt_get m k"
  by (simp add: append_string_field_def bt_insert_get split: option.splits)

lemma append_string_field_get_str:
  "get_str (append_string_field m f v) f
     = (case Option.bind v as_str of None \<Rightarrow> get_str m f
        | Some s \<Rightarrow> Some ((case get_str m f of Some e \<Rightarrow> e | None \<Rightarrow> []) @ s))"
  by (auto simp: append_string_field_def get_str_def bt_insert_get split: option.splits)

lemma get_str_append_other: "k \<noteq> f \<Longrightarrow> get_str (append_string_field m f v) k = get_str m k"
  by (simp add: get_str_def append_string_field_other)

lemma fold_tool_call_field_function:
  assumes "distinct (map fst raw)"
  shows "function_arguments (bt_get (fold merge_tool_call_field raw item) ''function'')
     = function_arguments (bt_get item ''function'') @ function_arguments (bt_get raw ''function'')"
  using assms
proof (induction raw arbitrary: item)
  case Nil
  show ?case by (simp add: function_arguments_def obj_or_empty_def get_str_def bt_empty_def)
next
  case (Cons kv raw)
  obtain k v where kv: "kv = (k, v)" by (cases kv)
  have step: "function_arguments (bt_get (merge_tool_call_field (k, v) item) ''function'')
     = function_arguments (bt_get item ''function'')
       @ (if k = ''function'' then function_arguments (Some v) else [])"
  proof (cases v)
    case (JObject d)
    show ?thesis
    proof (cases "k = ''function''")
      case True
      with JObject show ?thesis
        by (auto simp: merge_tool_call_field_def Let_def function_arguments_def bt_insert_get
            append_string_field_get_str get_str_def [of d] obj_or_empty_def [of "Some _"]
            get_str_append_other split: option.splits)
    qed (auto simp: merge_tool_call_field_def bt_insert_get)
  qed (auto simp: merge_tool_call_field_def bt_insert_get function_arguments_def obj_or_empty_def
        get_str_def bt_empty_def)
  have rest: "function_arguments (bt_get raw ''function'') = []" if "k = ''function''"
    using Cons.prems kv that bt_get_key_None [of "''function''" raw]
    by (simp add: function_arguments_def obj_or_empty_def get_str_def bt_empty_def)
  from Cons kv step rest show ?case by (cases "k = ''function''") auto
qed

lemma function_arguments_None [simp]: "function_arguments None = []"
  by (simp add: function_arguments_def obj_or_empty_def get_str_def bt_empty_def)

lemma value_get_object [simp]: "value_get (JObject m) k = bt_get m k"
  by (simp add: value_get_def)

lemma obj_or_empty_get: "bt_get (obj_or_empty (Some v)) k = value_get v k"
  by (simp add: obj_or_empty_def value_get_def bt_empty_def split: option.splits)

lemma call_arguments_pad [simp]: "call_arguments i (pad_to empty_object n calls) = call_arguments i calls"
  by (auto simp: call_arguments_def pad_to_def nth_append)

lemma merge_tool_call_arguments:
  assumes "wf_json raw" and "raw \<in> range JObject \<longrightarrow> fragment_index raw \<noteq> None"
  shows "call_arguments i (merge_tool_call raw calls)
    = call_arguments i calls @ fragment_arguments i raw"
proof (cases raw)
  case (JObject obj)
  with assms(1) have dist: "distinct (map fst obj)" by (simp add: wf_map_bt bt_wf_distinct)
  from JObject assms(2) obtain n where n: "Option.bind (bt_get obj ''index'') as_u64 = Some n"
    by (auto simp: fragment_index_def)
  have "call_arguments i ((pad_to empty_object n calls)[n := JObject (fold merge_tool_call_field obj
          (obj_or_empty (Some (pad_to empty_object n calls ! n))))])
      = call_arguments i (pad_to empty_object n calls) @ fragment_arguments i raw"
    using JObject n
    by (cases "i = n") (auto simp: call_arguments_def fragment_arguments_def fragment_index_def
        fold_tool_call_field_function [OF dist] obj_or_empty_get)
  with JObject n show ?thesis by (simp add: merge_tool_call_def Let_def)
qed (simp_all add: merge_tool_call_def fragment_arguments_def value_get_def)

section \<open>Properties\<close>

text \<open>
  C28: Streamed tool calls.  When every fragment names its position, merging a list of fragments
  into the tool calls accumulated so far appends to the arguments of each call exactly the
  arguments the fragments carry for it, in the order of the stream.
\<close>

theorem merge_tool_calls_arguments:
  assumes "\<forall>raw\<in>set delta. wf_json raw"
    and "\<forall>raw\<in>set delta. raw \<in> range JObject \<longrightarrow> fragment_index raw \<noteq> None"
  shows "call_arguments i (merge_tool_calls current delta)
    = call_arguments i current @ concat (map (fragment_arguments i) delta)"
  using assms unfolding merge_tool_calls_def
  by (induction delta arbitrary: current) (simp_all add: merge_tool_call_arguments)

definition sample_fragment :: "nat \<Rightarrow> string \<Rightarrow> json" where
  "sample_fragment i args =
     JObject [(''function'', JObject [(''arguments'', JString args)]), (''index'', jint (int i))]"

lemma sample_fragment_ok:
  assumes "i < 2 ^ 63"
  shows "wf_json (sample_fragment i args)" "fragment_index (sample_fragment i args) = Some i"
    "function_arguments (value_get (sample_fragment i args) ''function'') = args"
proof -
  from assms have "int i < 2 ^ 63" by (metis of_nat_less_iff of_nat_numeral of_nat_power)
  then show "wf_json (sample_fragment i args)" "fragment_index (sample_fragment i args) = Some i"
    "function_arguments (value_get (sample_fragment i args) ''function'') = args"
    by (auto simp: sample_fragment_def wf_map_iff bt_values_def fragment_index_def value_get_def
        function_arguments_def obj_or_empty_def get_str_def)
qed

theorem merge_tool_calls_arguments_witness:
  "call_arguments 1 (merge_tool_calls [] [sample_fragment 1 ''{a'', sample_fragment 0 ''x'', sample_fragment 1 ''}''])
    = ''{a}''"
  by (subst merge_tool_calls_arguments)
     (auto simp: sample_fragment_ok fragment_arguments_def call_arguments_def)



end
