(* ===== verification/Aggregator.thy ===== *)
theory Aggregator
  imports Merge
begin

text \<open>
  The contract of the seven stream aggregators.  \<^verbatim>\<open>main.rs\<close> has each of them twice:
  a state that consumes events while the response is forwarded (\<^verbatim>\<open>apply\<close>,
  \<^verbatim>\<open>finish\<close>), and a function over the complete list of events
  (\<^verbatim>\<open>aggregate_*_stream\<close>).  The locale \<open>stream_aggregator\<close> relates the two:
  an abstraction of the state to the local variables of the batch loop that every event keeps.  Each
  protocol's theory interprets it on its own definitions.
\<close>

section \<open>Shared idioms\<close>

text \<open>
  \<^verbatim>\<open>if let Some(v) = src.get(k) { dst.insert(k.into(), v.clone()); }\<close>, and the array
  of the values of an index map, \<^verbatim>\<open>into_values().map(Value::Object).collect()\<close>.
\<close>

definition copy_field :: "string \<Rightarrow> jmap \<Rightarrow> jmap \<Rightarrow> jmap" where
  "copy_field k src dst = (case bt_get src k of Some v \<Rightarrow> bt_insert k v dst | None \<Rightarrow> dst)"

definition collect_values :: "blocks \<Rightarrow> json" where
  "collect_values bs = JArray (map JObject (bt_values bs))"

definition index_or :: "jmap \<Rightarrow> string \<Rightarrow> int \<Rightarrow> int" where
  "index_or m k d = (case get_i64 m k of Some i \<Rightarrow> i | None \<Rightarrow> d)"

definition event_type_of :: "jmap \<Rightarrow> string" where
  "event_type_of event = (case get_str event ''type'' of Some t \<Rightarrow> t | None \<Rightarrow> [])"

lemma copy_field_wf [wf_intros]: "wf_map src \<Longrightarrow> wf_map dst \<Longrightarrow> wf_map (copy_field k src dst)"
  by (auto simp: copy_field_def intro: wf_map_insert wf_map_get split: option.splits)

lemma copy_field_get [bt_simps]:
  "bt_get (copy_field k src dst) k'
     = (if k' = k \<and> bt_get src k \<noteq> None then bt_get src k else bt_get dst k')"
  by (auto simp: copy_field_def bt_insert_get split: option.splits)

lemma collect_values_wf [wf_intros]: "wf_blocks bs \<Longrightarrow> wf_json (collect_values bs)"
  using wf_blocks_values [of bs] by (simp add: collect_values_def)

lemma get_i64_range: "get_i64 m k = Some i \<Longrightarrow> - (2 ^ 63) \<le> i \<and> i < 2 ^ 63"
  by (auto simp: get_i64_def bind_eq_Some_conv elim!: as_i64.elims split: if_splits)

lemma index_or_wf [wf_intros]:
  assumes "- (2 ^ 63) \<le> d" and "d < 2 ^ 63"
  shows "wf_json (jint (index_or m k d))"
proof (cases "get_i64 m k")
  case (Some i)
  with get_i64_range [of m k i] show ?thesis by (simp add: index_or_def)
qed (use assms in \<open>simp add: index_or_def\<close>)

lemma index_or_usize_wf [wf_intros]: "wf_json (jint (index_or m k (usize_as_i64 n)))"
  by (rule index_or_wf) (rule usize_as_i64_range)+

lemma wf_get_object_case [wf_intros]:
  "wf_map obj \<Longrightarrow> wf_map m \<Longrightarrow> (\<And>d. wf_map d \<Longrightarrow> wf_map (f d)) \<Longrightarrow>
    wf_map (case get_object obj k of Some d \<Rightarrow> f d | None \<Rightarrow> m)"
  by (auto dest: get_object_wf split: option.splits)

lemma wf_get_str_case [wf_intros]:
  "wf_map m \<Longrightarrow> (\<And>d. wf_map (f d)) \<Longrightarrow>
    wf_map (case get_str obj k of Some d \<Rightarrow> f d | None \<Rightarrow> m)"
  by (auto split: option.splits)

lemma wf_get_case [wf_intros]:
  "wf_map obj \<Longrightarrow> wf_map m \<Longrightarrow> (\<And>v. wf_json v \<Longrightarrow> wf_map (f v)) \<Longrightarrow>
    wf_map (case bt_get obj k of Some v \<Rightarrow> f v | None \<Rightarrow> m)"
  by (auto dest: wf_map_get split: option.splits)

lemma wf_map_if [wf_intros]: "wf_map a \<Longrightarrow> wf_map b \<Longrightarrow> wf_map (if c then a else b)"
  by simp

lemma wf_json_objectI [wf_intros]: "wf_map m \<Longrightarrow> wf_json (JObject m)"
  by simp

lemma wf_json_stringI [wf_intros]: "wf_json (JString s)"
  by simp

section \<open>The contract\<close>

locale stream_aggregator =
  fixes init :: "'s"
    and apply_event :: "'s \<Rightarrow> json \<Rightarrow> 's"
    and finish :: "'s \<Rightarrow> json \<times> 's"
    and start :: "'l"
    and step :: "'l \<Rightarrow> json \<Rightarrow> 'l"
    and result :: "'l \<Rightarrow> json"
    and locals :: "'s \<Rightarrow> 'l"
    and ok :: "'l \<Rightarrow> bool"
  assumes locals_init: "locals init = start"
    and locals_apply: "locals (apply_event s e) = step (locals s) e"
    and finish_result: "fst (finish s) = result (locals s)"
    and ok_start: "ok start"
    and ok_step: "ok l \<Longrightarrow> wf_json e \<Longrightarrow> ok (step l e)"
    and ok_result: "ok l \<Longrightarrow> wf_json (result l)"
begin

lemma locals_run: "locals (foldl apply_event init events) = foldl step start events"
  by (induction events rule: rev_induct) (simp_all add: locals_init locals_apply)

lemma batch_eq_stream:
  "result (foldl step start events) = fst (finish (foldl apply_event init events))"
  by (simp add: finish_result locals_run)

lemma ok_run: "list_all wf_json events \<Longrightarrow> ok (foldl step start events)"
  by (induction events rule: rev_induct) (simp_all add: ok_start ok_step)

lemma result_wf: "list_all wf_json events \<Longrightarrow> wf_json (result (foldl step start events))"
  by (simp add: ok_run ok_result)

end

text \<open>The locals of the batch loops: maps and index maps of well-formed values.\<close>

fun ok_out_blocks :: "jmap \<times> blocks \<Rightarrow> bool" where
  "ok_out_blocks (out, bs) \<longleftrightarrow> wf_map out \<and> wf_blocks bs"

fun ok_out_map_blocks :: "jmap \<times> jmap \<times> blocks \<Rightarrow> bool" where
  "ok_out_map_blocks (out, m, bs) \<longleftrightarrow> wf_map out \<and> wf_map m \<and> wf_blocks bs"

end
