(* ===== verification/Stream_Chat.thy ===== *)
theory Stream_Chat
  imports Aggregator
begin

text \<open>
  Chat completions: \<^verbatim>\<open>OpenAiChatStreamState\<close> and
  \<^verbatim>\<open>aggregate_openai_chat_stream\<close>.
\<close>

section \<open>The streaming state\<close>

record openai_chat_state =
  chat_out :: jmap
  chat_choices :: blocks

definition openai_chat_new :: openai_chat_state where
  "openai_chat_new = \<lparr>chat_out = bt_empty, chat_choices = bt_empty\<rparr>"

definition openai_chat_choice :: "openai_chat_state \<Rightarrow> json \<Rightarrow> openai_chat_state" where
  "openai_chat_choice s raw_choice =
     (case as_object raw_choice of
        None \<Rightarrow> s
      | Some choice_obj \<Rightarrow>
          let index = index_or choice_obj ''index'' (usize_as_i64 (length (chat_choices s)));
              choice = entry_or (chat_choices s) index
                (bt_insert ''message'' empty_object (bt_insert ''index'' (jint index) bt_empty));
              message = obj_or_empty (bt_get choice ''message'');
              message = (case get_object choice_obj ''delta'' of
                           Some delta \<Rightarrow> merge_openai_chat_delta message delta
                         | None \<Rightarrow> message);
              message = (case get_object choice_obj ''message'' of
                           Some full_message \<Rightarrow> bt_extend message full_message
                         | None \<Rightarrow> message);
              choice = bt_insert ''message'' (JObject message) choice;
              choice = (case bt_get choice_obj ''finish_reason'' of
                          Some finish_reason \<Rightarrow>
                            if \<not> is_null finish_reason
                            then bt_insert ''finish_reason'' finish_reason choice else choice
                        | None \<Rightarrow> choice);
              choice = copy_field ''logprobs'' choice_obj choice
          in s\<lparr>chat_choices := bt_insert index choice (chat_choices s)\<rparr>)"

definition openai_chat_apply :: "openai_chat_state \<Rightarrow> json \<Rightarrow> openai_chat_state" where
  "openai_chat_apply s item =
     (case as_object item of
        None \<Rightarrow> s
      | Some chunk \<Rightarrow>
          let s = (if \<not> bt_contains (chat_out s) ''model''
                   then (case get_str chunk ''model'' of
                           Some model \<Rightarrow>
                             s\<lparr>chat_out := bt_insert ''model'' (JString model) (chat_out s)\<rparr>
                         | None \<Rightarrow> s)
                   else s);
              s = s\<lparr>chat_out := copy_field ''usage'' chunk (chat_out s)\<rparr>;
              s = s\<lparr>chat_out := copy_field ''error'' chunk (chat_out s)\<rparr>
          in (case get_array chunk ''choices'' of
                None \<Rightarrow> s
              | Some raw_choices \<Rightarrow> foldl openai_chat_choice s raw_choices))"

definition openai_chat_finish :: "openai_chat_state \<Rightarrow> json \<times> openai_chat_state" where
  "openai_chat_finish s =
     (let s = (if chat_choices s \<noteq> []
               then s\<lparr>chat_out := bt_insert ''choices'' (collect_values (chat_choices s)) (chat_out s),
                      chat_choices := bt_empty\<rparr>
               else s)
      in (JObject (chat_out s), s\<lparr>chat_out := bt_empty\<rparr>))"

section \<open>The batch function\<close>

definition aggregate_openai_chat_choice :: "blocks \<Rightarrow> json \<Rightarrow> blocks" where
  "aggregate_openai_chat_choice choices raw_choice =
     (case as_object raw_choice of
        None \<Rightarrow> choices
      | Some choice_obj \<Rightarrow>
          let index = index_or choice_obj ''index'' (usize_as_i64 (length choices));
              choice = entry_or choices index
                (bt_insert ''message'' empty_object (bt_insert ''index'' (jint index) bt_empty));
              message = obj_or_empty (bt_get choice ''message'');
              message = (case get_object choice_obj ''delta'' of
                           Some delta \<Rightarrow> merge_openai_chat_delta message delta
                         | None \<Rightarrow> message);
              message = (case get_object choice_obj ''message'' of
                           Some full_message \<Rightarrow> bt_extend message full_message
                         | None \<Rightarrow> message);
              choice = bt_insert ''message'' (JObject message) choice;
              choice = (case bt_get choice_obj ''finish_reason'' of
                          Some finish_reason \<Rightarrow>
                            if \<not> is_null finish_reason
                            then bt_insert ''finish_reason'' finish_reason choice else choice
                        | None \<Rightarrow> choice);
              choice = copy_field ''logprobs'' choice_obj choice
          in bt_insert index choice choices)"

fun aggregate_openai_chat_item :: "jmap \<times> blocks \<Rightarrow> json \<Rightarrow> jmap \<times> blocks" where
  "aggregate_openai_chat_item (out, choices) item =
     (case as_object item of
        None \<Rightarrow> (out, choices)
      | Some chunk \<Rightarrow>
          let out = (if \<not> bt_contains out ''model''
                     then (case get_str chunk ''model'' of
                             Some model \<Rightarrow> bt_insert ''model'' (JString model) out
                           | None \<Rightarrow> out)
                     else out);
              out = copy_field ''usage'' chunk out;
              out = copy_field ''error'' chunk out
          in (case get_array chunk ''choices'' of
                None \<Rightarrow> (out, choices)
              | Some raw_choices \<Rightarrow> (out, foldl aggregate_openai_chat_choice choices raw_choices)))"

fun aggregate_openai_chat_result :: "jmap \<times> blocks \<Rightarrow> json" where
  "aggregate_openai_chat_result (out, choices) =
     JObject (if choices \<noteq> [] then bt_insert ''choices'' (collect_values choices) out else out)"

definition aggregate_openai_chat_stream :: "json \<Rightarrow> json" where
  "aggregate_openai_chat_stream value =
     (case as_array value of
        None \<Rightarrow> pick_value value [''model'', ''choices'', ''usage'', ''error'']
      | Some items \<Rightarrow>
          aggregate_openai_chat_result
            (foldl aggregate_openai_chat_item (bt_empty, bt_empty) items))"

section \<open>The contract holds\<close>

definition openai_chat_locals :: "openai_chat_state \<Rightarrow> jmap \<times> blocks" where
  "openai_chat_locals s = (chat_out s, chat_choices s)"

lemma openai_chat_choice_locals:
  "chat_out (openai_chat_choice s raw) = chat_out s"
  "chat_choices (openai_chat_choice s raw) = aggregate_openai_chat_choice (chat_choices s) raw"
  by (cases raw; simp add: openai_chat_choice_def aggregate_openai_chat_choice_def Let_def)+

lemma openai_chat_choices_locals:
  "chat_out (foldl openai_chat_choice s raws) = chat_out s"
  "chat_choices (foldl openai_chat_choice s raws)
     = foldl aggregate_openai_chat_choice (chat_choices s) raws"
  by (induction raws arbitrary: s) (simp_all add: openai_chat_choice_locals)

lemma aggregate_openai_chat_choice_wf:
  assumes "wf_blocks choices" and "wf_json raw"
  shows "wf_blocks (aggregate_openai_chat_choice choices raw)"
proof (cases raw)
  case (JObject obj)
  with assms(2) have obj: "wf_map obj" by simp
  show ?thesis
    unfolding aggregate_openai_chat_choice_def JObject as_object.simps option.simps Let_def
    by (intro wf_intros assms(1) obj)
qed (use assms in \<open>simp_all add: aggregate_openai_chat_choice_def\<close>)

lemma aggregate_openai_chat_choices_wf:
  "wf_blocks choices \<Longrightarrow> list_all wf_json raws \<Longrightarrow>
    wf_blocks (foldl aggregate_openai_chat_choice choices raws)"
  by (induction raws arbitrary: choices) (simp_all add: aggregate_openai_chat_choice_wf)

lemma aggregate_openai_chat_item_ok:
  assumes "ok_out_blocks l" and "wf_json item"
  shows "ok_out_blocks (aggregate_openai_chat_item l item)"
proof (cases l; cases item)
  fix out choices chunk
  assume l: "l = (out, choices)" and item: "item = JObject chunk"
  with assms have w: "wf_map out" "wf_blocks choices" "wf_map chunk" by simp_all
  have "wf_map (copy_field ''error'' chunk (copy_field ''usage'' chunk
      (if \<not> bt_contains out ''model'' then case get_str chunk ''model'' of None \<Rightarrow> out
        | Some model \<Rightarrow> bt_insert ''model'' (JString model) out else out)))"
    by (intro wf_intros w)
  with l item w show ?thesis
    by (auto simp: Let_def intro!: aggregate_openai_chat_choices_wf dest: get_array_wf split: option.splits)
qed (use assms in simp_all)

interpretation chat: stream_aggregator openai_chat_new openai_chat_apply openai_chat_finish
  "(bt_empty, bt_empty)" aggregate_openai_chat_item aggregate_openai_chat_result
  openai_chat_locals ok_out_blocks
proof
  fix s e
  show "openai_chat_locals (openai_chat_apply s e) = aggregate_openai_chat_item (openai_chat_locals s) e"
    by (cases e) (auto simp: openai_chat_locals_def openai_chat_apply_def
        Let_def openai_chat_choices_locals split: option.splits)
  show "fst (openai_chat_finish s) = aggregate_openai_chat_result (openai_chat_locals s)"
    by (simp add: openai_chat_finish_def openai_chat_locals_def Let_def)
next
  fix l :: "jmap \<times> blocks"
  assume "ok_out_blocks l"
  then show "wf_json (aggregate_openai_chat_result l)"
    by (cases l) (auto intro!: wf_map_insert collect_values_wf)
qed (simp_all add: openai_chat_new_def openai_chat_locals_def aggregate_openai_chat_item_ok)

section \<open>Content is the concatenation of the deltas\<close>

text \<open>
  The text a client reads from a stream: for each choice, the concatenation of the content strings
  of the deltas that name the choice.
\<close>

definition str_or_empty :: "string option \<Rightarrow> string" where
  "str_or_empty s = (case s of Some t \<Rightarrow> t | None \<Rightarrow> [])"

definition choice_delta_content :: "int \<Rightarrow> json \<Rightarrow> string" where
  "choice_delta_content i raw =
     (case as_object raw of
        None \<Rightarrow> []
      | Some obj \<Rightarrow>
          if get_i64 obj ''index'' = Some i
          then str_or_empty (get_str (obj_or_empty (bt_get obj ''delta'')) ''content'') else [])"

definition chunk_choices :: "json \<Rightarrow> json list" where
  "chunk_choices item = arr_or_empty (value_get item ''choices'')"

definition choice_content :: "int \<Rightarrow> blocks \<Rightarrow> string" where
  "choice_content i choices =
     str_or_empty (get_str (obj_or_empty (bt_get (entry_or choices i bt_empty) ''message'')) ''content'')"

definition plain_choice :: "json \<Rightarrow> bool" where
  "plain_choice raw =
     (case as_object raw of
        None \<Rightarrow> True
      | Some obj \<Rightarrow> get_i64 obj ''index'' \<noteq> None \<and> get_object obj ''message'' = None)"

lemma str_or_empty_simps [simp]: "str_or_empty None = []" "str_or_empty (Some t) = t"
  by (simp_all add: str_or_empty_def)

lemma get_str_insert: "get_str (bt_insert k v m) k' = (if k' = k then as_str v else get_str m k')"
  by (simp add: get_str_def bt_insert_get)

lemma merge_openai_chat_delta_content:
  "str_or_empty (get_str (merge_openai_chat_delta message delta) ''content'')
     = str_or_empty (get_str message ''content'') @ str_or_empty (get_str delta ''content'')"
  by (auto simp: merge_openai_chat_delta_def Let_def get_str_insert get_str_append_other
      append_string_field_get_str str_or_empty_def get_str_def [of delta] split: option.splits)

lemma obj_or_empty_simps [simp]:
  "obj_or_empty None = []" "obj_or_empty (Some (JObject m)) = m"
  by (simp_all add: obj_or_empty_def bt_empty_def)

lemma get_str_Nil [simp]: "get_str [] k = None"
  by (simp add: get_str_def)

lemma obj_or_empty_object: "obj_or_empty (bt_get m k) = (case get_object m k of Some d \<Rightarrow> d | None \<Rightarrow> [])"
  by (simp add: obj_or_empty_def get_object_def bt_empty_def split: option.splits)

text \<open>The message a plain choice leaves at its index; the other choices are untouched.\<close>

lemma aggregate_openai_chat_choice_message:
  assumes "get_i64 obj ''index'' = Some j" and "get_object obj ''message'' = None"
    and message: "message = obj_or_empty (bt_get (entry_or choices j bt_empty) ''message'')"
  shows "\<exists>choice. bt_get (aggregate_openai_chat_choice choices (JObject obj)) j = Some choice
    \<and> bt_get choice ''message'' = Some (JObject
        (case get_object obj ''delta'' of
           Some delta \<Rightarrow> merge_openai_chat_delta message delta | None \<Rightarrow> message))"
proof -
  define d where "d = bt_insert ''message'' empty_object (bt_insert ''index'' (jint j) bt_empty)"
  have entry: "obj_or_empty (bt_get (entry_or choices j d) ''message'') = message"
    by (simp add: entry_or_def d_def message bt_insert_get bt_empty_def split: option.splits)
  from assms(1,2) show ?thesis
    by (auto simp: aggregate_openai_chat_choice_def Let_def index_or_def d_def [symmetric] entry
        bt_insert_get copy_field_get split: option.splits)
qed

lemma aggregate_openai_chat_choice_other:
  "get_i64 obj ''index'' = Some j \<Longrightarrow> i \<noteq> j \<Longrightarrow>
    bt_get (aggregate_openai_chat_choice choices (JObject obj)) i = bt_get choices i"
  by (simp add: aggregate_openai_chat_choice_def Let_def index_or_def bt_insert_get)

lemma aggregate_openai_chat_choice_content:
  assumes "plain_choice raw"
  shows "choice_content i (aggregate_openai_chat_choice choices raw)
    = choice_content i choices @ choice_delta_content i raw"
proof (cases raw)
  case (JObject obj)
  with assms obtain j where j: "get_i64 obj ''index'' = Some j" and m: "get_object obj ''message'' = None"
    by (auto simp: plain_choice_def)
  show ?thesis
  proof (cases "i = j")
    case True
    with aggregate_openai_chat_choice_message [OF j m refl, of choices] show ?thesis
      by (auto simp: JObject j choice_content_def choice_delta_content_def entry_or_def [of "aggregate_openai_chat_choice _ _"]
          obj_or_empty_object [of obj] merge_openai_chat_delta_content split: option.splits)
  next
    case False
    with j show ?thesis
      by (simp add: JObject choice_content_def choice_delta_content_def entry_or_def
          aggregate_openai_chat_choice_other)
  qed
qed (simp_all add: aggregate_openai_chat_choice_def choice_delta_content_def)

lemma aggregate_openai_chat_choices_content:
  "list_all plain_choice raws \<Longrightarrow>
    choice_content i (foldl aggregate_openai_chat_choice choices raws)
      = choice_content i choices @ concat (map (choice_delta_content i) raws)"
  by (induction raws arbitrary: choices) (simp_all add: aggregate_openai_chat_choice_content)

definition chunk_content :: "int \<Rightarrow> json \<Rightarrow> string" where
  "chunk_content i item = concat (map (choice_delta_content i) (chunk_choices item))"

definition message_content :: "json \<Rightarrow> string" where
  "message_content c = str_or_empty (get_str (obj_or_empty (value_get c ''message'')) ''content'')"

text \<open>Every choice carries its own index, and only the end of the stream writes \<open>choices\<close>.\<close>

definition indexed :: "blocks \<Rightarrow> bool" where
  "indexed choices \<longleftrightarrow> (\<forall>i c. bt_get choices i = Some c \<longrightarrow> bt_get c ''index'' = Some (jint i))"

lemma indexed_choice: "indexed choices \<Longrightarrow> indexed (aggregate_openai_chat_choice choices raw)"
  by (cases raw) (auto simp: indexed_def aggregate_openai_chat_choice_def Let_def bt_insert_get
      copy_field_get entry_or_def split: option.splits)

lemma indexed_choices: "indexed choices \<Longrightarrow> indexed (foldl aggregate_openai_chat_choice choices raws)"
  by (induction raws arbitrary: choices) (simp_all add: indexed_choice)

lemma aggregate_openai_chat_item_choices:
  "snd (aggregate_openai_chat_item (out, choices) item)
     = foldl aggregate_openai_chat_choice choices (chunk_choices item)"
  by (cases item)
     (auto simp: Let_def chunk_choices_def value_get_def arr_or_empty_def get_array_def split: option.splits)

lemma aggregate_openai_chat_item_out:
  "bt_get out ''choices'' = None \<Longrightarrow>
    bt_get (fst (aggregate_openai_chat_item (out, choices) item)) ''choices'' = None"
  by (cases item) (auto simp: Let_def copy_field_get bt_insert_get split: option.splits)

lemma openai_chat_run:
  fixes l :: "jmap \<times> blocks"
  assumes "l = foldl aggregate_openai_chat_item (bt_empty, bt_empty) items"
  shows "bt_get (fst l) ''choices'' = None \<and> indexed (snd l)
    \<and> ((\<forall>item\<in>set items. list_all plain_choice (chunk_choices item)) \<longrightarrow>
         choice_content i (snd l) = concat (map (chunk_content i) items))"
  using assms
proof (induction items arbitrary: l rule: rev_induct)
  case Nil
  then show ?case
    by (simp add: bt_empty_def indexed_def choice_content_def entry_or_def)
next
  case (snoc item items)
  obtain out choices where oc: "foldl aggregate_openai_chat_item (bt_empty, bt_empty) items = (out, choices)"
    by fastforce
  with snoc have l: "l = aggregate_openai_chat_item (out, choices) item" by simp
  from snoc.IH [OF oc [symmetric]] show ?case
    by (simp add: l aggregate_openai_chat_item_out aggregate_openai_chat_item_choices
        indexed_choices aggregate_openai_chat_choices_content chunk_content_def
        del: aggregate_openai_chat_item.simps)
qed

lemma bt_values_get: "bt_wf m \<Longrightarrow> v \<in> set (bt_values m) \<Longrightarrow> \<exists>k. bt_get m k = Some v"
  by (auto simp: bt_values_def bt_get_set [symmetric])

section \<open>Properties\<close>

text \<open>
  C27: What the signed view of a streamed chat completion says.  For a stream of well-formed chunks
  whose choices name their index and carry deltas only, every choice of the view the stream ends
  with carries an index, and its message content is the concatenation, in stream order, of the
  content strings of the deltas with that index.
\<close>

theorem openai_chat_content:
  assumes "list_all wf_json items"
    and "\<forall>item\<in>set items. list_all plain_choice (chunk_choices item)"
    and "c \<in> set (chunk_choices (fst (openai_chat_finish (foldl openai_chat_apply openai_chat_new items))))"
  shows "\<exists>i. value_get c ''index'' = Some (jint i)
    \<and> message_content c = concat (map (chunk_content i) items)"
proof -
  obtain out choices where l: "foldl aggregate_openai_chat_item (bt_empty, bt_empty) items = (out, choices)"
    by fastforce
  from openai_chat_run [OF l [symmetric]] assms(2) have out: "bt_get out ''choices'' = None"
    and idx: "indexed choices"
    and content: "choice_content i choices = concat (map (chunk_content i) items)" for i
    by auto
  have wf: "wf_blocks choices" using chat.ok_run [OF assms(1)] by (simp add: l)
  have "c \<in> set (chunk_choices (aggregate_openai_chat_result (out, choices)))"
    using assms(3) by (simp only: chat.batch_eq_stream [symmetric] l)
  with out obtain m where m: "m \<in> set (bt_values choices)" and c: "c = JObject m"
    by (auto simp: chunk_choices_def arr_or_empty_def collect_values_def bt_insert_get split: if_splits)
  from wf m obtain i where i: "bt_get choices i = Some m"
    by (auto simp: wf_blocks_def dest: bt_values_get)
  with idx content [of i] show ?thesis
    by (auto simp: c indexed_def message_content_def choice_content_def entry_or_def)
qed

definition sample_chunk :: "string \<Rightarrow> json" where
  "sample_chunk text = JObject [(''choices'', JArray [JObject
     [(''delta'', JObject [(''content'', JString text)]), (''index'', jint 0)]])]"

lemma sample_chunk_ok:
  "wf_json (sample_chunk text)" "list_all plain_choice (chunk_choices (sample_chunk text))"
  by (simp_all add: sample_chunk_def wf_map_iff bt_values_def chunk_choices_def arr_or_empty_def
      plain_choice_def get_i64_def get_object_def)

theorem openai_chat_content_witness:
  "\<exists>i. value_get (JObject [(''index'', jint 0), (''message'', JObject [(''content'', JString ''Hello'')])])
         ''index'' = Some (jint i)
     \<and> message_content (JObject [(''index'', jint 0), (''message'', JObject [(''content'', JString ''Hello'')])])
       = concat (map (chunk_content i) [sample_chunk ''Hel'', sample_chunk ''lo''])"
proof (rule openai_chat_content)
  show "JObject [(''index'', jint 0), (''message'', JObject [(''content'', JString ''Hello'')])]
    \<in> set (chunk_choices (fst (openai_chat_finish (foldl openai_chat_apply openai_chat_new
        [sample_chunk ''Hel'', sample_chunk ''lo'']))))"
    by code_simp
qed (simp_all add: sample_chunk_ok)

end
