(* ===== verification/Stream_Responses.thy ===== *)
theory Stream_Responses
  imports Aggregator
begin

text \<open>
  The OpenAI responses API: \<^verbatim>\<open>OpenAiResponsesStreamState\<close> and
  \<^verbatim>\<open>aggregate_openai_responses_stream\<close>.
\<close>

section \<open>One text event\<close>

text \<open>
  The body the branches for output text, refusals and reasoning text repeat: a \<open>.done\<close> event
  sets the field of the content part, a \<open>.delta\<close> event appends to it.
\<close>

definition responses_keys :: "string list" where
  "responses_keys = [''model'', ''status'', ''output'', ''output_text'', ''usage'', ''error'']"

definition responses_text_event :: "jmap \<Rightarrow> jmap \<Rightarrow> string \<Rightarrow> string \<Rightarrow> string \<Rightarrow> string \<Rightarrow> jmap" where
  "responses_text_event item_out event event_type part_type done_key field =
     (let part = JObject [(''type'', JString part_type)];
          value = (if ends_with event_type ''.done'' then bt_get event done_key
                   else bt_get event ''delta'')
      in if ends_with event_type ''.done''
         then merge_openai_response_content_part item_out (bt_get event ''content_index'')
                (Some part) None None (Some field) value
         else merge_openai_response_content_part item_out (bt_get event ''content_index'')
                (Some part) (Some field) value None None)"

definition responses_arguments_event :: "jmap \<Rightarrow> jmap \<Rightarrow> string \<Rightarrow> jmap" where
  "responses_arguments_event item_out event event_type =
     (let value = (if ends_with event_type ''.done'' then bt_get event ''arguments''
                   else bt_get event ''delta'')
      in if ends_with event_type ''.done'' then set_string_field item_out ''arguments'' value
         else append_string_field item_out ''arguments'' value)"

definition responses_item_event :: "jmap \<Rightarrow> jmap \<Rightarrow> jmap" where
  "responses_item_event item_out event =
     (case get_object event ''item'' of
        Some raw_item \<Rightarrow> bt_extend item_out raw_item | None \<Rightarrow> item_out)"

definition responses_part_event :: "jmap \<Rightarrow> jmap \<Rightarrow> jmap" where
  "responses_part_event item_out event =
     merge_openai_response_content_part item_out (bt_get event ''content_index'')
       (bt_get event ''part'') None None None None"

section \<open>The streaming state\<close>

record openai_responses_state =
  resp_out :: jmap
  resp_output_items :: blocks

definition openai_responses_new :: openai_responses_state where
  "openai_responses_new = \<lparr>resp_out = bt_empty, resp_output_items = bt_empty\<rparr>"

text \<open>The item an event names, created when absent, changed in place.\<close>

definition responses_with_item ::
  "openai_responses_state \<Rightarrow> jmap \<Rightarrow> (jmap \<Rightarrow> jmap) \<Rightarrow> openai_responses_state" where
  "responses_with_item s event f =
     (let index = index_or event ''output_index'' (usize_as_i64 (length (resp_output_items s)));
          item_out = entry_or (resp_output_items s) index bt_empty
      in s\<lparr>resp_output_items := bt_insert index (f item_out) (resp_output_items s)\<rparr>)"

definition openai_responses_apply :: "openai_responses_state \<Rightarrow> json \<Rightarrow> openai_responses_state" where
  "openai_responses_apply s item =
     (case as_object item of
        None \<Rightarrow> s
      | Some event \<Rightarrow>
          let event_type = event_type_of event;
              s = (case bt_get event ''response'' of
                     Some response \<Rightarrow> s\<lparr>resp_out := merge_value_object (resp_out s) (pick_value response responses_keys)\<rparr>
                   | None \<Rightarrow> s)
          in if event_type = ''response.output_item.added'' \<or> event_type = ''response.output_item.done'' then
               responses_with_item s event (\<lambda>item_out. responses_item_event item_out event)
             else if event_type = ''response.content_part.added'' \<or> event_type = ''response.content_part.done'' then
               responses_with_item s event (\<lambda>item_out. responses_part_event item_out event)
             else if event_type = ''response.output_text.delta'' \<or> event_type = ''response.output_text.done'' then
               responses_with_item s event (\<lambda>item_out. responses_text_event item_out event event_type
                 ''output_text'' ''text'' ''text'')
             else if event_type = ''response.refusal.delta'' \<or> event_type = ''response.refusal.done'' then
               responses_with_item s event (\<lambda>item_out. responses_text_event item_out event event_type
                 ''refusal'' ''refusal'' ''refusal'')
             else if event_type = ''response.reasoning_text.delta'' \<or> event_type = ''response.reasoning_text.done'' then
               responses_with_item s event (\<lambda>item_out. responses_text_event item_out event event_type
                 ''reasoning_text'' ''text'' ''text'')
             else if event_type = ''response.function_call_arguments.delta'' \<or> event_type = ''response.function_call_arguments.done'' then
               responses_with_item s event (\<lambda>item_out. responses_arguments_event item_out event event_type)
             else if event_type = ''response.completed'' then
               if \<not> bt_contains (resp_out s) ''status'' then s\<lparr>resp_out := bt_insert ''status'' (JString ''completed'') (resp_out s)\<rparr>
               else s
             else if event_type = ''response.failed'' then
               s\<lparr>resp_out := copy_field ''error'' event (resp_out s)\<rparr>
             else s)"

definition openai_responses_finish :: "openai_responses_state \<Rightarrow> json \<times> openai_responses_state" where
  "openai_responses_finish s =
     (let output_is_empty = (case get_array (resp_out s) ''output'' of
                               Some a \<Rightarrow> a = [] | None \<Rightarrow> True);
          s = (if output_is_empty \<and> resp_output_items s \<noteq> []
               then s\<lparr>resp_out := bt_insert ''output'' (collect_values (resp_output_items s)) (resp_out s),
                      resp_output_items := bt_empty\<rparr>
               else s)
      in (pick_value (JObject (resp_out s)) responses_keys, s\<lparr>resp_out := bt_empty\<rparr>))"

section \<open>The batch function\<close>

definition aggregate_responses_with_item :: "blocks \<Rightarrow> jmap \<Rightarrow> (jmap \<Rightarrow> jmap) \<Rightarrow> blocks" where
  "aggregate_responses_with_item output_items event f =
     (let index = index_or event ''output_index'' (usize_as_i64 (length output_items));
          item_out = entry_or output_items index bt_empty
      in bt_insert index (f item_out) output_items)"

fun aggregate_openai_responses_item :: "jmap \<times> blocks \<Rightarrow> json \<Rightarrow> jmap \<times> blocks" where
  "aggregate_openai_responses_item (out, output_items) item =
     (case as_object item of
        None \<Rightarrow> (out, output_items)
      | Some event \<Rightarrow>
          let event_type = event_type_of event;
              out = (case bt_get event ''response'' of
                       Some response \<Rightarrow> merge_value_object out (pick_value response responses_keys)
                     | None \<Rightarrow> out)
          in if event_type = ''response.output_item.added'' \<or> event_type = ''response.output_item.done'' then
               (out, aggregate_responses_with_item output_items event (\<lambda>item_out. responses_item_event item_out event))
             else if event_type = ''response.content_part.added'' \<or> event_type = ''response.content_part.done'' then
               (out, aggregate_responses_with_item output_items event (\<lambda>item_out. responses_part_event item_out event))
             else if event_type = ''response.output_text.delta'' \<or> event_type = ''response.output_text.done'' then
               (out, aggregate_responses_with_item output_items event (\<lambda>item_out. responses_text_event item_out event event_type
                 ''output_text'' ''text'' ''text''))
             else if event_type = ''response.refusal.delta'' \<or> event_type = ''response.refusal.done'' then
               (out, aggregate_responses_with_item output_items event (\<lambda>item_out. responses_text_event item_out event event_type
                 ''refusal'' ''refusal'' ''refusal''))
             else if event_type = ''response.reasoning_text.delta'' \<or> event_type = ''response.reasoning_text.done'' then
               (out, aggregate_responses_with_item output_items event (\<lambda>item_out. responses_text_event item_out event event_type
                 ''reasoning_text'' ''text'' ''text''))
             else if event_type = ''response.function_call_arguments.delta'' \<or> event_type = ''response.function_call_arguments.done'' then
               (out, aggregate_responses_with_item output_items event (\<lambda>item_out. responses_arguments_event item_out event event_type))
             else if event_type = ''response.completed'' then
               if \<not> bt_contains (out) ''status'' then (bt_insert ''status'' (JString ''completed'') out, output_items)
               else (out, output_items)
             else if event_type = ''response.failed'' then
               (copy_field ''error'' event (out), output_items)
             else (out, output_items))"

fun aggregate_openai_responses_result :: "jmap \<times> blocks \<Rightarrow> json" where
  "aggregate_openai_responses_result (out, output_items) =
     (let output_is_empty = (case get_array out ''output'' of Some a \<Rightarrow> a = [] | None \<Rightarrow> True);
          out = (if output_is_empty \<and> output_items \<noteq> []
                 then bt_insert ''output'' (collect_values output_items) out else out)
      in pick_value (JObject out) responses_keys)"

definition aggregate_openai_responses_stream :: "json \<Rightarrow> json" where
  "aggregate_openai_responses_stream value =
     (case as_array value of
        None \<Rightarrow> pick_value value responses_keys
      | Some items \<Rightarrow>
          aggregate_openai_responses_result
            (foldl aggregate_openai_responses_item (bt_empty, bt_empty) items))"

section \<open>The contract holds\<close>

definition openai_responses_locals :: "openai_responses_state \<Rightarrow> jmap \<times> blocks" where
  "openai_responses_locals s = (resp_out s, resp_output_items s)"

lemma responses_with_item_locals:
  "openai_responses_locals (responses_with_item s event f)
     = (resp_out s, aggregate_responses_with_item (resp_output_items s) event f)"
  by (simp add: openai_responses_locals_def responses_with_item_def aggregate_responses_with_item_def Let_def)

lemma openai_responses_apply_locals:
  "openai_responses_locals (openai_responses_apply s e)
     = aggregate_openai_responses_item (openai_responses_locals s) e"
proof (cases e)
  case (JObject event)
  define t where "t = (case bt_get event ''response'' of
      Some response \<Rightarrow> s\<lparr>resp_out := merge_value_object (resp_out s) (pick_value response responses_keys)\<rparr>
    | None \<Rightarrow> s)"
  have t: "resp_out t = (case bt_get event ''response'' of
      Some response \<Rightarrow> merge_value_object (resp_out s) (pick_value response responses_keys)
    | None \<Rightarrow> resp_out s)" "resp_output_items t = resp_output_items s"
    by (simp_all add: t_def split: option.splits)
  show ?thesis
    unfolding openai_responses_apply_def JObject as_object.simps option.simps t_def [symmetric]
    by (simp add: Let_def responses_with_item_locals openai_responses_locals_def [of s] t [symmetric])
       (simp add: openai_responses_locals_def)
qed (simp_all add: openai_responses_apply_def openai_responses_locals_def)

lemma aggregate_responses_with_item_wf:
  "wf_blocks bs \<Longrightarrow> (\<And>m. wf_map m \<Longrightarrow> wf_map (f m)) \<Longrightarrow> wf_blocks (aggregate_responses_with_item bs event f)"
  by (auto simp: aggregate_responses_with_item_def Let_def intro!: wf_blocks_insert wf_blocks_entry wf_map_empty)

lemma responses_part_type_wf: "wf_opt (Some (JObject [(k, JString p)]))"
  by (simp add: wf_map_iff bt_values_def)

lemma responses_event_wf:
  assumes "wf_map m" and "wf_map event"
  shows "wf_map (responses_item_event m event)" "wf_map (responses_part_event m event)"
    "wf_map (responses_text_event m event t p d f)" "wf_map (responses_arguments_event m event t)"
  unfolding responses_item_event_def responses_part_event_def responses_text_event_def
    responses_arguments_event_def Let_def
  by (intro wf_intros assms responses_part_type_wf; assumption)+

lemma aggregate_openai_responses_item_ok:
  assumes "ok_out_blocks l" and "wf_json item"
  shows "ok_out_blocks (aggregate_openai_responses_item l item)"
proof (cases l; cases item)
  fix out bs event
  assume l: "l = (out, bs)" and item: "item = JObject event"
  with assms have w: "wf_map out" "wf_blocks bs" "wf_map event" by simp_all
  define out' where "out' = (case bt_get event ''response'' of
      Some response \<Rightarrow> merge_value_object out (pick_value response responses_keys) | None \<Rightarrow> out)"
  have out': "wf_map out'" unfolding out'_def by (intro wf_intros w)
  show ?thesis
    unfolding l item aggregate_openai_responses_item.simps as_object.simps option.simps
      out'_def [symmetric] Let_def
    using out' w by (auto intro!: aggregate_responses_with_item_wf responses_event_wf copy_field_wf
        wf_map_insert)
qed (use assms in simp_all)

interpretation responses: stream_aggregator openai_responses_new openai_responses_apply
  openai_responses_finish "(bt_empty, bt_empty)" aggregate_openai_responses_item
  aggregate_openai_responses_result openai_responses_locals ok_out_blocks
proof
  show "openai_responses_locals openai_responses_new = (bt_empty, bt_empty)"
    by (simp add: openai_responses_new_def openai_responses_locals_def)
next
  fix s :: openai_responses_state
  show "fst (openai_responses_finish s) = aggregate_openai_responses_result (openai_responses_locals s)"
    by (simp add: openai_responses_finish_def openai_responses_locals_def Let_def)
next
  fix l :: "jmap \<times> blocks"
  assume "ok_out_blocks l"
  then show "wf_json (aggregate_openai_responses_result l)"
    by (cases l) (auto simp: Let_def simp del: pick_value.simps
        intro!: pick_value_wf wf_json_objectI wf_map_insert collect_values_wf)
qed (simp_all only: openai_responses_apply_locals aggregate_openai_responses_item_ok
      ok_out_blocks.simps wf_map_empty wf_blocks_empty simp_thms)

end
