(* ===== verification/Stream_Anthropic.thy ===== *)
theory Stream_Anthropic
  imports Aggregator
begin

text \<open>
  The messages API: \<^verbatim>\<open>AnthropicMessagesStreamState\<close> and
  \<^verbatim>\<open>aggregate_anthropic_messages_stream\<close>.
\<close>

definition anthropic_keys :: "string list" where
  "anthropic_keys = [''type'', ''role'', ''model'', ''content'', ''stop_reason'', ''usage'', ''error'']"

definition anthropic_start_keys :: "string list" where
  "anthropic_start_keys = [''type'', ''role'', ''model'', ''stop_reason'', ''usage'']"

section \<open>The streaming state\<close>

record anthropic_messages_state =
  anth_out :: jmap
  anth_content_blocks :: blocks

definition anthropic_messages_new :: anthropic_messages_state where
  "anthropic_messages_new = \<lparr>anth_out = bt_empty, anth_content_blocks = bt_empty\<rparr>"

definition anthropic_messages_apply :: "anthropic_messages_state \<Rightarrow> json \<Rightarrow> anthropic_messages_state" where
  "anthropic_messages_apply s item =
     (case as_object item of
        None \<Rightarrow> s
      | Some event \<Rightarrow>
          let event_type = event_type_of event
          in if event_type = ''message_start'' then
               (case bt_get event ''message'' of
                  Some message \<Rightarrow>
                    s\<lparr>anth_out := merge_value_object (anth_out s) (pick_value message anthropic_start_keys),
                      anth_content_blocks :=
                        seed_anthropic_content_blocks (anth_content_blocks s) (value_get message ''content'')\<rparr>
                | None \<Rightarrow> s)
             else if event_type = ''content_block_start'' then
               (case get_object event ''content_block'' of
                  Some block \<Rightarrow>
                    let index = index_or event ''index'' (usize_as_i64 (length (anth_content_blocks s)))
                    in s\<lparr>anth_content_blocks := bt_insert index block (anth_content_blocks s)\<rparr>
                | None \<Rightarrow> s)
             else if event_type = ''content_block_delta'' then
               (case get_object event ''delta'' of
                  None \<Rightarrow> s
                | Some delta \<Rightarrow>
                    let index = index_or event ''index'' (usize_as_i64 (length (anth_content_blocks s)));
                        block = entry_or (anth_content_blocks s) index bt_empty;
                        s = s\<lparr>anth_content_blocks := bt_remove index (anth_content_blocks s)\<rparr>;
                        block = merge_anthropic_content_delta block delta
                    in s\<lparr>anth_content_blocks := bt_insert index block (anth_content_blocks s)\<rparr>)
             else if event_type = ''message_delta'' then
               (let s = (case bt_get event ''delta'' of
                           Some delta \<Rightarrow>
                             s\<lparr>anth_out := merge_value_object (anth_out s) (pick_value delta [''stop_reason''])\<rparr>
                         | None \<Rightarrow> s)
                in s\<lparr>anth_out := merge_nested_object (anth_out s) ''usage'' (bt_get event ''usage'')\<rparr>)
             else if event_type = ''error'' then
               s\<lparr>anth_out := bt_insert ''error''
                    (case bt_get event ''error'' of Some e \<Rightarrow> e | None \<Rightarrow> item) (anth_out s)\<rparr>
             else s)"

definition anthropic_messages_finish :: "anthropic_messages_state \<Rightarrow> json \<times> anthropic_messages_state" where
  "anthropic_messages_finish s =
     (let s = (if anth_content_blocks s \<noteq> []
               then s\<lparr>anth_out := bt_insert ''content'' (collect_values (anth_content_blocks s)) (anth_out s),
                      anth_content_blocks := bt_empty\<rparr>
               else s)
      in (pick_value (JObject (anth_out s)) anthropic_keys, s\<lparr>anth_out := bt_empty\<rparr>))"

section \<open>The batch function\<close>

fun aggregate_anthropic_messages_item :: "jmap \<times> blocks \<Rightarrow> json \<Rightarrow> jmap \<times> blocks" where
  "aggregate_anthropic_messages_item (out, content_blocks) item =
     (case as_object item of
        None \<Rightarrow> (out, content_blocks)
      | Some event \<Rightarrow>
          let event_type = event_type_of event
          in if event_type = ''message_start'' then
               (case bt_get event ''message'' of
                  Some message \<Rightarrow>
                    (merge_value_object out (pick_value message anthropic_start_keys),
                     seed_anthropic_content_blocks content_blocks (value_get message ''content''))
                | None \<Rightarrow> (out, content_blocks))
             else if event_type = ''content_block_start'' then
               (case get_object event ''content_block'' of
                  Some block \<Rightarrow>
                    let index = index_or event ''index'' (usize_as_i64 (length content_blocks))
                    in (out, bt_insert index block content_blocks)
                | None \<Rightarrow> (out, content_blocks))
             else if event_type = ''content_block_delta'' then
               (case get_object event ''delta'' of
                  None \<Rightarrow> (out, content_blocks)
                | Some delta \<Rightarrow>
                    let index = index_or event ''index'' (usize_as_i64 (length content_blocks));
                        block = entry_or content_blocks index bt_empty;
                        content_blocks = bt_remove index content_blocks;
                        block = merge_anthropic_content_delta block delta
                    in (out, bt_insert index block content_blocks))
             else if event_type = ''message_delta'' then
               (let out = (case bt_get event ''delta'' of
                             Some delta \<Rightarrow> merge_value_object out (pick_value delta [''stop_reason''])
                           | None \<Rightarrow> out)
                in (merge_nested_object out ''usage'' (bt_get event ''usage''), content_blocks))
             else if event_type = ''error'' then
               (bt_insert ''error'' (case bt_get event ''error'' of Some e \<Rightarrow> e | None \<Rightarrow> item) out,
                content_blocks)
             else (out, content_blocks))"

fun aggregate_anthropic_messages_result :: "jmap \<times> blocks \<Rightarrow> json" where
  "aggregate_anthropic_messages_result (out, content_blocks) =
     (let out = (if content_blocks \<noteq> []
                 then bt_insert ''content'' (collect_values content_blocks) out else out)
      in pick_value (JObject out) anthropic_keys)"

definition aggregate_anthropic_messages_stream :: "json \<Rightarrow> json" where
  "aggregate_anthropic_messages_stream value =
     (case as_array value of
        None \<Rightarrow> pick_value value anthropic_keys
      | Some items \<Rightarrow>
          aggregate_anthropic_messages_result
            (foldl aggregate_anthropic_messages_item (bt_empty, bt_empty) items))"

section \<open>The contract holds\<close>

definition anthropic_messages_locals :: "anthropic_messages_state \<Rightarrow> jmap \<times> blocks" where
  "anthropic_messages_locals s = (anth_out s, anth_content_blocks s)"

lemma anthropic_messages_apply_locals:
  "anthropic_messages_locals (anthropic_messages_apply s e)
     = aggregate_anthropic_messages_item (anthropic_messages_locals s) e"
  by (cases e) (auto simp: anthropic_messages_apply_def anthropic_messages_locals_def Let_def split: option.splits)

lemma value_get_wf: "wf_json v \<Longrightarrow> wf_opt (value_get v k)"
  by (cases v) (auto simp: value_get_def intro: wf_opt_get)

lemma aggregate_anthropic_messages_item_ok:
  assumes "ok_out_blocks l" and "wf_json item"
  shows "ok_out_blocks (aggregate_anthropic_messages_item l item)"
proof (cases l; cases item)
  fix out bs event
  assume l: "l = (out, bs)" and item: "item = JObject event"
  with assms have w: "wf_map out" "wf_blocks bs" "wf_map event" by simp_all
  have delta: "wf_map (case bt_get event ''delta'' of
      Some delta \<Rightarrow> merge_value_object out (pick_value delta [''stop_reason'']) | None \<Rightarrow> out)"
    and error: "wf_json (case bt_get event ''error'' of Some e \<Rightarrow> e | None \<Rightarrow> JObject event)"
    by (intro wf_intros w) (use w in \<open>auto dest: wf_map_get split: option.splits\<close>)
  show ?thesis
    unfolding l item aggregate_anthropic_messages_item.simps as_object.simps option.simps Let_def
    using w delta error
    by (auto intro!: merge_value_object_wf pick_value_wf seed_anthropic_content_blocks_wf value_get_wf
        wf_blocks_insert wf_blocks_remove merge_anthropic_content_delta_wf wf_blocks_entry
        merge_nested_object_wf wf_opt_get wf_map_insert dest: wf_map_get get_object_wf
        split: option.splits)
qed (use assms in simp_all)

interpretation anthropic: stream_aggregator anthropic_messages_new anthropic_messages_apply
  anthropic_messages_finish "(bt_empty, bt_empty)" aggregate_anthropic_messages_item
  aggregate_anthropic_messages_result anthropic_messages_locals ok_out_blocks
proof
  show "anthropic_messages_locals anthropic_messages_new = (bt_empty, bt_empty)"
    by (simp add: anthropic_messages_new_def anthropic_messages_locals_def)
next
  fix s :: anthropic_messages_state
  show "fst (anthropic_messages_finish s) = aggregate_anthropic_messages_result (anthropic_messages_locals s)"
    by (simp add: anthropic_messages_finish_def anthropic_messages_locals_def Let_def)
next
  fix l :: "jmap \<times> blocks"
  assume "ok_out_blocks l"
  then show "wf_json (aggregate_anthropic_messages_result l)"
    by (cases l) (auto simp: Let_def simp del: pick_value.simps
        intro!: pick_value_wf wf_json_objectI wf_map_insert collect_values_wf)
qed (simp_all only: anthropic_messages_apply_locals aggregate_anthropic_messages_item_ok
      ok_out_blocks.simps wf_map_empty wf_blocks_empty simp_thms)

end
