(* ===== verification/Stream_Gemini.thy ===== *)
theory Stream_Gemini
  imports Aggregator
begin

text \<open>
  Gemini generate-content: \<^verbatim>\<open>GeminiGenerateContentStreamState\<close> and
  \<^verbatim>\<open>aggregate_gemini_generate_content_stream\<close>.
\<close>

definition gemini_keys :: "string list" where
  "gemini_keys = [''candidates'', ''promptFeedback'', ''usageMetadata'', ''error'', ''modelVersion'']"

definition gemini_copied_keys :: "string list" where
  "gemini_copied_keys = [''promptFeedback'', ''usageMetadata'', ''error'', ''modelVersion'']"

section \<open>The streaming state\<close>

record gemini_state =
  gem_out :: jmap
  gem_candidates :: blocks

definition gemini_new :: gemini_state where
  "gemini_new = \<lparr>gem_out = bt_empty, gem_candidates = bt_empty\<rparr>"

definition gemini_candidate :: "gemini_state \<Rightarrow> nat \<times> json \<Rightarrow> gemini_state" where
  "gemini_candidate s ir =
     (case as_object (snd ir) of
        None \<Rightarrow> s
      | Some candidate_obj \<Rightarrow>
          let index = index_or candidate_obj ''index'' (usize_as_i64 (fst ir));
              candidate = entry_or (gem_candidates s) index (bt_insert ''index'' (jint index) bt_empty);
              candidate = merge_gemini_candidate candidate candidate_obj
          in s\<lparr>gem_candidates := bt_insert index candidate (gem_candidates s)\<rparr>)"

definition gemini_apply :: "gemini_state \<Rightarrow> json \<Rightarrow> gemini_state" where
  "gemini_apply s item =
     (case as_object item of
        None \<Rightarrow> s
      | Some chunk \<Rightarrow>
          let s = foldl (\<lambda>s key. s\<lparr>gem_out := copy_field key chunk (gem_out s)\<rparr>) s gemini_copied_keys
          in (case get_array chunk ''candidates'' of
                None \<Rightarrow> s
              | Some raw_candidates \<Rightarrow> foldl gemini_candidate s (enumerate 0 raw_candidates)))"

definition gemini_finish :: "gemini_state \<Rightarrow> json \<times> gemini_state" where
  "gemini_finish s =
     (let s = (if gem_candidates s \<noteq> []
               then s\<lparr>gem_out := bt_insert ''candidates'' (collect_values (gem_candidates s)) (gem_out s),
                      gem_candidates := bt_empty\<rparr>
               else s)
      in (pick_value (JObject (gem_out s)) gemini_keys, s\<lparr>gem_out := bt_empty\<rparr>))"

section \<open>The batch function\<close>

definition aggregate_gemini_candidate :: "blocks \<Rightarrow> nat \<times> json \<Rightarrow> blocks" where
  "aggregate_gemini_candidate candidates ir =
     (case as_object (snd ir) of
        None \<Rightarrow> candidates
      | Some candidate_obj \<Rightarrow>
          let index = index_or candidate_obj ''index'' (usize_as_i64 (fst ir));
              candidate = entry_or candidates index (bt_insert ''index'' (jint index) bt_empty);
              candidate = merge_gemini_candidate candidate candidate_obj
          in bt_insert index candidate candidates)"

fun aggregate_gemini_item :: "jmap \<times> blocks \<Rightarrow> json \<Rightarrow> jmap \<times> blocks" where
  "aggregate_gemini_item (out, candidates) item =
     (case as_object item of
        None \<Rightarrow> (out, candidates)
      | Some chunk \<Rightarrow>
          let out = foldl (\<lambda>out key. copy_field key chunk out) out gemini_copied_keys
          in (case get_array chunk ''candidates'' of
                None \<Rightarrow> (out, candidates)
              | Some raw_candidates \<Rightarrow>
                  (out, foldl aggregate_gemini_candidate candidates (enumerate 0 raw_candidates))))"

fun aggregate_gemini_result :: "jmap \<times> blocks \<Rightarrow> json" where
  "aggregate_gemini_result (out, candidates) =
     (let out = (if candidates \<noteq> []
                 then bt_insert ''candidates'' (collect_values candidates) out else out)
      in pick_value (JObject out) gemini_keys)"

definition aggregate_gemini_generate_content_stream :: "json \<Rightarrow> json" where
  "aggregate_gemini_generate_content_stream value =
     (case as_array value of
        None \<Rightarrow> pick_value value gemini_keys
      | Some items \<Rightarrow>
          aggregate_gemini_result (foldl aggregate_gemini_item (bt_empty, bt_empty) items))"

section \<open>The contract holds\<close>

definition gemini_locals :: "gemini_state \<Rightarrow> jmap \<times> blocks" where
  "gemini_locals s = (gem_out s, gem_candidates s)"

lemma gemini_candidate_locals:
  "gemini_locals (gemini_candidate s ir) = (gem_out s, aggregate_gemini_candidate (gem_candidates s) ir)"
  by (cases "snd ir") (simp_all add: gemini_locals_def gemini_candidate_def aggregate_gemini_candidate_def Let_def)

lemma gemini_candidates_locals:
  "gemini_locals (foldl gemini_candidate s irs)
     = (gem_out s, foldl aggregate_gemini_candidate (gem_candidates s) irs)"
proof (induction irs arbitrary: s)
  case (Cons ir irs)
  with gemini_candidate_locals [of s ir] show ?case by (simp add: gemini_locals_def)
qed (simp add: gemini_locals_def)

lemma gemini_copied_locals:
  "gemini_locals (foldl (\<lambda>s key. s\<lparr>gem_out := copy_field key chunk (gem_out s)\<rparr>) s keys)
     = (foldl (\<lambda>out key. copy_field key chunk out) (gem_out s) keys, gem_candidates s)"
  by (induction keys arbitrary: s) (simp_all add: gemini_locals_def)

lemma gemini_apply_locals:
  "gemini_locals (gemini_apply s e) = aggregate_gemini_item (gemini_locals s) e"
proof (cases e)
  case (JObject chunk)
  with gemini_copied_locals [of chunk s gemini_copied_keys] show ?thesis
    by (auto simp: gemini_apply_def Let_def gemini_candidates_locals gemini_locals_def [of s] split: option.splits)
       (simp_all add: gemini_locals_def)
qed (simp_all add: gemini_apply_def gemini_locals_def)

lemma aggregate_gemini_candidate_wf:
  assumes "wf_blocks bs" and "wf_json raw"
  shows "wf_blocks (aggregate_gemini_candidate bs (i, raw))"
proof (cases raw)
  case (JObject obj)
  with assms(2) have obj: "wf_map obj" by simp
  show ?thesis
    unfolding aggregate_gemini_candidate_def JObject fst_conv snd_conv as_object.simps option.simps Let_def
    by (intro wf_intros assms(1) obj)
qed (use assms in \<open>simp_all add: aggregate_gemini_candidate_def\<close>)

lemma aggregate_gemini_candidates_wf:
  "wf_blocks bs \<Longrightarrow> list_all wf_json raws \<Longrightarrow>
    wf_blocks (foldl aggregate_gemini_candidate bs (enumerate n raws))"
  by (induction raws arbitrary: bs n) (simp_all add: aggregate_gemini_candidate_wf)

lemma foldl_copy_field_wf [wf_intros]:
  "wf_map chunk \<Longrightarrow> wf_map out \<Longrightarrow> wf_map (foldl (\<lambda>out key. copy_field key chunk out) out keys)"
  by (induction keys arbitrary: out) (simp_all add: copy_field_wf)

lemma aggregate_gemini_item_ok:
  "ok_out_blocks l \<Longrightarrow> wf_json item \<Longrightarrow> ok_out_blocks (aggregate_gemini_item l item)"
  by (cases l; cases item)
     (auto simp: Let_def intro!: foldl_copy_field_wf aggregate_gemini_candidates_wf
        dest: get_array_wf split: option.splits)

interpretation gemini: stream_aggregator gemini_new gemini_apply gemini_finish
  "(bt_empty, bt_empty)" aggregate_gemini_item aggregate_gemini_result gemini_locals ok_out_blocks
proof
  show "gemini_locals gemini_new = (bt_empty, bt_empty)"
    by (simp add: gemini_new_def gemini_locals_def)
next
  fix s :: gemini_state
  show "fst (gemini_finish s) = aggregate_gemini_result (gemini_locals s)"
    by (simp add: gemini_finish_def gemini_locals_def Let_def)
next
  fix l :: "jmap \<times> blocks"
  assume "ok_out_blocks l"
  then show "wf_json (aggregate_gemini_result l)"
    by (cases l) (auto simp: Let_def simp del: pick_value.simps
        intro!: pick_value_wf wf_json_objectI wf_map_insert collect_values_wf)
qed (simp_all only: gemini_apply_locals aggregate_gemini_item_ok
      ok_out_blocks.simps wf_map_empty wf_blocks_empty simp_thms)

end
