(* ===== verification/Stream_Dashscope.thy ===== *)
theory Stream_Dashscope
  imports Aggregator
begin

text \<open>
  DashScope generation: \<^verbatim>\<open>DashscopeGenerationStreamState\<close> and
  \<^verbatim>\<open>aggregate_dashscope_generation_stream\<close>.
\<close>

definition dashscope_keys :: "string list" where
  "dashscope_keys = [''output'', ''usage'', ''request_id'', ''code'', ''message'']"

definition dashscope_copied_keys :: "string list" where
  "dashscope_copied_keys = [''usage'', ''request_id'', ''code'', ''message'']"

section \<open>The streaming state\<close>

record dashscope_state =
  dash_out :: jmap
  dash_output :: jmap
  dash_choices :: blocks

definition dashscope_new :: dashscope_state where
  "dashscope_new = \<lparr>dash_out = bt_empty, dash_output = bt_empty, dash_choices = bt_empty\<rparr>"

definition dashscope_choice :: "dashscope_state \<Rightarrow> nat \<times> json \<Rightarrow> dashscope_state" where
  "dashscope_choice s ir =
     (case as_object (snd ir) of
        None \<Rightarrow> s
      | Some choice_obj \<Rightarrow>
          let index = index_or choice_obj ''index'' (usize_as_i64 (fst ir));
              choice = entry_or (dash_choices s) index
                (bt_insert ''message'' empty_object (bt_insert ''index'' (jint index) bt_empty));
              message = obj_or_empty (bt_get choice ''message'');
              message = (case get_object choice_obj ''message'' of
                           Some raw_message \<Rightarrow> merge_dashscope_message message raw_message
                         | None \<Rightarrow> message);
              message = (case get_object choice_obj ''delta'' of
                           Some raw_delta \<Rightarrow> merge_dashscope_message message raw_delta
                         | None \<Rightarrow> message);
              choice = bt_insert ''message'' (JObject message) choice;
              choice = fold (\<lambda>(k, v) choice.
                  if k \<noteq> ''index'' \<and> k \<noteq> ''message'' \<and> k \<noteq> ''delta'' \<and> \<not> is_null v
                  then bt_insert k v choice else choice) choice_obj choice
          in s\<lparr>dash_choices := bt_insert index choice (dash_choices s)\<rparr>)"

definition dashscope_apply :: "dashscope_state \<Rightarrow> json \<Rightarrow> dashscope_state" where
  "dashscope_apply s item =
     (case as_object item of
        None \<Rightarrow> s
      | Some chunk \<Rightarrow>
          let s = foldl (\<lambda>s key. s\<lparr>dash_out := copy_field key chunk (dash_out s)\<rparr>) s dashscope_copied_keys
          in (case get_object chunk ''output'' of
                None \<Rightarrow> s
              | Some raw_output \<Rightarrow>
                  let s = s\<lparr>dash_output := fold (\<lambda>(k, v) output.
                             if k \<noteq> ''choices'' then bt_insert k v output else output)
                           raw_output (dash_output s)\<rparr>
                  in (case get_array raw_output ''choices'' of
                        None \<Rightarrow> s
                      | Some raw_choices \<Rightarrow> foldl dashscope_choice s (enumerate 0 raw_choices))))"

definition dashscope_finish :: "dashscope_state \<Rightarrow> json \<times> dashscope_state" where
  "dashscope_finish s =
     (let s = (if dash_choices s \<noteq> []
               then s\<lparr>dash_output := bt_insert ''choices'' (collect_values (dash_choices s)) (dash_output s),
                      dash_choices := bt_empty\<rparr>
               else s);
          s = (if dash_output s \<noteq> []
               then s\<lparr>dash_out := bt_insert ''output'' (JObject (dash_output s)) (dash_out s),
                      dash_output := bt_empty\<rparr>
               else s)
      in (pick_value (JObject (dash_out s)) dashscope_keys, s\<lparr>dash_out := bt_empty\<rparr>))"

section \<open>The batch function\<close>

definition aggregate_dashscope_choice :: "blocks \<Rightarrow> nat \<times> json \<Rightarrow> blocks" where
  "aggregate_dashscope_choice choices ir =
     (case as_object (snd ir) of
        None \<Rightarrow> choices
      | Some choice_obj \<Rightarrow>
          let index = index_or choice_obj ''index'' (usize_as_i64 (fst ir));
              choice = entry_or choices index
                (bt_insert ''message'' empty_object (bt_insert ''index'' (jint index) bt_empty));
              message = obj_or_empty (bt_get choice ''message'');
              message = (case get_object choice_obj ''message'' of
                           Some raw_message \<Rightarrow> merge_dashscope_message message raw_message
                         | None \<Rightarrow> message);
              message = (case get_object choice_obj ''delta'' of
                           Some raw_delta \<Rightarrow> merge_dashscope_message message raw_delta
                         | None \<Rightarrow> message);
              choice = bt_insert ''message'' (JObject message) choice;
              choice = fold (\<lambda>(k, v) choice.
                  if k \<noteq> ''index'' \<and> k \<noteq> ''message'' \<and> k \<noteq> ''delta'' \<and> \<not> is_null v
                  then bt_insert k v choice else choice) choice_obj choice
          in bt_insert index choice choices)"

fun aggregate_dashscope_item :: "jmap \<times> jmap \<times> blocks \<Rightarrow> json \<Rightarrow> jmap \<times> jmap \<times> blocks" where
  "aggregate_dashscope_item (out, output, choices) item =
     (case as_object item of
        None \<Rightarrow> (out, output, choices)
      | Some chunk \<Rightarrow>
          let out = foldl (\<lambda>out key. copy_field key chunk out) out dashscope_copied_keys
          in (case get_object chunk ''output'' of
                None \<Rightarrow> (out, output, choices)
              | Some raw_output \<Rightarrow>
                  let output = fold (\<lambda>(k, v) output.
                        if k \<noteq> ''choices'' then bt_insert k v output else output) raw_output output
                  in (case get_array raw_output ''choices'' of
                        None \<Rightarrow> (out, output, choices)
                      | Some raw_choices \<Rightarrow>
                          (out, output, foldl aggregate_dashscope_choice choices (enumerate 0 raw_choices)))))"

fun aggregate_dashscope_result :: "jmap \<times> jmap \<times> blocks \<Rightarrow> json" where
  "aggregate_dashscope_result (out, output, choices) =
     (let output = (if choices \<noteq> []
                    then bt_insert ''choices'' (collect_values choices) output else output);
          out = (if output \<noteq> [] then bt_insert ''output'' (JObject output) out else out)
      in pick_value (JObject out) dashscope_keys)"

definition aggregate_dashscope_generation_stream :: "json \<Rightarrow> json" where
  "aggregate_dashscope_generation_stream value =
     (case as_array value of
        None \<Rightarrow> pick_value value dashscope_keys
      | Some items \<Rightarrow>
          aggregate_dashscope_result
            (foldl aggregate_dashscope_item (bt_empty, bt_empty, bt_empty) items))"

section \<open>The contract holds\<close>

definition dashscope_locals :: "dashscope_state \<Rightarrow> jmap \<times> jmap \<times> blocks" where
  "dashscope_locals s = (dash_out s, dash_output s, dash_choices s)"

lemma dashscope_choice_locals:
  "dashscope_locals (dashscope_choice s ir)
     = (dash_out s, dash_output s, aggregate_dashscope_choice (dash_choices s) ir)"
  by (cases "snd ir") (simp_all add: dashscope_locals_def dashscope_choice_def aggregate_dashscope_choice_def Let_def)

lemma dashscope_choices_locals:
  "dashscope_locals (foldl dashscope_choice s irs)
     = (dash_out s, dash_output s, foldl aggregate_dashscope_choice (dash_choices s) irs)"
proof (induction irs arbitrary: s)
  case (Cons ir irs)
  with dashscope_choice_locals [of s ir] show ?case by (simp add: dashscope_locals_def)
qed (simp add: dashscope_locals_def)

lemma dashscope_copied_locals:
  "dash_out (foldl (\<lambda>s key. s\<lparr>dash_out := copy_field key chunk (dash_out s)\<rparr>) s keys)
     = foldl (\<lambda>out key. copy_field key chunk out) (dash_out s) keys"
  "dash_output (foldl (\<lambda>s key. s\<lparr>dash_out := copy_field key chunk (dash_out s)\<rparr>) s keys) = dash_output s"
  "dash_choices (foldl (\<lambda>s key. s\<lparr>dash_out := copy_field key chunk (dash_out s)\<rparr>) s keys) = dash_choices s"
  by (induction keys arbitrary: s) simp_all

lemma dashscope_apply_locals:
  "dashscope_locals (dashscope_apply s e) = aggregate_dashscope_item (dashscope_locals s) e"
proof (cases e)
  case (JObject chunk)
  define t where "t = foldl (\<lambda>s key. s\<lparr>dash_out := copy_field key chunk (dash_out s)\<rparr>) s dashscope_copied_keys"
  note t = dashscope_copied_locals [of chunk s dashscope_copied_keys, folded t_def]
  show ?thesis
    unfolding JObject dashscope_apply_def as_object.simps option.simps t_def [symmetric]
    by (auto simp: Let_def dashscope_choices_locals dashscope_locals_def [of s] t split: option.splits)
       (simp_all add: dashscope_locals_def t)
qed (simp_all add: dashscope_apply_def dashscope_locals_def)

lemma aggregate_dashscope_choice_wf:
  assumes "wf_blocks bs" and "wf_json raw"
  shows "wf_blocks (aggregate_dashscope_choice bs (i, raw))"
proof (cases raw)
  case (JObject obj)
  with assms(2) have obj: "wf_map obj" by simp
  show ?thesis
    unfolding aggregate_dashscope_choice_def JObject fst_conv snd_conv as_object.simps option.simps Let_def
    by (intro wf_blocks_insert wf_map_fold) (auto simp only: prod.case intro!: wf_intros assms(1) obj)
qed (use assms in \<open>simp_all add: aggregate_dashscope_choice_def\<close>)

lemma aggregate_dashscope_choices_wf:
  "wf_blocks bs \<Longrightarrow> list_all wf_json raws \<Longrightarrow>
    wf_blocks (foldl aggregate_dashscope_choice bs (enumerate n raws))"
  by (induction raws arbitrary: bs n) (simp_all add: aggregate_dashscope_choice_wf)

lemma dashscope_copied_wf:
  "wf_map chunk \<Longrightarrow> wf_map out \<Longrightarrow> wf_map (foldl (\<lambda>out key. copy_field key chunk out) out keys)"
  by (induction keys arbitrary: out) (simp_all add: copy_field_wf)

lemma dashscope_output_wf:
  "wf_map raw \<Longrightarrow> wf_map output \<Longrightarrow> wf_map (fold (\<lambda>(k, v) output.
      if k \<noteq> ''choices'' then bt_insert k v output else output) raw output)"
  by (intro wf_map_fold) (auto intro: wf_map_insert)

lemma aggregate_dashscope_item_ok:
  "ok_out_map_blocks l \<Longrightarrow> wf_json item \<Longrightarrow> ok_out_map_blocks (aggregate_dashscope_item l item)"
  by (cases l; cases item)
     (auto simp: Let_def intro!: dashscope_copied_wf dashscope_output_wf aggregate_dashscope_choices_wf
        dest: get_array_wf get_object_wf split: option.splits)

interpretation dashscope: stream_aggregator dashscope_new dashscope_apply dashscope_finish
  "(bt_empty, bt_empty, bt_empty)" aggregate_dashscope_item aggregate_dashscope_result
  dashscope_locals ok_out_map_blocks
proof
  show "dashscope_locals dashscope_new = (bt_empty, bt_empty, bt_empty)"
    by (simp add: dashscope_new_def dashscope_locals_def)
next
  fix s :: dashscope_state
  show "fst (dashscope_finish s) = aggregate_dashscope_result (dashscope_locals s)"
    by (simp add: dashscope_finish_def dashscope_locals_def Let_def)
next
  fix l :: "jmap \<times> jmap \<times> blocks"
  assume "ok_out_map_blocks l"
  then show "wf_json (aggregate_dashscope_result l)"
    by (cases l) (auto simp: Let_def simp del: pick_value.simps
        intro!: pick_value_wf wf_json_objectI wf_map_insert collect_values_wf)
qed (simp_all only: dashscope_apply_locals aggregate_dashscope_item_ok
      ok_out_map_blocks.simps wf_map_empty wf_blocks_empty simp_thms)

end
