(* ===== verification/Stream_Bedrock.thy ===== *)
theory Stream_Bedrock
  imports Aggregator
begin

text \<open>
  Bedrock converse: \<^verbatim>\<open>BedrockConverseStreamState\<close> and
  \<^verbatim>\<open>aggregate_bedrock_converse_stream\<close>.
\<close>

definition bedrock_keys :: "string list" where
  "bedrock_keys = [''output'', ''stopReason'', ''usage'', ''error'']"

section \<open>The streaming state\<close>

record bedrock_state =
  bed_out :: jmap
  bed_message :: jmap
  bed_content_blocks :: blocks

definition bedrock_new :: bedrock_state where
  "bedrock_new = \<lparr>bed_out = bt_empty, bed_message = bt_empty, bed_content_blocks = bt_empty\<rparr>"

text \<open>The consecutive statements of \<^verbatim>\<open>apply\<close>, each on the event and the state.\<close>

definition bedrock_message_start :: "jmap \<Rightarrow> bedrock_state \<Rightarrow> bedrock_state" where
  "bedrock_message_start event s =
     (case get_object event ''messageStart'' of
        Some message_start \<Rightarrow> s\<lparr>bed_message := copy_field ''role'' message_start (bed_message s)\<rparr>
      | None \<Rightarrow> s)"

definition bedrock_block_start :: "jmap \<Rightarrow> bedrock_state \<Rightarrow> bedrock_state" where
  "bedrock_block_start event s =
     (case get_object event ''contentBlockStart'' of
        Some block_start \<Rightarrow>
          let index = index_or block_start ''contentBlockIndex''
                (usize_as_i64 (length (bed_content_blocks s)));
              block = entry_or (bed_content_blocks s) index bt_empty;
              block = (case get_object block_start ''start'' of
                         Some start \<Rightarrow> bt_extend block start | None \<Rightarrow> block)
          in s\<lparr>bed_content_blocks := bt_insert index block (bed_content_blocks s)\<rparr>
      | None \<Rightarrow> s)"

definition bedrock_block_delta :: "jmap \<Rightarrow> bedrock_state \<Rightarrow> bedrock_state" where
  "bedrock_block_delta event s =
     (case get_object event ''contentBlockDelta'' of
        Some block_delta \<Rightarrow>
          let index = index_or block_delta ''contentBlockIndex''
                (usize_as_i64 (length (bed_content_blocks s)));
              block = entry_or (bed_content_blocks s) index bt_empty;
              block = (case get_object block_delta ''delta'' of
                         Some delta \<Rightarrow> merge_bedrock_content_delta block delta
                       | None \<Rightarrow> block)
          in s\<lparr>bed_content_blocks := bt_insert index block (bed_content_blocks s)\<rparr>
      | None \<Rightarrow> s)"

definition bedrock_message_stop :: "jmap \<Rightarrow> bedrock_state \<Rightarrow> bedrock_state" where
  "bedrock_message_stop event s =
     (case get_object event ''messageStop'' of
        Some message_stop \<Rightarrow> s\<lparr>bed_out := copy_field ''stopReason'' message_stop (bed_out s)\<rparr>
      | None \<Rightarrow> s)"

definition bedrock_metadata :: "jmap \<Rightarrow> bedrock_state \<Rightarrow> bedrock_state" where
  "bedrock_metadata event s =
     (case get_object event ''metadata'' of
        Some metadata \<Rightarrow> s\<lparr>bed_out := copy_field ''usage'' metadata (bed_out s)\<rparr>
      | None \<Rightarrow> s)"

definition bedrock_output :: "json \<Rightarrow> jmap \<Rightarrow> bedrock_state \<Rightarrow> bedrock_state" where
  "bedrock_output item event s =
     (if bt_get event ''output'' \<noteq> None
      then s\<lparr>bed_out := merge_value_object (bed_out s) (pick_value item bedrock_keys)\<rparr>
      else s)"

definition bedrock_apply :: "bedrock_state \<Rightarrow> json \<Rightarrow> bedrock_state" where
  "bedrock_apply s item =
     (case as_object item of
        None \<Rightarrow> s
      | Some event \<Rightarrow>
          let s = bedrock_message_start event s;
              s = bedrock_block_start event s;
              s = bedrock_block_delta event s;
              s = bedrock_message_stop event s;
              s = bedrock_metadata event s;
              s = bedrock_output item event s
          in s\<lparr>bed_out := copy_field ''error'' event (bed_out s)\<rparr>)"

definition bedrock_finish :: "bedrock_state \<Rightarrow> json \<times> bedrock_state" where
  "bedrock_finish s =
     (let s = (if bed_content_blocks s \<noteq> []
               then s\<lparr>bed_message := bt_insert ''content'' (collect_values (bed_content_blocks s)) (bed_message s),
                      bed_content_blocks := bt_empty\<rparr>
               else s);
          s = (if bed_message s \<noteq> [] \<and> \<not> bt_contains (bed_out s) ''output''
               then s\<lparr>bed_out := bt_insert ''output''
                        (JObject (bt_insert ''message'' (JObject (bed_message s)) bt_empty)) (bed_out s),
                      bed_message := bt_empty\<rparr>
               else s)
      in (pick_value (JObject (bed_out s)) bedrock_keys, s\<lparr>bed_out := bt_empty\<rparr>))"

section \<open>The batch function\<close>

definition aggregate_bedrock_start :: "jmap \<Rightarrow> blocks \<Rightarrow> blocks" where
  "aggregate_bedrock_start event content_blocks =
     (case get_object event ''contentBlockStart'' of
        Some block_start \<Rightarrow>
          let index = index_or block_start ''contentBlockIndex'' (usize_as_i64 (length content_blocks));
              block = entry_or content_blocks index bt_empty;
              block = (case get_object block_start ''start'' of
                         Some start \<Rightarrow> bt_extend block start | None \<Rightarrow> block)
          in bt_insert index block content_blocks
      | None \<Rightarrow> content_blocks)"

definition aggregate_bedrock_delta :: "jmap \<Rightarrow> blocks \<Rightarrow> blocks" where
  "aggregate_bedrock_delta event content_blocks =
     (case get_object event ''contentBlockDelta'' of
        Some block_delta \<Rightarrow>
          let index = index_or block_delta ''contentBlockIndex'' (usize_as_i64 (length content_blocks));
              block = entry_or content_blocks index bt_empty;
              block = (case get_object block_delta ''delta'' of
                         Some delta \<Rightarrow> merge_bedrock_content_delta block delta
                       | None \<Rightarrow> block)
          in bt_insert index block content_blocks
      | None \<Rightarrow> content_blocks)"

definition aggregate_bedrock_out :: "json \<Rightarrow> jmap \<Rightarrow> jmap \<Rightarrow> jmap" where
  "aggregate_bedrock_out item event out =
     (let out = (case get_object event ''messageStop'' of
                   Some message_stop \<Rightarrow> copy_field ''stopReason'' message_stop out
                 | None \<Rightarrow> out);
          out = (case get_object event ''metadata'' of
                   Some metadata \<Rightarrow> copy_field ''usage'' metadata out
                 | None \<Rightarrow> out);
          out = (if bt_get event ''output'' \<noteq> None
                 then merge_value_object out (pick_value item bedrock_keys) else out)
      in copy_field ''error'' event out)"

fun aggregate_bedrock_item :: "jmap \<times> jmap \<times> blocks \<Rightarrow> json \<Rightarrow> jmap \<times> jmap \<times> blocks" where
  "aggregate_bedrock_item (out, message, content_blocks) item =
     (case as_object item of
        None \<Rightarrow> (out, message, content_blocks)
      | Some event \<Rightarrow>
          let message = (case get_object event ''messageStart'' of
                           Some message_start \<Rightarrow> copy_field ''role'' message_start message
                         | None \<Rightarrow> message);
              content_blocks = aggregate_bedrock_start event content_blocks;
              content_blocks = aggregate_bedrock_delta event content_blocks;
              out = aggregate_bedrock_out item event out
          in (out, message, content_blocks))"

fun aggregate_bedrock_result :: "jmap \<times> jmap \<times> blocks \<Rightarrow> json" where
  "aggregate_bedrock_result (out, message, content_blocks) =
     (let message = (if content_blocks \<noteq> []
                     then bt_insert ''content'' (collect_values content_blocks) message else message);
          out = (if message \<noteq> [] \<and> \<not> bt_contains out ''output''
                 then bt_insert ''output'' (JObject (bt_insert ''message'' (JObject message) bt_empty)) out
                 else out)
      in pick_value (JObject out) bedrock_keys)"

definition aggregate_bedrock_converse_stream :: "json \<Rightarrow> json" where
  "aggregate_bedrock_converse_stream value =
     (case as_array value of
        None \<Rightarrow> pick_value value bedrock_keys
      | Some items \<Rightarrow>
          aggregate_bedrock_result
            (foldl aggregate_bedrock_item (bt_empty, bt_empty, bt_empty) items))"

section \<open>The contract holds\<close>

definition bedrock_locals :: "bedrock_state \<Rightarrow> jmap \<times> jmap \<times> blocks" where
  "bedrock_locals s = (bed_out s, bed_message s, bed_content_blocks s)"

lemma bedrock_message_start_fields:
  "bed_out (bedrock_message_start event s) = bed_out s"
  "bed_content_blocks (bedrock_message_start event s) = bed_content_blocks s"
  "bed_message (bedrock_message_start event s) = (case get_object event ''messageStart'' of
     Some message_start \<Rightarrow> copy_field ''role'' message_start (bed_message s) | None \<Rightarrow> bed_message s)"
  by (simp_all add: bedrock_message_start_def split: option.splits)

lemma bedrock_blocks_fields:
  "bed_out (bedrock_block_start event s) = bed_out s"
  "bed_message (bedrock_block_start event s) = bed_message s"
  "bed_content_blocks (bedrock_block_start event s) = aggregate_bedrock_start event (bed_content_blocks s)"
  "bed_out (bedrock_block_delta event s) = bed_out s"
  "bed_message (bedrock_block_delta event s) = bed_message s"
  "bed_content_blocks (bedrock_block_delta event s) = aggregate_bedrock_delta event (bed_content_blocks s)"
  by (simp_all add: bedrock_block_start_def bedrock_block_delta_def aggregate_bedrock_start_def
      aggregate_bedrock_delta_def Let_def split: option.splits)

lemma bedrock_out_fields:
  "bed_message (bedrock_output item event (bedrock_metadata event (bedrock_message_stop event s))) = bed_message s"
  "bed_content_blocks (bedrock_output item event (bedrock_metadata event (bedrock_message_stop event s)))
     = bed_content_blocks s"
  "copy_field ''error'' event (bed_out (bedrock_output item event (bedrock_metadata event (bedrock_message_stop event s))))
     = aggregate_bedrock_out item event (bed_out s)"
  by (simp_all add: bedrock_output_def bedrock_metadata_def bedrock_message_stop_def
      aggregate_bedrock_out_def Let_def split: option.splits)

lemma bedrock_apply_locals:
  "bedrock_locals (bedrock_apply s e) = aggregate_bedrock_item (bedrock_locals s) e"
  by (cases e) (simp_all add: bedrock_apply_def bedrock_locals_def Let_def
      bedrock_message_start_fields bedrock_blocks_fields bedrock_out_fields)

lemma wf_blocks_get_object_case:
  "wf_map obj \<Longrightarrow> wf_blocks bs \<Longrightarrow> (\<And>d. wf_map d \<Longrightarrow> wf_blocks (f d)) \<Longrightarrow>
    wf_blocks (case get_object obj k of Some d \<Rightarrow> f d | None \<Rightarrow> bs)"
  by (auto dest: get_object_wf split: option.splits)

lemma aggregate_bedrock_blocks_wf:
  assumes "wf_map event" and "wf_blocks bs"
  shows "wf_blocks (aggregate_bedrock_start event bs)" "wf_blocks (aggregate_bedrock_delta event bs)"
  unfolding aggregate_bedrock_start_def aggregate_bedrock_delta_def Let_def
  by (intro wf_blocks_get_object_case wf_intros assms; assumption)+

lemma aggregate_bedrock_out_wf:
  assumes "wf_map event" and "wf_json item" and "wf_map out"
  shows "wf_map (aggregate_bedrock_out item event out)"
  unfolding aggregate_bedrock_out_def Let_def by (intro wf_intros assms)

lemma aggregate_bedrock_item_ok:
  "ok_out_map_blocks l \<Longrightarrow> wf_json item \<Longrightarrow> ok_out_map_blocks (aggregate_bedrock_item l item)"
  by (cases l; cases item)
     (auto simp: Let_def intro!: aggregate_bedrock_blocks_wf aggregate_bedrock_out_wf copy_field_wf
        dest: get_object_wf split: option.splits)

interpretation bedrock: stream_aggregator bedrock_new bedrock_apply bedrock_finish
  "(bt_empty, bt_empty, bt_empty)" aggregate_bedrock_item aggregate_bedrock_result
  bedrock_locals ok_out_map_blocks
proof
  show "bedrock_locals bedrock_new = (bt_empty, bt_empty, bt_empty)"
    by (simp add: bedrock_new_def bedrock_locals_def)
next
  fix s :: bedrock_state
  show "fst (bedrock_finish s) = aggregate_bedrock_result (bedrock_locals s)"
    by (simp add: bedrock_finish_def bedrock_locals_def Let_def)
next
  fix l :: "jmap \<times> jmap \<times> blocks"
  assume "ok_out_map_blocks l"
  then show "wf_json (aggregate_bedrock_result l)"
    by (cases l) (auto simp: Let_def simp del: pick_value.simps bt_insert.simps
        intro!: pick_value_wf wf_json_objectI wf_map_insert collect_values_wf wf_map_empty)
qed (simp_all only: bedrock_apply_locals aggregate_bedrock_item_ok
      ok_out_map_blocks.simps wf_map_empty wf_blocks_empty simp_thms)

end
