(* ===== verification/Stream_Cohere.thy ===== *)
theory Stream_Cohere
  imports Aggregator
begin

text \<open>
  Cohere chat: \<^verbatim>\<open>CohereChatStreamState\<close> and
  \<^verbatim>\<open>aggregate_cohere_chat_stream\<close>.
\<close>

definition cohere_keys :: "string list" where
  "cohere_keys = [''message'', ''text'', ''finish_reason'', ''usage'', ''error'']"

definition or_else :: "'a option \<Rightarrow> 'a option \<Rightarrow> 'a option" where
  "or_else x y = (case x of Some v \<Rightarrow> Some v | None \<Rightarrow> y)"

definition cohere_event_type :: "jmap \<Rightarrow> string" where
  "cohere_event_type event =
     (case Option.bind (or_else (or_else (bt_get event ''type'') (bt_get event ''event_type''))
             (bt_get event ''eventType'')) as_str of
        Some t \<Rightarrow> t | None \<Rightarrow> [])"

definition cohere_text_content :: "string \<Rightarrow> json" where
  "cohere_text_content text =
     JArray [JObject (bt_insert ''text'' (JString text) (bt_insert ''type'' (JString ''text'') bt_empty))]"

section \<open>The streaming state\<close>

record cohere_state =
  coh_out :: jmap
  coh_message :: jmap
  coh_content_blocks :: blocks
  coh_text :: string

definition cohere_new :: cohere_state where
  "cohere_new = \<lparr>coh_out = bt_empty, coh_message = bt_empty, coh_content_blocks = bt_empty, coh_text = []\<rparr>"

text \<open>The consecutive statements of \<^verbatim>\<open>apply\<close>, each on the event and the state.\<close>

definition cohere_response :: "jmap \<Rightarrow> cohere_state \<Rightarrow> cohere_state" where
  "cohere_response event s =
     (case bt_get event ''response'' of
        Some response \<Rightarrow> s\<lparr>coh_out := merge_value_object (coh_out s) (pick_value response cohere_keys)\<rparr>
      | None \<Rightarrow> s)"

definition cohere_delta_message :: "jmap \<Rightarrow> cohere_state \<Rightarrow> cohere_state" where
  "cohere_delta_message delta s =
     (case bt_get delta ''message'' of
        Some raw_message \<Rightarrow>
          (case merge_cohere_message_delta (coh_message s) (coh_content_blocks s) raw_message of
             (message, content_blocks) \<Rightarrow> s\<lparr>coh_message := message, coh_content_blocks := content_blocks\<rparr>)
      | None \<Rightarrow> s)"

definition cohere_finish_reason :: "jmap \<Rightarrow> cohere_state \<Rightarrow> cohere_state" where
  "cohere_finish_reason event s =
     (case bt_get event ''finish_reason'' of
        Some finish_reason \<Rightarrow>
          s\<lparr>coh_out := bt_insert ''finish_reason'' finish_reason (coh_out s),
            coh_message := bt_insert ''finish_reason'' finish_reason (coh_message s)\<rparr>
      | None \<Rightarrow> s)"

definition cohere_delta :: "jmap \<Rightarrow> string \<Rightarrow> cohere_state \<Rightarrow> cohere_state" where
  "cohere_delta event event_type s =
     (case get_object event ''delta'' of
        Some delta \<Rightarrow>
          let s = cohere_delta_message delta s
          in if event_type = ''message-end'' then
               (let s = cohere_finish_reason delta s
                in s\<lparr>coh_out := copy_field ''usage'' delta (coh_out s)\<rparr>)
             else s
      | None \<Rightarrow> s)"

definition cohere_text :: "jmap \<Rightarrow> string \<Rightarrow> cohere_state \<Rightarrow> cohere_state" where
  "cohere_text event event_type s =
     (if event_type = ''text-generation''
      then (case get_str event ''text'' of
              Some piece \<Rightarrow> s\<lparr>coh_text := coh_text s @ piece\<rparr>
            | None \<Rightarrow> s)
      else s)"

definition cohere_apply :: "cohere_state \<Rightarrow> json \<Rightarrow> cohere_state" where
  "cohere_apply s item =
     (case as_object item of
        None \<Rightarrow> s
      | Some event \<Rightarrow>
          let event_type = cohere_event_type event;
              s = cohere_response event s;
              s = cohere_delta event event_type s;
              s = cohere_text event event_type s;
              s = cohere_finish_reason event s
          in s\<lparr>coh_out := copy_field ''error'' event (coh_out s)\<rparr>)"

definition cohere_finish :: "cohere_state \<Rightarrow> json \<times> cohere_state" where
  "cohere_finish s =
     (let s = (if coh_content_blocks s \<noteq> []
               then s\<lparr>coh_message := bt_insert ''content'' (collect_values (coh_content_blocks s)) (coh_message s),
                      coh_content_blocks := bt_empty\<rparr>
               else if coh_text s \<noteq> []
               then s\<lparr>coh_message := bt_insert ''content'' (cohere_text_content (coh_text s)) (coh_message s),
                      coh_out := bt_insert ''text'' (JString (coh_text s)) (coh_out s),
                      coh_text := []\<rparr>
               else s);
          s = (if coh_message s \<noteq> [] \<and> \<not> bt_contains (coh_out s) ''message''
               then s\<lparr>coh_out := bt_insert ''message'' (JObject (coh_message s)) (coh_out s),
                      coh_message := bt_empty\<rparr>
               else s)
      in (pick_value (JObject (coh_out s)) cohere_keys, s\<lparr>coh_out := bt_empty\<rparr>))"

section \<open>The batch function\<close>

type_synonym cohere_locals = "jmap \<times> jmap \<times> blocks \<times> string"

fun aggregate_cohere_delta :: "jmap \<Rightarrow> string \<Rightarrow> jmap \<times> jmap \<times> blocks \<Rightarrow> jmap \<times> jmap \<times> blocks" where
  "aggregate_cohere_delta event event_type (out, message, content_blocks) =
     (case get_object event ''delta'' of
        Some delta \<Rightarrow>
          let mb = (case bt_get delta ''message'' of
                      Some raw_message \<Rightarrow> merge_cohere_message_delta message content_blocks raw_message
                    | None \<Rightarrow> (message, content_blocks));
              message = fst mb;
              content_blocks = snd mb
          in if event_type = ''message-end'' then
               (let om = (case bt_get delta ''finish_reason'' of
                            Some finish_reason \<Rightarrow>
                              (bt_insert ''finish_reason'' finish_reason out,
                               bt_insert ''finish_reason'' finish_reason message)
                          | None \<Rightarrow> (out, message))
                in (copy_field ''usage'' delta (fst om), snd om, content_blocks))
             else (out, message, content_blocks)
      | None \<Rightarrow> (out, message, content_blocks))"

fun aggregate_cohere_item :: "cohere_locals \<Rightarrow> json \<Rightarrow> cohere_locals" where
  "aggregate_cohere_item (out, message, content_blocks, text) item =
     (case as_object item of
        None \<Rightarrow> (out, message, content_blocks, text)
      | Some event \<Rightarrow>
          let event_type = cohere_event_type event;
              out = (case bt_get event ''response'' of
                       Some response \<Rightarrow> merge_value_object out (pick_value response cohere_keys)
                     | None \<Rightarrow> out)
          in (case aggregate_cohere_delta event event_type (out, message, content_blocks) of
                (out, message, content_blocks) \<Rightarrow>
                  let text = (if event_type = ''text-generation''
                              then (case get_str event ''text'' of
                                      Some piece \<Rightarrow> text @ piece | None \<Rightarrow> text)
                              else text);
                      om = (case bt_get event ''finish_reason'' of
                              Some finish_reason \<Rightarrow>
                                (bt_insert ''finish_reason'' finish_reason out,
                                 bt_insert ''finish_reason'' finish_reason message)
                            | None \<Rightarrow> (out, message))
                  in (copy_field ''error'' event (fst om), snd om, content_blocks, text)))"

fun aggregate_cohere_result :: "cohere_locals \<Rightarrow> json" where
  "aggregate_cohere_result (out, message, content_blocks, text) =
     (let message' = (if content_blocks \<noteq> []
                      then bt_insert ''content'' (collect_values content_blocks) message
                      else if text \<noteq> []
                      then bt_insert ''content'' (cohere_text_content text) message
                      else message);
          out = (if content_blocks = [] \<and> text \<noteq> []
                 then bt_insert ''text'' (JString text) out else out);
          out = (if message' \<noteq> [] \<and> \<not> bt_contains out ''message''
                 then bt_insert ''message'' (JObject message') out else out)
      in pick_value (JObject out) cohere_keys)"

definition aggregate_cohere_chat_stream :: "json \<Rightarrow> json" where
  "aggregate_cohere_chat_stream value =
     (case as_array value of
        None \<Rightarrow> pick_value value cohere_keys
      | Some items \<Rightarrow>
          aggregate_cohere_result
            (foldl aggregate_cohere_item (bt_empty, bt_empty, bt_empty, []) items))"

section \<open>The contract holds\<close>

definition cohere_locals_of :: "cohere_state \<Rightarrow> cohere_locals" where
  "cohere_locals_of s = (coh_out s, coh_message s, coh_content_blocks s, coh_text s)"

fun ok_cohere :: "cohere_locals \<Rightarrow> bool" where
  "ok_cohere (out, message, bs, text) \<longleftrightarrow> ok_out_map_blocks (out, message, bs)"

lemma cohere_response_fields:
  "cohere_locals_of (cohere_response event s) =
     ((case bt_get event ''response'' of
         Some response \<Rightarrow> merge_value_object (coh_out s) (pick_value response cohere_keys)
       | None \<Rightarrow> coh_out s), coh_message s, coh_content_blocks s, coh_text s)"
  by (simp add: cohere_locals_of_def cohere_response_def split: option.splits)

lemma cohere_delta_fields:
  "cohere_locals_of (cohere_delta event t s) =
     (case aggregate_cohere_delta event t (coh_out s, coh_message s, coh_content_blocks s) of
        (out, message, bs) \<Rightarrow> (out, message, bs, coh_text s))"
  by (auto simp: cohere_locals_of_def cohere_delta_def cohere_delta_message_def cohere_finish_reason_def
      Let_def split: option.splits prod.splits)

lemma cohere_rest_fields:
  "cohere_locals_of (cohere_finish_reason event (cohere_text event t s)) =
     ((case bt_get event ''finish_reason'' of
         Some r \<Rightarrow> bt_insert ''finish_reason'' r (coh_out s) | None \<Rightarrow> coh_out s),
      (case bt_get event ''finish_reason'' of
         Some r \<Rightarrow> bt_insert ''finish_reason'' r (coh_message s) | None \<Rightarrow> coh_message s),
      coh_content_blocks s,
      (if t = ''text-generation'' then
         (case get_str event ''text'' of Some piece \<Rightarrow> coh_text s @ piece | None \<Rightarrow> coh_text s)
       else coh_text s))"
  by (simp add: cohere_locals_of_def cohere_finish_reason_def cohere_text_def split: option.splits)

lemma cohere_locals_proj:
  "coh_out s = fst (cohere_locals_of s)" "coh_message s = fst (snd (cohere_locals_of s))"
  "coh_content_blocks s = fst (snd (snd (cohere_locals_of s)))" "coh_text s = snd (snd (snd (cohere_locals_of s)))"
  by (simp_all add: cohere_locals_of_def)

lemma cohere_apply_locals:
  "cohere_locals_of (cohere_apply s e) = aggregate_cohere_item (cohere_locals_of s) e"
proof (cases e)
  case (JObject event)
  define s1 where "s1 = cohere_response event s"
  define s2 where "s2 = cohere_delta event (cohere_event_type event) s1"
  define s3 where "s3 = cohere_finish_reason event (cohere_text event (cohere_event_type event) s2)"
  have apply_eq: "cohere_apply s e = s3\<lparr>coh_out := copy_field ''error'' event (coh_out s3)\<rparr>"
    by (simp add: JObject cohere_apply_def s1_def s2_def s3_def Let_def)
  note l1 = cohere_response_fields [of event s, folded s1_def]
  note l2 = cohere_delta_fields [of event "cohere_event_type event" s1, folded s2_def]
  note l3 = cohere_rest_fields [of event "cohere_event_type event" s2, folded s3_def]
  obtain out message bs where
    d: "aggregate_cohere_delta event (cohere_event_type event)
          (coh_out s1, coh_message s1, coh_content_blocks s1) = (out, message, bs)"
    by (metis prod_cases3)
  from l2 d have f2: "coh_out s2 = out" "coh_message s2 = message" "coh_content_blocks s2 = bs"
    "coh_text s2 = coh_text s1" by (simp_all add: cohere_locals_proj)
  note f3 = l3 [unfolded f2]
  from l1 have f1: "coh_message s1 = coh_message s" "coh_content_blocks s1 = coh_content_blocks s"
    "coh_text s1 = coh_text s" "coh_out s1 = (case bt_get event ''response'' of
         Some response \<Rightarrow> merge_value_object (coh_out s) (pick_value response cohere_keys)
       | None \<Rightarrow> coh_out s)" by (simp_all add: cohere_locals_of_def)
  have upd: "cohere_locals_of (s3\<lparr>coh_out := copy_field ''error'' event (coh_out s3)\<rparr>)
      = (copy_field ''error'' event (fst (cohere_locals_of s3)), snd (cohere_locals_of s3))"
    by (simp add: cohere_locals_of_def)
  have item: "aggregate_cohere_item (cohere_locals_of s) (JObject event)
      = (copy_field ''error'' event (fst (cohere_locals_of s3)), snd (cohere_locals_of s3))"
    unfolding f3 cohere_locals_of_def [of s] aggregate_cohere_item.simps as_object.simps option.simps
      Let_def f1 [symmetric] d prod.case
    by (simp split: option.split)
  show ?thesis using upd item by (simp only: apply_eq) (simp only: JObject)
qed (simp_all add: cohere_apply_def cohere_locals_of_def)

lemma aggregate_cohere_delta_ok:
  assumes "wf_map event" and "ok_out_map_blocks (out, message, bs)"
  shows "ok_out_map_blocks (aggregate_cohere_delta event t (out, message, bs))"
proof (cases "get_object event ''delta''")
  case (Some delta)
  with assms(1) have d: "wf_map delta" by (rule get_object_wf)
  define mb where "mb = (case bt_get delta ''message'' of
      Some raw_message \<Rightarrow> merge_cohere_message_delta message bs raw_message | None \<Rightarrow> (message, bs))"
  have "wf_map (fst mb)" "wf_blocks (snd mb)"
    using assms(2) d merge_cohere_message_delta_wf [of message bs]
    by (auto simp: mb_def dest: wf_map_get split: option.splits)
  with Some assms(2) d show ?thesis
    by (cases mb) (auto simp: mb_def [symmetric] Let_def intro!: copy_field_wf wf_map_insert
        dest: wf_map_get split: option.splits)
qed (use assms in simp)

lemma aggregate_cohere_item_ok:
  assumes "ok_cohere l" and "wf_json item"
  shows "ok_cohere (aggregate_cohere_item l item)"
proof (cases item)
  case (JObject event)
  obtain out message bs tx where l: "l = (out, message, bs, tx)" by (cases l)
  from JObject l assms have w: "wf_map event" "wf_map out" "wf_map message" "wf_blocks bs" by simp_all
  define out1 where "out1 = (case bt_get event ''response'' of
      Some response \<Rightarrow> merge_value_object out (pick_value response cohere_keys) | None \<Rightarrow> out)"
  have "wf_map out1" unfolding out1_def by (intro wf_intros w)
  with w have ok: "ok_out_map_blocks (aggregate_cohere_delta event (cohere_event_type event) (out1, message, bs))"
    by (intro aggregate_cohere_delta_ok) simp_all
  obtain out2 message2 bs2 where
    d: "aggregate_cohere_delta event (cohere_event_type event) (out1, message, bs) = (out2, message2, bs2)"
    by (metis prod_cases3)
  with ok have "wf_map out2" "wf_map message2" "wf_blocks bs2" by simp_all
  then show ?thesis
    unfolding JObject l aggregate_cohere_item.simps as_object.simps option.simps Let_def
      out1_def [symmetric] d prod.case
    using w by (auto intro!: copy_field_wf wf_map_insert dest: wf_map_get split: option.splits)
qed (use assms in \<open>cases l; simp\<close>)+

lemma cohere_text_content_wf: "wf_json (cohere_text_content text)"
  unfolding cohere_text_content_def
  by (simp del: bt_insert.simps add: wf_map_insert)

interpretation cohere: stream_aggregator cohere_new cohere_apply cohere_finish
  "(bt_empty, bt_empty, bt_empty, [])" aggregate_cohere_item aggregate_cohere_result
  cohere_locals_of ok_cohere
proof
  show "cohere_locals_of cohere_new = (bt_empty, bt_empty, bt_empty, [])"
    by (simp add: cohere_new_def cohere_locals_of_def)
next
  fix s :: cohere_state
  show "fst (cohere_finish s) = aggregate_cohere_result (cohere_locals_of s)"
    by (simp add: cohere_finish_def cohere_locals_of_def Let_def)
next
  fix l :: cohere_locals
  assume "ok_cohere l"
  then show "wf_json (aggregate_cohere_result l)"
    by (cases l) (auto simp: Let_def simp del: pick_value.simps bt_insert.simps
        intro!: pick_value_wf wf_json_objectI wf_map_insert collect_values_wf cohere_text_content_wf
          wf_json_stringI)
qed (simp_all only: cohere_apply_locals aggregate_cohere_item_ok ok_cohere.simps
      ok_out_map_blocks.simps wf_map_empty wf_blocks_empty simp_thms)

end
