(* ===== verification/Views.thy ===== *)
theory Views
  imports Statement Stream_Chat Stream_Responses Stream_Anthropic Stream_Gemini Stream_Dashscope
    Stream_Bedrock Stream_Cohere
begin

text \<open>
  The views of a request or response that the claims are built from: the per-protocol
  \<^verbatim>\<open>*_view\<close> functions, the match of \<^verbatim>\<open>field_view\<close>, and the sum type
  \<^verbatim>\<open>StreamFieldState\<close> of the streaming aggregators.

  The main result is that for every supported protocol the streaming state ends with the view that
  \<^verbatim>\<open>field_view\<close> gives for the list of all events.
\<close>

section \<open>Supported protocols\<close>

definition SUPPORTED_PROTOCOLS :: "string list" where
  "SUPPORTED_PROTOCOLS =
     [''openai.chat_completions'', ''openai.responses'', ''anthropic.messages'',
      ''google.gemini.generate_content'', ''alibaba.dashscope.generation'',
      ''aws.bedrock.converse'', ''cohere.chat'']"

section \<open>Views\<close>

definition openai_chat_keys :: "string list" where
  "openai_chat_keys = [''model'', ''choices'', ''usage'', ''error'']"

definition openai_responses_view :: "string \<Rightarrow> json \<Rightarrow> json" where
  "openai_responses_view kind parsed =
     (if kind = ''request'' then pick_value parsed [''model'', ''input'']
      else if is_array parsed then aggregate_openai_responses_stream parsed
      else pick_value parsed responses_keys)"

definition anthropic_messages_view :: "string \<Rightarrow> json \<Rightarrow> json" where
  "anthropic_messages_view kind parsed =
     (if kind = ''request'' then pick_value parsed [''model'', ''messages'', ''system'']
      else if is_array parsed then aggregate_anthropic_messages_stream parsed
      else pick_value parsed anthropic_keys)"

definition gemini_model_from_path :: "string \<Rightarrow> string option" where
  "gemini_model_from_path path =
     (let parts = split_on (CHR ''/'') (path_no_query path)
      in case position (\<lambda>part. part = ''models'') parts of
           None \<Rightarrow> None
         | Some model_idx \<Rightarrow>
             if model_idx + 1 < length parts
             then let raw = hd (split_on (CHR '':'') (parts ! (model_idx + 1)))
                  in if raw = [] then None else Some raw
             else None)"

definition gemini_generate_content_request_view :: "json \<Rightarrow> string option \<Rightarrow> json" where
  "gemini_generate_content_request_view parsed upstream_path =
     (case pick_value parsed [''model'', ''contents'', ''systemInstruction''] of
        JObject out \<Rightarrow>
          JObject (if \<not> bt_contains out ''model''
                   then (case Option.bind upstream_path gemini_model_from_path of
                           Some model \<Rightarrow> bt_insert ''model'' (JString model) out
                         | None \<Rightarrow> out)
                   else out)
      | view \<Rightarrow> view)"

definition gemini_generate_content_view :: "string \<Rightarrow> json \<Rightarrow> json" where
  "gemini_generate_content_view kind parsed =
     (if kind = ''request'' then gemini_generate_content_request_view parsed None
      else if is_array parsed then aggregate_gemini_generate_content_stream parsed
      else pick_value parsed gemini_keys)"

definition dashscope_generation_view :: "string \<Rightarrow> json \<Rightarrow> json" where
  "dashscope_generation_view kind parsed =
     (if kind = ''request'' then pick_value parsed [''model'', ''input'', ''system'', ''messages'']
      else if is_array parsed then aggregate_dashscope_generation_stream parsed
      else pick_value parsed dashscope_keys)"

definition bedrock_model_id_from_path :: "string \<Rightarrow> string option" where
  "bedrock_model_id_from_path path =
     (let parts = split_on (CHR ''/'') (path_no_query path)
      in case position (\<lambda>part. part = ''model'') parts of
           None \<Rightarrow> None
         | Some model_idx \<Rightarrow>
             if length parts \<le> model_idx + 2 then None
             else let operation = to_ascii_lowercase (parts ! (model_idx + 2))
                  in if operation \<noteq> ''converse'' \<and> operation \<noteq> ''converse-stream'' then None
                     else let model_id = parts ! (model_idx + 1)
                          in if model_id = [] then None else Some model_id)"

definition bedrock_converse_request_view :: "json \<Rightarrow> string option \<Rightarrow> json" where
  "bedrock_converse_request_view parsed upstream_path =
     (case pick_value parsed [''modelId'', ''messages'', ''system''] of
        JObject out \<Rightarrow>
          JObject (if \<not> bt_contains out ''modelId''
                   then (case Option.bind upstream_path bedrock_model_id_from_path of
                           Some model_id \<Rightarrow> bt_insert ''modelId'' (JString model_id) out
                         | None \<Rightarrow> out)
                   else out)
      | view \<Rightarrow> view)"

definition bedrock_converse_view :: "string \<Rightarrow> json \<Rightarrow> json" where
  "bedrock_converse_view kind parsed =
     (if kind = ''request'' then bedrock_converse_request_view parsed None
      else if is_array parsed then aggregate_bedrock_converse_stream parsed
      else pick_value parsed bedrock_keys)"

definition cohere_chat_view :: "string \<Rightarrow> json \<Rightarrow> json" where
  "cohere_chat_view kind parsed =
     (if kind = ''request'' then pick_value parsed [''model'', ''messages'', ''message'']
      else if is_array parsed then aggregate_cohere_chat_stream parsed
      else pick_value parsed cohere_keys)"

text \<open>The match of \<^verbatim>\<open>field_view\<close> on the parsed body.\<close>

definition parsed_view :: "string \<Rightarrow> string \<Rightarrow> json \<Rightarrow> string option \<Rightarrow> json" where
  "parsed_view protocol kind parsed upstream_path =
     (if protocol = ''openai.chat_completions'' \<and> kind = ''request''
        then pick_value parsed [''model'', ''messages'']
      else if protocol = ''openai.chat_completions'' \<and> kind = ''response''
        then (if is_array parsed then aggregate_openai_chat_stream parsed
              else pick_value parsed openai_chat_keys)
      else if protocol = ''openai.responses'' \<and> kind = ''request''
        then pick_value parsed [''model'', ''input'']
      else if protocol = ''openai.responses'' \<and> kind = ''response''
        then openai_responses_view ''response'' parsed
      else if protocol = ''anthropic.messages'' then anthropic_messages_view kind parsed
      else if protocol = ''google.gemini.generate_content'' \<and> kind = ''request''
        then gemini_generate_content_request_view parsed upstream_path
      else if protocol = ''google.gemini.generate_content'' \<and> kind = ''response''
        then gemini_generate_content_view ''response'' parsed
      else if protocol = ''alibaba.dashscope.generation'' \<and> kind = ''request''
        then pick_value parsed [''model'', ''input'', ''system'', ''messages'']
      else if protocol = ''alibaba.dashscope.generation'' \<and> kind = ''response''
        then dashscope_generation_view ''response'' parsed
      else if protocol = ''aws.bedrock.converse'' \<and> kind = ''request''
        then bedrock_converse_request_view parsed upstream_path
      else if protocol = ''aws.bedrock.converse'' \<and> kind = ''response''
        then bedrock_converse_view ''response'' parsed
      else if protocol = ''cohere.chat'' \<and> kind = ''request''
        then pick_value parsed [''model'', ''messages'', ''message'']
      else if protocol = ''cohere.chat'' \<and> kind = ''response''
        then cohere_chat_view ''response'' parsed
      else parsed)"

section \<open>The streaming states\<close>

datatype stream_field_state =
    OpenAiChat openai_chat_state
  | OpenAiResponses openai_responses_state
  | AnthropicMessages anthropic_messages_state
  | GeminiGenerateContent gemini_state
  | DashscopeGeneration dashscope_state
  | BedrockConverse bedrock_state
  | CohereChat cohere_state

definition stream_state_new :: "string \<Rightarrow> stream_field_state option" where
  "stream_state_new protocol =
     (if protocol = ''openai.chat_completions'' then Some (OpenAiChat openai_chat_new)
      else if protocol = ''openai.responses'' then Some (OpenAiResponses openai_responses_new)
      else if protocol = ''anthropic.messages'' then Some (AnthropicMessages anthropic_messages_new)
      else if protocol = ''google.gemini.generate_content'' then Some (GeminiGenerateContent gemini_new)
      else if protocol = ''alibaba.dashscope.generation'' then Some (DashscopeGeneration dashscope_new)
      else if protocol = ''aws.bedrock.converse'' then Some (BedrockConverse bedrock_new)
      else if protocol = ''cohere.chat'' then Some (CohereChat cohere_new)
      else None)"

fun stream_state_apply :: "stream_field_state \<Rightarrow> json \<Rightarrow> stream_field_state" where
  "stream_state_apply (OpenAiChat s) event = OpenAiChat (openai_chat_apply s event)"
| "stream_state_apply (OpenAiResponses s) event = OpenAiResponses (openai_responses_apply s event)"
| "stream_state_apply (AnthropicMessages s) event = AnthropicMessages (anthropic_messages_apply s event)"
| "stream_state_apply (GeminiGenerateContent s) event = GeminiGenerateContent (gemini_apply s event)"
| "stream_state_apply (DashscopeGeneration s) event = DashscopeGeneration (dashscope_apply s event)"
| "stream_state_apply (BedrockConverse s) event = BedrockConverse (bedrock_apply s event)"
| "stream_state_apply (CohereChat s) event = CohereChat (cohere_apply s event)"

fun stream_state_finish :: "stream_field_state \<Rightarrow> json \<times> stream_field_state" where
  "stream_state_finish (OpenAiChat s) = map_prod id OpenAiChat (openai_chat_finish s)"
| "stream_state_finish (OpenAiResponses s) = map_prod id OpenAiResponses (openai_responses_finish s)"
| "stream_state_finish (AnthropicMessages s) = map_prod id AnthropicMessages (anthropic_messages_finish s)"
| "stream_state_finish (GeminiGenerateContent s) = map_prod id GeminiGenerateContent (gemini_finish s)"
| "stream_state_finish (DashscopeGeneration s) = map_prod id DashscopeGeneration (dashscope_finish s)"
| "stream_state_finish (BedrockConverse s) = map_prod id BedrockConverse (bedrock_finish s)"
| "stream_state_finish (CohereChat s) = map_prod id CohereChat (cohere_finish s)"

section \<open>Streaming and batch views agree\<close>

lemma foldl_stream_state_apply:
  "foldl stream_state_apply (OpenAiChat a) es = OpenAiChat (foldl openai_chat_apply a es)"
  "foldl stream_state_apply (OpenAiResponses b) es = OpenAiResponses (foldl openai_responses_apply b es)"
  "foldl stream_state_apply (AnthropicMessages c) es = AnthropicMessages (foldl anthropic_messages_apply c es)"
  "foldl stream_state_apply (GeminiGenerateContent d) es = GeminiGenerateContent (foldl gemini_apply d es)"
  "foldl stream_state_apply (DashscopeGeneration e) es = DashscopeGeneration (foldl dashscope_apply e es)"
  "foldl stream_state_apply (BedrockConverse f) es = BedrockConverse (foldl bedrock_apply f es)"
  "foldl stream_state_apply (CohereChat g) es = CohereChat (foldl cohere_apply g es)"
  by (induction es arbitrary: a b c d e f g) simp_all

lemma aggregate_streams:
  "aggregate_openai_chat_stream (JArray es) = fst (openai_chat_finish (foldl openai_chat_apply openai_chat_new es))"
  "aggregate_openai_responses_stream (JArray es)
     = fst (openai_responses_finish (foldl openai_responses_apply openai_responses_new es))"
  "aggregate_anthropic_messages_stream (JArray es)
     = fst (anthropic_messages_finish (foldl anthropic_messages_apply anthropic_messages_new es))"
  "aggregate_gemini_generate_content_stream (JArray es) = fst (gemini_finish (foldl gemini_apply gemini_new es))"
  "aggregate_dashscope_generation_stream (JArray es)
     = fst (dashscope_finish (foldl dashscope_apply dashscope_new es))"
  "aggregate_bedrock_converse_stream (JArray es) = fst (bedrock_finish (foldl bedrock_apply bedrock_new es))"
  "aggregate_cohere_chat_stream (JArray es) = fst (cohere_finish (foldl cohere_apply cohere_new es))"
  by (simp_all add: aggregate_openai_chat_stream_def chat.batch_eq_stream
      aggregate_openai_responses_stream_def responses.batch_eq_stream
      aggregate_anthropic_messages_stream_def anthropic.batch_eq_stream
      aggregate_gemini_generate_content_stream_def gemini.batch_eq_stream
      aggregate_dashscope_generation_stream_def dashscope.batch_eq_stream
      aggregate_bedrock_converse_stream_def bedrock.batch_eq_stream
      aggregate_cohere_chat_stream_def cohere.batch_eq_stream)

lemma stream_state_new_Some:
  "stream_state_new protocol = Some s \<Longrightarrow> protocol \<in> set SUPPORTED_PROTOCOLS"
  by (auto simp: stream_state_new_def SUPPORTED_PROTOCOLS_def split: if_splits)

lemma stream_view:
  assumes "stream_state_new protocol = Some s"
  shows "fst (stream_state_finish (foldl stream_state_apply s es)) = parsed_view protocol ''response'' (JArray es) path"
proof -
  have arr: "is_array (JArray es)" by (simp add: is_array_def)
  from assms show ?thesis
    by (auto simp: stream_state_new_def foldl_stream_state_apply parsed_view_def arr
        openai_responses_view_def anthropic_messages_view_def gemini_generate_content_view_def
        dashscope_generation_view_def bedrock_converse_view_def cohere_chat_view_def aggregate_streams
        split: if_splits)
qed

lemma parsed_view_wf_array:
  assumes "protocol \<in> set SUPPORTED_PROTOCOLS" and "list_all wf_json es"
  shows "wf_json (parsed_view protocol ''response'' (JArray es) path)"
proof -
  have arr: "is_array (JArray es)" by (simp add: is_array_def)
  from assms show ?thesis
    by (auto simp: SUPPORTED_PROTOCOLS_def parsed_view_def arr
        openai_responses_view_def anthropic_messages_view_def gemini_generate_content_view_def
        dashscope_generation_view_def bedrock_converse_view_def cohere_chat_view_def
        aggregate_openai_chat_stream_def aggregate_openai_responses_stream_def
        aggregate_anthropic_messages_stream_def aggregate_gemini_generate_content_stream_def
        aggregate_dashscope_generation_stream_def aggregate_bedrock_converse_stream_def
        aggregate_cohere_chat_stream_def
        chat.result_wf responses.result_wf anthropic.result_wf gemini.result_wf
        dashscope.result_wf bedrock.result_wf cohere.result_wf)
qed

section \<open>Properties\<close>

text \<open>
  C10: Aggregating while forwarding is aggregating afterwards.  For every supported protocol and
  every list of events, the state that consumed the events one by one ends with the response view
  that \<^verbatim>\<open>field_view\<close> computes from the whole list, although the two are separate code.
\<close>

theorem stream_view_is_field_view:
  assumes "stream_state_new protocol = Some s"
  shows "fst (stream_state_finish (foldl stream_state_apply s events))
    = parsed_view protocol ''response'' (JArray events) path"
  using assms by (rule stream_view)

theorem stream_view_is_field_view_witness:
  "fst (stream_state_finish (foldl stream_state_apply (CohereChat cohere_new)
       [JObject [(''event_type'', JString ''text-generation''), (''text'', JString ''hi'')]]))
    = parsed_view ''cohere.chat'' ''response''
       (JArray [JObject [(''event_type'', JString ''text-generation''), (''text'', JString ''hi'')]]) None"
  by (rule stream_view_is_field_view) (simp add: stream_state_new_def)

end
