(* ===== verification/Sse.thy ===== *)
theory Sse
  imports Statement
begin

text \<open>
  The stream parsers of \<^verbatim>\<open>main.rs\<close>: server-sent events
  (\<^verbatim>\<open>SseEventParser\<close>, incremental, and \<^verbatim>\<open>parse_sse_data\<close>, over a
  complete body) and the AWS event stream (\<^verbatim>\<open>AwsEventStreamParser\<close>).  The callback a
  parser calls for each event is the list of events it returns.

  The locale \<open>chunked_parser\<close> is the contract of an incremental parser: pushing a chunk is
  pushing its pieces.  Its consequence is that the events do not depend on how the network cut the
  body into chunks.  Both parsers interpret it.
\<close>

section \<open>The contract of an incremental parser\<close>

fun push_all :: "('s \<Rightarrow> 'c list \<Rightarrow> 's \<times> 'e list) \<Rightarrow> 's \<Rightarrow> 'c list list \<Rightarrow> 's \<times> 'e list" where
  "push_all push s [] = (s, [])"
| "push_all push s (c # cs) =
     (case push s c of (s1, es) \<Rightarrow> case push_all push s1 cs of (s2, fs) \<Rightarrow> (s2, es @ fs))"

locale chunked_parser =
  fixes push :: "'s \<Rightarrow> 'c list \<Rightarrow> 's \<times> 'e list"
    and ok :: "'s \<Rightarrow> bool"
  assumes push_ok: "ok s \<Longrightarrow> ok (fst (push s c))"
    and push_Nil: "ok s \<Longrightarrow> push s [] = (s, [])"
    and push_append: "ok s \<Longrightarrow> push s (a @ b) = push_all push s [a, b]"
begin

lemma push_all_concat: "ok s \<Longrightarrow> push_all push s cs = push s (concat cs)"
proof (induction cs arbitrary: s)
  case (Cons c cs)
  obtain s1 es where c: "push s c = (s1, es)" by (cases "push s c")
  with Cons.prems push_ok [of s c] have "ok s1" by simp
  with Cons c show ?case by (simp add: push_append split: prod.splits)
qed (simp add: push_Nil)

lemma push_all_same: "ok s \<Longrightarrow> concat cs = concat ds \<Longrightarrow> push_all push s cs = push_all push s ds"
  by (simp add: push_all_concat)

lemma push_all_ok: "ok s \<Longrightarrow> ok (fst (push_all push s cs))"
  by (simp add: push_all_concat push_ok)

end

section \<open>Server-sent events\<close>

record sse_parser =
  sse_pending :: "u8 list"
  sse_data_lines :: "string list"

definition sse_new :: sse_parser where
  "sse_new = \<lparr>sse_pending = [], sse_data_lines = []\<rparr>"

definition invalid_sse_json :: "('x) crypto_scheme \<Rightarrow> string \<Rightarrow> json" where
  "invalid_sse_json X data =
     JObject (bt_insert ''raw_data_sha256'' (JString (sha256_hex X (as_bytes data)))
       (bt_insert ''parse_error'' (JString ''invalid_sse_json'') bt_empty))"

definition sse_flush :: "('x) crypto_scheme \<Rightarrow> sse_parser \<Rightarrow> sse_parser \<times> json list" where
  "sse_flush X p =
     (if sse_data_lines p = [] then (p, [])
      else let data = join [LF] (sse_data_lines p);
               p = p\<lparr>sse_data_lines := []\<rparr>
           in if trim data = [] \<or> trim data = ''[DONE]'' then (p, [])
              else (p, [case from_str X data of Some v \<Rightarrow> v | None \<Rightarrow> invalid_sse_json X data]))"

definition sse_process_line :: "('x) crypto_scheme \<Rightarrow> sse_parser \<Rightarrow> u8 list \<Rightarrow> sse_parser \<times> json list" where
  "sse_process_line X p line =
     (if line = [] then sse_flush X p
      else (case strip_prefix (from_utf8_lossy line) ''data:'' of
              Some rest \<Rightarrow> (p\<lparr>sse_data_lines := sse_data_lines p @ [trim_start rest]\<rparr>, [])
            | None \<Rightarrow> (p, [])))"

definition pop_if_last :: "'a \<Rightarrow> 'a list \<Rightarrow> 'a list" where
  "pop_if_last b line = (if line \<noteq> [] \<and> last line = b then butlast line else line)"

lemma sse_flush_pending: "sse_pending (fst (sse_flush X p)) = sse_pending p"
  by (simp add: sse_flush_def Let_def)

lemma sse_process_line_pending: "sse_pending (fst (sse_process_line X p line)) = sse_pending p"
  by (simp add: sse_process_line_def sse_flush_pending split: option.splits)

function sse_drain :: "('x) crypto_scheme \<Rightarrow> sse_parser \<Rightarrow> sse_parser \<times> json list" where
  "sse_drain X p =
     (case position (\<lambda>b. b = 10) (sse_pending p) of
        None \<Rightarrow> (p, [])
      | Some pos \<Rightarrow>
          let line = take (Suc pos) (sse_pending p);
              p = p\<lparr>sse_pending := drop (Suc pos) (sse_pending p)\<rparr>;
              line = pop_if_last 10 line;
              line = pop_if_last 13 line
          in (case sse_drain X (fst (sse_process_line X p line)) of
                (q, es) \<Rightarrow> (q, snd (sse_process_line X p line) @ es)))"
  by pat_completeness auto
termination
  by (relation "measure (\<lambda>(X, p). length (sse_pending p))")
     (auto simp: sse_process_line_pending dest!: position_less)

declare sse_drain.simps [simp del]

definition sse_push :: "('x) crypto_scheme \<Rightarrow> sse_parser \<Rightarrow> u8 list \<Rightarrow> sse_parser \<times> json list" where
  "sse_push X p chunk = sse_drain X (p\<lparr>sse_pending := sse_pending p @ chunk\<rparr>)"

definition sse_finish :: "('x) crypto_scheme \<Rightarrow> sse_parser \<Rightarrow> sse_parser \<times> json list" where
  "sse_finish X p =
     (case (if sse_pending p \<noteq> []
            then sse_process_line X (p\<lparr>sse_pending := []\<rparr>) (sse_pending p)
            else (p, [])) of
        (q, es) \<Rightarrow> (case sse_flush X q of (r, fs) \<Rightarrow> (r, es @ fs)))"

section \<open>The complete body\<close>

fun flush_sse_data :: "('x) crypto_scheme \<Rightarrow> string list \<times> json list \<Rightarrow> string list \<times> json list" where
  "flush_sse_data X (data_lines, items) =
     (if data_lines = [] then (data_lines, items)
      else let data = join [LF] data_lines
           in if trim data = [] \<or> trim data = ''[DONE]'' then ([], items)
              else ([], items @ [case from_str X data of Some v \<Rightarrow> v | None \<Rightarrow> invalid_sse_json X data]))"

fun parse_sse_line :: "('x) crypto_scheme \<Rightarrow> string list \<times> json list \<Rightarrow> string \<Rightarrow> string list \<times> json list" where
  "parse_sse_line X (data_lines, items) line =
     (if line = [] then flush_sse_data X (data_lines, items)
      else (case strip_prefix line ''data:'' of
              Some rest \<Rightarrow> (data_lines @ [trim_start rest], items)
            | None \<Rightarrow> (data_lines, items)))"

definition parse_sse_data :: "('x) crypto_scheme \<Rightarrow> u8 list \<Rightarrow> json" where
  "parse_sse_data X body =
     JArray (snd (flush_sse_data X
       (foldl (parse_sse_line X) ([], []) (str_lines (from_utf8_lossy body)))))"

definition looks_like_sse :: "u8 list \<Rightarrow> bool" where
  "looks_like_sse body =
     (let n = min (length body) 512;
          prefix = from_utf8_lossy (take n body)
      in list_ex (\<lambda>line. starts_with line ''data:'' \<or> starts_with line ''event:'') (str_lines prefix))"

section \<open>The AWS event stream\<close>

record aws_parser =
  aws_pending :: "u8 list"
  aws_failed :: bool

definition aws_new :: aws_parser where
  "aws_new = \<lparr>aws_pending = [], aws_failed = False\<rparr>"

definition MAX_AWS_EVENTSTREAM_MESSAGE :: nat where
  "MAX_AWS_EVENTSTREAM_MESSAGE = 1024 * 1024"

function aws_drain :: "('x) serde_scheme \<Rightarrow> aws_parser \<Rightarrow> aws_parser \<times> json list" where
  "aws_drain X p =
     (if length (aws_pending p) < 12 then (p, [])
      else
        let total_len = be_nat (take 4 (aws_pending p));
            headers_len = be_nat (take 4 (drop 4 (aws_pending p)))
        in if total_len < 16 \<or> MAX_AWS_EVENTSTREAM_MESSAGE < total_len \<or> total_len - 16 < headers_len
           then (p\<lparr>aws_failed := True, aws_pending := []\<rparr>, [])
           else if length (aws_pending p) < total_len then (p, [])
           else
             let message = take total_len (aws_pending p);
                 p = p\<lparr>aws_pending := drop total_len (aws_pending p)\<rparr>;
                 payload_start = 12 + headers_len;
                 payload_end = total_len - 4
             in if payload_end < payload_start then aws_drain X p
                else
                  let payload = drop payload_start (take payload_end message);
                      trimmed = trim (from_utf8_lossy payload)
                  in if trimmed = [] then aws_drain X p
                     else (case from_str X trimmed of
                             Some parsed \<Rightarrow>
                               (case aws_drain X p of (q, es) \<Rightarrow> (q, parsed # es))
                           | None \<Rightarrow> (p\<lparr>aws_failed := True, aws_pending := []\<rparr>, [])))"
  by pat_completeness auto
termination
  by (relation "measure (\<lambda>(X, p). length (aws_pending p))") auto

declare aws_drain.simps [simp del]

definition aws_push :: "('x) serde_scheme \<Rightarrow> aws_parser \<Rightarrow> u8 list \<Rightarrow> aws_parser \<times> json list" where
  "aws_push X p chunk =
     (if aws_failed p then (p, [])
      else aws_drain X (p\<lparr>aws_pending := aws_pending p @ chunk\<rparr>))"

definition aws_finish :: "aws_parser \<Rightarrow> aws_parser" where
  "aws_finish p =
     (if aws_pending p \<noteq> [] then p\<lparr>aws_failed := True, aws_pending := []\<rparr> else p)"

section \<open>The SSE parser meets the contract\<close>

definition sse_ok :: "sse_parser \<Rightarrow> bool" where
  "sse_ok p \<longleftrightarrow> 10 \<notin> set (sse_pending p)"

abbreviation Sse_state :: "u8 list \<Rightarrow> string list \<Rightarrow> sse_parser" where
  "Sse_state bs d \<equiv> \<lparr>sse_pending = bs, sse_data_lines = d\<rparr>"

lemma sse_flush_batch:
  "sse_flush X (Sse_state bs d) = (Sse_state bs (fst (flush_sse_data X (d, []))), snd (flush_sse_data X (d, [])))"
  by (simp add: sse_flush_def Let_def)

lemma sse_process_line_batch:
  "sse_process_line X (Sse_state bs d) line =
     (Sse_state bs (fst (parse_sse_line X (d, []) (from_utf8_lossy line))),
      snd (parse_sse_line X (d, []) (from_utf8_lossy line)))"
  by (simp add: sse_process_line_def sse_flush_batch split: option.splits)

lemma flush_sse_data_items:
  "flush_sse_data X (d, items) = (fst (flush_sse_data X (d, [])), items @ snd (flush_sse_data X (d, [])))"
  by (simp add: Let_def)

lemma parse_sse_line_items:
  "parse_sse_line X (d, items) line
     = (fst (parse_sse_line X (d, []) line), items @ snd (parse_sse_line X (d, []) line))"
  using flush_sse_data_items [of X d items] by (simp split: option.splits)

lemma position_first: "b \<notin> set l \<Longrightarrow> position (\<lambda>x. x = b) (l @ b # r) = Some (length l)"
  by (induction l) auto

lemma sse_drain_LF:
  assumes "10 \<notin> set l"
  shows "sse_drain X (Sse_state (l @ 10 # r) d) =
    (case parse_sse_line X (d, []) (from_utf8_lossy (pop_if_last 13 l)) of
       (d', es) \<Rightarrow> (case sse_drain X (Sse_state r d') of (q, fs) \<Rightarrow> (q, es @ fs)))"
  using assms
  by (subst sse_drain.simps)
     (simp add: position_first Let_def pop_if_last_def sse_process_line_batch split: prod.split
       del: parse_sse_line.simps)

lemma sse_drain_done: "10 \<notin> set bs \<Longrightarrow> sse_drain X (Sse_state bs d) = (Sse_state bs d, [])"
proof -
  assume "10 \<notin> set bs"
  then have "position (\<lambda>b. b = 10) bs = None" by (auto simp: position_None_iff)
  then show ?thesis by (subst sse_drain.simps) simp
qed

lemma bytes_lines_induct [case_names last line]:
  fixes bs :: "u8 list"
  assumes "\<And>bs. 10 \<notin> set bs \<Longrightarrow> P bs"
    and "\<And>l r. 10 \<notin> set l \<Longrightarrow> P r \<Longrightarrow> P (l @ 10 # r)"
  shows "P bs"
proof (induction bs rule: length_induct)
  case (1 bs)
  show ?case
  proof (cases "10 \<in> set bs")
    case True
    then obtain l r where "bs = l @ 10 # r" "10 \<notin> set l" by (meson split_list_first)
    with 1 assms(2) show ?thesis by simp
  qed (rule assms(1))
qed

lemma sse_drain_ok: "sse_ok (fst (sse_drain X (Sse_state bs d)))"
proof (induction bs arbitrary: d rule: bytes_lines_induct)
  case (line l r)
  then show ?case by (simp add: sse_drain_LF del: parse_sse_line.simps split: prod.splits)
     (metis fst_conv)
qed (simp add: sse_drain_done sse_ok_def)

lemma sse_drain_append:
  "sse_drain X (Sse_state (bs @ cs) d) =
    (case sse_drain X (Sse_state bs d) of
       (q, es) \<Rightarrow> (case sse_push X q cs of (q', fs) \<Rightarrow> (q', es @ fs)))"
proof (induction bs arbitrary: d rule: bytes_lines_induct)
  case (line l r)
  then show ?case by (simp add: sse_drain_LF del: parse_sse_line.simps split: prod.splits)
next
  case (last bs)
  then show ?case by (simp add: sse_drain_done sse_push_def split: prod.splits)
qed

interpretation sse: chunked_parser "sse_push X" sse_ok for X :: "('x) crypto_scheme"
proof
  fix s :: sse_parser and a b c :: "u8 list"
  assume s: "sse_ok s"
  obtain bs d where sd: "s = Sse_state bs d" by (cases s)
  show "sse_ok (fst (sse_push X s c))" by (simp add: sse_push_def sd sse_drain_ok)
  show "sse_push X s [] = (s, [])" using s by (simp add: sse_push_def sd sse_drain_done sse_ok_def)
  show "sse_push X s (a @ b) = push_all (sse_push X) s [a, b]"
    using sse_drain_append [of X "bs @ a" b d]
    by (simp add: sse_push_def [of X "Sse_state bs d"] sd split: prod.splits)
qed

section \<open>The incremental parser is the batch parser\<close>

lemma from_utf8_lossy_snoc: "a < 0x80 \<Longrightarrow> from_utf8_lossy (xs @ [a]) = from_utf8_lossy xs @ [byte_char a]"
  by (simp add: from_utf8_lossy_split)

lemma from_utf8_lossy_last:
  assumes "from_utf8_lossy l \<noteq> []" and "last (from_utf8_lossy l) = byte_char a" and a: "a < 0x80"
  shows "last l = a"
proof -
  have "byte_char a \<in> set (from_utf8_lossy l)" using assms(1,2) by (metis last_in_set)
  then have "a \<in> set l" using from_utf8_lossy_ascii_mem [OF a] by simp
  then obtain u v where l: "l = u @ a # v" "a \<notin> set v" by (meson split_list_last)
  show ?thesis
  proof (cases "v = []")
    case False
    have "last (from_utf8_lossy l) = last (from_utf8_lossy v)"
      using l False by (simp add: from_utf8_lossy_split [OF a])
    then have "byte_char a \<in> set (from_utf8_lossy v)"
      using assms(2) False by (metis from_utf8_lossy_Nil_iff last_in_set)
    then show ?thesis using l from_utf8_lossy_ascii_mem [OF a] by simp
  qed (simp add: l)
qed

lemma byte_char_CR: "byte_char 13 = CR" and byte_char_LF: "byte_char 10 = LF"
  by code_simp+

lemma strip_cr_lossy: "strip_cr (from_utf8_lossy l) = from_utf8_lossy (pop_if_last 13 l)"
proof (cases "l \<noteq> [] \<and> last l = 13")
  case True
  then obtain m where "l = m @ [13]" by (metis append_butlast_last_id)
  then show ?thesis
    by (simp add: from_utf8_lossy_snoc byte_char_CR strip_cr_def pop_if_last_def)
next
  case False
  then show ?thesis
    using from_utf8_lossy_last [of l 13] by (auto simp: strip_cr_def pop_if_last_def byte_char_CR)
qed

lemma LF_lossy: "10 \<notin> set l \<Longrightarrow> LF \<notin> set (from_utf8_lossy l)"
  using from_utf8_lossy_ascii_mem [of 10 l] by (simp add: byte_char_LF)

lemma sse_events_batch:
  "snd (sse_drain X (Sse_state bs d)) @ snd (sse_finish X (fst (sse_drain X (Sse_state bs d))))
    = snd (flush_sse_data X (foldl (parse_sse_line X) (d, []) (str_lines (from_utf8_lossy bs))))"
proof (induction bs arbitrary: d rule: bytes_lines_induct)
  case (last bs)
  then show ?case
    by (simp add: sse_drain_done sse_finish_def str_lines_last LF_lossy sse_process_line_batch
        sse_flush_batch del: parse_sse_line.simps flush_sse_data.simps split: prod.split)
       (metis flush_sse_data_items prod.collapse snd_conv)
next
  case (line l r)
  have fold_items: "snd (flush_sse_data X (foldl (parse_sse_line X) (d, items) ls))
      = items @ snd (flush_sse_data X (foldl (parse_sse_line X) (d, []) ls))" for d items ls
  proof (induction ls arbitrary: d items)
    case Nil
    show ?case using flush_sse_data_items [of X d items] by (simp del: flush_sse_data.simps)
  next
    case (Cons x xs)
    obtain d' es where e: "parse_sse_line X (d, []) x = (d', es)" by (cases "parse_sse_line X (d, []) x")
    from Cons [of d' "items @ es"] Cons [of d' es] show ?case
      using parse_sse_line_items [of X d items x]
      by (simp add: e del: parse_sse_line.simps flush_sse_data.simps)
  qed
  obtain d' es where e: "parse_sse_line X (d, []) (from_utf8_lossy (pop_if_last 13 l)) = (d', es)"
    by (cases "parse_sse_line X (d, []) (from_utf8_lossy (pop_if_last 13 l))")
  have "str_lines (from_utf8_lossy (l @ 10 # r)) = from_utf8_lossy (pop_if_last 13 l) # str_lines (from_utf8_lossy r)"
    using line(1) by (simp add: from_utf8_lossy_split byte_char_LF str_lines_LF LF_lossy strip_cr_lossy)
  with line(1) line(2) [of d', symmetric] e fold_items [of d' es] show ?case
    by (simp add: sse_drain_LF del: parse_sse_line.simps flush_sse_data.simps split: prod.splits)
qed

section \<open>The AWS parser meets the contract\<close>

text \<open>What the next bytes of the stream are: not yet known, malformed, or one complete message.\<close>

datatype aws_next = Wait | Malformed | Message nat "json list"

definition aws_next :: "('x) serde_scheme \<Rightarrow> u8 list \<Rightarrow> aws_next" where
  "aws_next X bs =
     (if length bs < 12 then Wait
      else
        let total_len = be_nat (take 4 bs); headers_len = be_nat (take 4 (drop 4 bs))
        in if total_len < 16 \<or> MAX_AWS_EVENTSTREAM_MESSAGE < total_len \<or> total_len - 16 < headers_len
           then Malformed
           else if length bs < total_len then Wait
           else
             let trimmed = trim (from_utf8_lossy
                   (drop (12 + headers_len) (take (total_len - 4) (take total_len bs))))
             in if total_len - 4 < 12 + headers_len \<or> trimmed = [] then Message total_len []
                else (case from_str X trimmed of
                        Some v \<Rightarrow> Message total_len [v] | None \<Rightarrow> Malformed))"

abbreviation Aws_state :: "u8 list \<Rightarrow> bool \<Rightarrow> aws_parser" where
  "Aws_state bs f \<equiv> \<lparr>aws_pending = bs, aws_failed = f\<rparr>"

lemma aws_drain_next:
  "aws_drain X (Aws_state bs f) =
     (case aws_next X bs of
        Wait \<Rightarrow> (Aws_state bs f, [])
      | Malformed \<Rightarrow> (Aws_state [] True, [])
      | Message n es \<Rightarrow> (case aws_drain X (Aws_state (drop n bs) f) of (q, fs) \<Rightarrow> (q, es @ fs)))"
  by (subst aws_drain.simps) (auto simp: aws_next_def Let_def split: option.splits prod.splits)

lemma aws_next_Message: "aws_next X bs = Message n es \<Longrightarrow> 16 \<le> n \<and> n \<le> length bs"
  by (auto simp: aws_next_def Let_def split: if_splits option.splits)

lemma aws_next_append:
  assumes "aws_next X bs \<noteq> Wait"
  shows "aws_next X (bs @ cs) = aws_next X bs"
proof -
  define total where "total = be_nat (take 4 bs)"
  define headers where "headers = be_nat (take 4 (drop 4 bs))"
  note fold = total_def [symmetric] headers_def [symmetric]
  from assms have len: "\<not> length bs < 12" by (auto simp: aws_next_def)
  then have pre: "be_nat (take 4 (bs @ cs)) = total" "be_nat (take 4 (drop 4 (bs @ cs))) = headers"
    by (simp_all add: total_def headers_def)
  show ?thesis
  proof (cases "total < 16 \<or> MAX_AWS_EVENTSTREAM_MESSAGE < total \<or> total - 16 < headers")
    case True
    with len show ?thesis unfolding aws_next_def pre fold Let_def by simp
  next
    case False
    with assms len have "total \<le> length bs"
      unfolding aws_next_def fold Let_def by (auto simp: not_less split: if_splits)
    then have "take total (bs @ cs) = take total bs" "\<not> length bs < total" "\<not> length (bs @ cs) < total"
      by simp_all
    with False len show ?thesis unfolding aws_next_def pre fold Let_def by (simp del: take_append)
  qed
qed

definition aws_ok :: "('x) serde_scheme \<Rightarrow> aws_parser \<Rightarrow> bool" where
  "aws_ok X p \<longleftrightarrow> (if aws_failed p then aws_pending p = [] else aws_next X (aws_pending p) = Wait)"

lemma aws_messages_induct [case_names stop message]:
  assumes "\<And>bs. (\<forall>n es. aws_next X bs \<noteq> Message n es) \<Longrightarrow> P bs"
    and "\<And>bs n es. aws_next X bs = Message n es \<Longrightarrow> P (drop n bs) \<Longrightarrow> P bs"
  shows "P bs"
proof (induction bs rule: length_induct)
  case (1 bs)
  show ?case
  proof (cases "\<exists>n es. aws_next X bs = Message n es")
    case True
    then obtain n es where n: "aws_next X bs = Message n es" by blast
    with 1 aws_next_Message [OF n] have "P (drop n bs)" by auto
    with n show ?thesis by (rule assms(2))
  qed (blast intro: assms(1))
qed

lemma aws_drain_ok: "aws_ok X (fst (aws_drain X (Aws_state bs False)))"
proof (induction bs rule: aws_messages_induct [of X])
  case (stop bs)
  then show ?case by (subst aws_drain_next) (auto simp: aws_ok_def split: aws_next.split)
next
  case (message bs n es)
  then show ?case by (subst aws_drain_next) (auto split: prod.splits)
qed

lemma aws_drain_append:
  "aws_drain X (Aws_state (bs @ cs) False) =
    (case aws_drain X (Aws_state bs False) of
       (q, es) \<Rightarrow> (case aws_push X q cs of (q', fs) \<Rightarrow> (q', es @ fs)))"
proof (induction bs rule: aws_messages_induct [of X])
  case (stop bs)
  show ?case
  proof (cases "aws_next X bs")
    case Wait
    then show ?thesis by (simp add: aws_drain_next [of X bs] aws_push_def)
  next
    case Malformed
    with aws_next_append [of X bs cs] show ?thesis
      by (simp add: aws_drain_next [of X bs] aws_drain_next [of X "bs @ cs"] aws_push_def)
  qed (use stop in simp)
next
  case (message bs n es)
  have "drop n (bs @ cs) = drop n bs @ cs" using aws_next_Message [OF message(1)] by simp
  with message aws_next_append [of X bs cs] show ?case
    by (simp add: aws_drain_next [of X bs] aws_drain_next [of X "bs @ cs"] split: prod.splits)
qed

interpretation aws: chunked_parser "aws_push X" "aws_ok X" for X :: "('x) serde_scheme"
proof
  fix s :: aws_parser and a b c :: "u8 list"
  assume s: "aws_ok X s"
  obtain bs f where sd: "s = Aws_state bs f" by (cases s)
  show "aws_ok X (fst (aws_push X s c))"
    using s aws_drain_ok [of X "bs @ c"] by (cases f) (simp_all add: aws_push_def sd)
  show "aws_push X s [] = (s, [])"
    using s by (cases f) (simp_all add: aws_push_def sd aws_drain_next aws_ok_def)
  show "aws_push X s (a @ b) = push_all (aws_push X) s [a, b]"
    using aws_drain_append [of X "bs @ a" b]
    by (cases f) (simp_all add: aws_push_def [of X "Aws_state bs _"] sd split: prod.splits)
qed

section \<open>The AWS framing\<close>

text \<open>
  One message on the wire: total length, length of the headers, checksum of the prelude, headers,
  payload, checksum of the message.  The parser does not read the checksums.
\<close>

definition aws_frame :: "u8 list \<Rightarrow> u8 list \<Rightarrow> u8 list \<Rightarrow> u8 list \<Rightarrow> u8 list" where
  "aws_frame c h pl m = nat_be 4 (16 + length h + length pl) @ nat_be 4 (length h) @ c @ h @ pl @ m"

definition aws_frame_ok :: "u8 list \<Rightarrow> u8 list \<Rightarrow> u8 list \<Rightarrow> u8 list \<Rightarrow> bool" where
  "aws_frame_ok c h pl m \<longleftrightarrow>
     length c = 4 \<and> length m = 4 \<and> 16 + length h + length pl \<le> MAX_AWS_EVENTSTREAM_MESSAGE"

inductive aws_stream :: "('x) serde_scheme \<Rightarrow> u8 list \<Rightarrow> json list \<Rightarrow> bool" for X where
  aws_done: "aws_stream X [] []"
| aws_blank: "aws_frame_ok c h pl m \<Longrightarrow> trim (from_utf8_lossy pl) = [] \<Longrightarrow> aws_stream X r es \<Longrightarrow>
    aws_stream X (aws_frame c h pl m @ r) es"
| aws_event: "aws_frame_ok c h pl m \<Longrightarrow> trim (from_utf8_lossy pl) \<noteq> [] \<Longrightarrow>
    from_str X (trim (from_utf8_lossy pl)) = Some v \<Longrightarrow> aws_stream X r es \<Longrightarrow>
    aws_stream X (aws_frame c h pl m @ r) (v # es)"

lemma length_aws_frame:
  "aws_frame_ok c h pl m \<Longrightarrow> length (aws_frame c h pl m) = 16 + length h + length pl"
  by (simp add: aws_frame_def aws_frame_ok_def)

lemma aws_next_frame:
  assumes "aws_frame_ok c h pl m"
  shows "aws_next X (aws_frame c h pl m @ r) =
    (let t = trim (from_utf8_lossy pl) in
     if t = [] then Message (16 + length h + length pl) []
     else (case from_str X t of
             Some v \<Rightarrow> Message (16 + length h + length pl) [v] | None \<Rightarrow> Malformed))"
proof -
  define n where "n = 16 + length h + length pl"
  from assms have c: "length c = 4" "length m = 4" and n: "n \<le> MAX_AWS_EVENTSTREAM_MESSAGE"
    by (simp_all add: aws_frame_ok_def n_def)
  then have small: "n < 256 ^ 4" "length h < 256 ^ 4" by (simp_all add: MAX_AWS_EVENTSTREAM_MESSAGE_def n_def)
  have pre: "be_nat (take 4 (aws_frame c h pl m @ r)) = n"
    "be_nat (take 4 (drop 4 (aws_frame c h pl m @ r))) = length h"
    using small by (simp_all add: aws_frame_def n_def [symmetric] be_nat_nat_be_small)
  have len: "length (aws_frame c h pl m @ r) = n + length r"
    using length_aws_frame [OF assms] by (simp add: n_def)
  have payload: "drop (12 + length h) (take (n - 4) (take n (aws_frame c h pl m @ r))) = pl"
    using c by (simp add: aws_frame_def n_def)
  show ?thesis
    unfolding aws_next_def pre Let_def payload len n_def [symmetric]
    using n by (auto simp: n_def split: option.split)
qed

lemma aws_next_MessageD:
  assumes "aws_next X bs = Message n es"
  obtains c h pl m r where "bs = aws_frame c h pl m @ r" and "aws_frame_ok c h pl m"
    and "n = 16 + length h + length pl"
proof -
  define total where "total = be_nat (take 4 bs)"
  define hl where "hl = be_nat (take 4 (drop 4 bs))"
  note fold = total_def [symmetric] hl_def [symmetric]
  from assms have len: "12 \<le> length bs" by (auto simp: aws_next_def split: if_splits)
  with assms have b: "16 \<le> total" "total \<le> MAX_AWS_EVENTSTREAM_MESSAGE" "hl \<le> total - 16"
    "total \<le> length bs" "n = total"
    unfolding aws_next_def fold Let_def by (auto simp: not_less split: if_splits option.splits)
  define c where "c = take 4 (drop 8 bs)"
  define h where "h = take hl (drop 12 bs)"
  define pl where "pl = take (total - 16 - hl) (drop (12 + hl) bs)"
  define m where "m = take 4 (drop (total - 4) bs)"
  have sizes: "length c = 4" "length h = hl" "length pl = total - 16 - hl" "length m = 4"
    using b len by (simp_all add: c_def h_def pl_def m_def)
  have "nat_be 4 total = take 4 bs" "nat_be 4 hl = take 4 (drop 4 bs)"
    using len nat_be_be_nat [of "take 4 bs"] nat_be_be_nat [of "take 4 (drop 4 bs)"]
    by (simp_all add: total_def hl_def)
  then have "aws_frame c h pl m @ drop total bs = take 4 bs @ take 4 (drop 4 bs) @ take 4 (drop 8 bs)
      @ take hl (drop 12 bs) @ take (total - 16 - hl) (drop (12 + hl) bs)
      @ take 4 (drop (total - 4) bs) @ drop total bs"
    using b sizes by (simp add: aws_frame_def c_def h_def pl_def m_def)
  also have "\<dots> = bs"
  proof -
    have *: "take k (drop i xs) @ drop (i + k) xs = drop i xs" for k i and xs :: "u8 list"
      by (metis add.commute append_take_drop_id drop_drop)
    have "take 4 (drop (total - 4) bs) @ drop total bs = drop (total - 4) bs"
      using *[of 4 "total - 4" bs] b by simp
    moreover have "take (total - 16 - hl) (drop (12 + hl) bs) @ drop (total - 4) bs = drop (12 + hl) bs"
      using *[of "total - 16 - hl" "12 + hl" bs] b by simp
    ultimately show ?thesis
      using *[of hl 12 bs] *[of 4 8 bs] *[of 4 4 bs] *[of 4 0 bs] by simp
  qed
  finally have "bs = aws_frame c h pl m @ drop total bs" by simp
  moreover have "aws_frame_ok c h pl m" using sizes b by (simp add: aws_frame_ok_def)
  ultimately show thesis using sizes b by (intro that) auto
qed

abbreviation aws_accepts :: "('x) serde_scheme \<Rightarrow> u8 list \<Rightarrow> json list \<Rightarrow> bool" where
  "aws_accepts X bs es \<equiv>
     \<not> aws_failed (aws_finish (fst (aws_drain X (Aws_state bs False))))
     \<and> snd (aws_drain X (Aws_state bs False)) = es"

lemma aws_accepts_Message:
  assumes "aws_next X bs = Message n fs"
  shows "aws_accepts X bs es \<longleftrightarrow> (\<exists>gs. es = fs @ gs \<and> aws_accepts X (drop n bs) gs)"
  using assms by (auto simp: aws_drain_next [of X bs] split: prod.splits)

lemma aws_stream_accepts: "aws_stream X bs es \<Longrightarrow> aws_accepts X bs es"
proof (induction rule: aws_stream.induct)
  case aws_done
  then show ?case by (simp add: aws_drain_next aws_next_def aws_finish_def)
next
  case (aws_blank c h pl m r es)
  then show ?case
    by (subst aws_accepts_Message [of X _ "length (aws_frame c h pl m)" "[]"])
       (simp_all add: aws_next_frame length_aws_frame)
next
  case (aws_event c h pl m v r es)
  then show ?case
    by (subst aws_accepts_Message [of X _ "length (aws_frame c h pl m)" "[v]"])
       (simp_all add: aws_next_frame length_aws_frame)
qed

lemma aws_accepts_stream: "aws_accepts X bs es \<Longrightarrow> aws_stream X bs es"
proof (induction bs arbitrary: es rule: aws_messages_induct [of X])
  case (stop bs)
  then show ?case
    by (cases "aws_next X bs") (auto simp: aws_drain_next [of X bs] aws_finish_def split: if_splits intro: aws_done)
next
  case (message bs n fs)
  then obtain gs where es: "es = fs @ gs" and rest: "aws_stream X (drop n bs) gs"
    by (auto simp only: aws_accepts_Message [OF message(1)])
  obtain c h pl m r where f: "bs = aws_frame c h pl m @ r" "aws_frame_ok c h pl m"
      "n = 16 + length h + length pl"
    using message(1) by (rule aws_next_MessageD)
  then have r: "drop n bs = r" by (simp add: length_aws_frame)
  show ?case
  proof (cases "trim (from_utf8_lossy pl) = []")
    case True
    with message(1) f have "fs = []" by (simp add: aws_next_frame)
    with True f r es rest show ?thesis by (auto intro: aws_blank)
  next
    case False
    with message(1) f obtain v where "from_str X (trim (from_utf8_lossy pl)) = Some v" "fs = [v]"
      by (auto simp: aws_next_frame Let_def split: option.splits)
    with False f r es rest show ?thesis by (auto intro: aws_event)
  qed
qed

section \<open>Properties\<close>

definition sse_events :: "('x) crypto_scheme \<Rightarrow> u8 list list \<Rightarrow> json list" where
  "sse_events X chunks =
     (case push_all (sse_push X) sse_new chunks of (p, es) \<Rightarrow> es @ snd (sse_finish X p))"

lemma sse_new_ok: "sse_ok sse_new"
  by (simp add: sse_ok_def sse_new_def)

text \<open>
  C19: Parsing while forwarding is parsing the complete body.  However the network cuts a body into
  chunks, in the middle of a line or of a UTF-8 sequence too, the events the incremental parser
  reports are the items the batch parser finds in the whole body.
\<close>

theorem sse_events_any_chunking:
  "parse_sse_data X (concat chunks) = JArray (sse_events X chunks)"
proof -
  have "push_all (sse_push X) sse_new chunks = sse_drain X (Sse_state (concat chunks) [])"
    using sse.push_all_concat [OF sse_new_ok, of X chunks] by (simp add: sse_push_def sse_new_def)
  then show ?thesis
    using sse_events_batch [of X "concat chunks" "[]"]
    by (simp add: parse_sse_data_def sse_events_def case_prod_beta)
qed

text \<open>
  C20: The AWS event stream parser accepts exactly the concatenations of well-formed messages.  For
  every way the network cuts the body into chunks, the parser ends without failure and has
  reported the events \<open>es\<close> if and only if the body is a sequence of complete messages of at
  most one megabyte whose payloads are blank or parse, in order, to \<open>es\<close>.
\<close>

theorem aws_stream_accepted_iff:
  "(case push_all (aws_push X) aws_new chunks of
      (p, fs) \<Rightarrow> \<not> aws_failed (aws_finish p) \<and> fs = es)
    \<longleftrightarrow> aws_stream X (concat chunks) es"
proof -
  have "aws_ok X aws_new" by (simp add: aws_ok_def aws_new_def aws_next_def)
  then have "push_all (aws_push X) aws_new chunks = aws_drain X (Aws_state (concat chunks) False)"
    using aws.push_all_concat [of X aws_new chunks] by (simp add: aws_push_def aws_new_def)
  then have "(case push_all (aws_push X) aws_new chunks of
      (p, fs) \<Rightarrow> \<not> aws_failed (aws_finish p) \<and> fs = es) \<longleftrightarrow> aws_accepts X (concat chunks) es"
    by (simp add: case_prod_beta)
  also have "\<dots> \<longleftrightarrow> aws_stream X (concat chunks) es"
    by (rule iffI) (erule aws_accepts_stream, erule aws_stream_accepts)
  finally show ?thesis .
qed

end
