(* ===== verification/Field_Claims.thy ===== *)
theory Field_Claims
  imports Views Sse
begin

text \<open>
  Field claims: which protocol an exchange speaks, the views of request and response, the presence
  rules, the claims object, and the collector that gathers the response while it is forwarded.
\<close>

section \<open>The request head\<close>

record Upstream =
  up_host :: string
  up_method :: string
  up_path :: string
  up_headers :: "(string, string) btree"
  up_headers_ordered :: "string list list option"

record ReqHead =
  nonce :: string
  egress_port :: u32
  upstream :: Upstream
  token :: "string option"
  client_protocol_family :: "string option"
  downstream_protocol_family :: "string option"
  protocol_family :: "string option"
  tls_seed :: "string option"
  tls_spec :: "string option"

section \<open>The field policy registry\<close>

record FieldPolicyRegistry =
  policy :: string
  protocol_versions :: "(string, string) btree"

definition field_policy_registry :: FieldPolicyRegistry where
  "field_policy_registry =
     \<lparr>policy = ''core'',
      protocol_versions = fold (\<lambda>p. bt_insert p ''2026-07-29'') SUPPORTED_PROTOCOLS bt_empty\<rparr>"

text \<open>\<^verbatim>\<open>None\<close> is the panic on a protocol the registry does not list.\<close>

definition field_policy_version :: "string \<Rightarrow> string option" where
  "field_policy_version protocol = bt_get (protocol_versions field_policy_registry) protocol"

section \<open>Protocol detection\<close>

definition normalize_protocol_family :: "string \<Rightarrow> string option" where
  "normalize_protocol_family value =
     (let v = to_ascii_lowercase (trim value)
      in if v = ''openai.chat_completions'' then Some ''openai.chat_completions''
         else if v = ''openai.responses'' then Some ''openai.responses''
         else if v = ''anthropic.messages'' then Some ''anthropic.messages''
         else if v = ''google.gemini.generate_content'' then Some ''google.gemini.generate_content''
         else if v = ''alibaba.dashscope.generation'' then Some ''alibaba.dashscope.generation''
         else if v = ''aws.bedrock.converse'' then Some ''aws.bedrock.converse''
         else if v = ''cohere.chat'' then Some ''cohere.chat''
         else None)"

text \<open>\<^verbatim>\<open>serde_json::from_slice\<close>: JSON text is UTF-8, other bytes are an error.\<close>

definition from_slice :: "('x) serde_scheme \<Rightarrow> u8 list \<Rightarrow> json option" where
  "from_slice X body = Option.bind (from_utf8 body) (from_str X)"

definition detect_from_body :: "json \<Rightarrow> string option" where
  "detect_from_body parsed =
     (let messages = Option.bind (value_get parsed ''messages'') as_array \<noteq> None;
          model = Option.bind (value_get parsed ''model'') as_str \<noteq> None
      in if messages \<and> model \<and> value_get parsed ''max_tokens'' \<noteq> None then Some ''anthropic.messages''
         else if messages \<and> model then Some ''openai.chat_completions''
         else if value_get parsed ''input'' \<noteq> None \<and> model then Some ''openai.responses''
         else if value_get parsed ''contents'' \<noteq> None then Some ''google.gemini.generate_content''
         else None)"

definition detect_protocol_family ::
  "('x) serde_scheme \<Rightarrow> string \<Rightarrow> string \<Rightarrow> u8 list \<Rightarrow> string option \<Rightarrow> string option \<Rightarrow> string option" where
  "detect_protocol_family X host path body enhanced configured =
     (let h = to_ascii_lowercase host;
          p = to_ascii_lowercase (path_no_query path)
      in if str_contains p ''/chat/completions'' then Some ''openai.chat_completions''
         else if ends_with p ''/responses'' \<or> str_contains p ''/responses'' then Some ''openai.responses''
         else if ends_with p ''/messages'' \<or> str_contains h ''anthropic'' then Some ''anthropic.messages''
         else if str_contains p '':generatecontent'' \<or> str_contains p ''generatecontent''
           then Some ''google.gemini.generate_content''
         else if str_contains p ''/services/aigc/text-generation/generation''
           then Some ''alibaba.dashscope.generation''
         else if str_contains p ''/converse'' then Some ''aws.bedrock.converse''
         else if ends_with p ''/chat'' \<or> str_contains p ''/v2/chat'' \<or> str_contains h ''cohere''
           then Some ''cohere.chat''
         else (case Option.bind enhanced normalize_protocol_family of
                 Some protocol \<Rightarrow> Some protocol
               | None \<Rightarrow>
                   (case Option.bind configured normalize_protocol_family of
                      Some protocol \<Rightarrow> Some protocol
                    | None \<Rightarrow> Option.bind (from_slice X body) detect_from_body)))"

section \<open>Bodies\<close>

definition parse_json_body :: "('x) crypto_scheme \<Rightarrow> u8 list \<Rightarrow> json" where
  "parse_json_body X body =
     (let trimmed = trim (from_utf8_lossy body)
      in if trimmed = [] then JNull
         else (case from_str X trimmed of
                 Some v \<Rightarrow> v
               | None \<Rightarrow>
                   JObject (bt_insert ''raw_sha256'' (JString (sha256_hex X body))
                     (bt_insert ''parse_error'' (JString ''invalid_json'') bt_empty))))"

definition field_view :: "('x) crypto_scheme \<Rightarrow> string \<Rightarrow> string \<Rightarrow> u8 list \<Rightarrow> string option \<Rightarrow> json" where
  "field_view X protocol kind body upstream_path =
     (let parsed = (if looks_like_sse body then parse_sse_data X body else parse_json_body X body)
      in parsed_view protocol kind parsed upstream_path)"

definition is_sse_content_type :: "string \<Rightarrow> bool" where
  "is_sse_content_type content_type =
     eq_ignore_ascii_case (trim (hd (split_on (CHR '';'') content_type))) ''text/event-stream''"

definition is_aws_event_stream_content_type :: "string \<Rightarrow> bool" where
  "is_aws_event_stream_content_type content_type =
     eq_ignore_ascii_case (trim (hd (split_on (CHR '';'') content_type)))
       ''application/vnd.amazon.eventstream''"

definition path_is_bedrock_converse_stream :: "string \<Rightarrow> bool" where
  "path_is_bedrock_converse_stream path =
     str_contains (to_ascii_lowercase (path_no_query path)) ''/converse-stream''"

definition path_indicates_gemini_stream :: "string \<Rightarrow> bool" where
  "path_indicates_gemini_stream path =
     (let lower = to_ascii_lowercase path
      in str_contains lower ''alt=sse'' \<or> str_contains lower '':streamgeneratecontent''
         \<or> str_contains lower ''/streamgeneratecontent'')"

definition bool_or_false :: "json option \<Rightarrow> bool" where
  "bool_or_false v = (case Option.bind v as_bool of Some b \<Rightarrow> b | None \<Rightarrow> False)"

definition request_indicates_streaming :: "('x) crypto_scheme \<Rightarrow> string \<Rightarrow> u8 list \<Rightarrow> string \<Rightarrow> bool" where
  "request_indicates_streaming X protocol req_body upstream_path =
     (let parsed = parse_json_body X req_body
      in if protocol \<in> {''openai.chat_completions'', ''openai.responses'', ''anthropic.messages'', ''cohere.chat''}
           then bool_or_false (value_get parsed ''stream'')
         else if protocol = ''alibaba.dashscope.generation''
           then bool_or_false (Option.bind (Option.bind (value_get parsed ''parameters'') as_object)
                  (\<lambda>p. bt_get p ''stream''))
         else if protocol = ''google.gemini.generate_content'' then path_indicates_gemini_stream upstream_path
         else if protocol = ''aws.bedrock.converse'' then path_is_bedrock_converse_stream upstream_path
         else False)"

definition MAX_STREAM_SNIFF_BYTES :: nat where
  "MAX_STREAM_SNIFF_BYTES = 4 * 1024"

definition MAX_FIELD_CLAIMS_CAPTURE :: nat where
  "MAX_FIELD_CLAIMS_CAPTURE = 8 * 1024 * 1024"

text \<open>White space and the byte order mark U+FEFF.\<close>

definition sniff_skip :: "string list" where
  "sniff_skip = white_space @ [[CHR 0xEF, CHR 0xBB, CHR 0xBF]]"

definition body_prefix_indicates_sse :: "u8 list \<Rightarrow> bool" where
  "body_prefix_indicates_sse body =
     (let txt = from_utf8_lossy (take (min (length body) MAX_STREAM_SNIFF_BYTES) body);
          trimmed = strip_all sniff_skip txt
      in starts_with trimmed ''data:'' \<or> starts_with trimmed ''event:'' \<or> starts_with trimmed '':'')"

section \<open>Presence rules\<close>

definition required_presence :: "string \<Rightarrow> string \<Rightarrow> string list list" where
  "required_presence protocol kind =
     (if protocol = ''openai.chat_completions'' \<and> kind = ''request'' then [[''model''], [''messages'']]
      else if protocol = ''openai.chat_completions'' \<and> kind = ''response'' then [[''choices'']]
      else if protocol = ''openai.responses'' \<and> kind = ''request'' then [[''model''], [''input'']]
      else if protocol = ''openai.responses'' \<and> kind = ''response'' then [[''output'', ''status'']]
      else if protocol = ''anthropic.messages'' \<and> kind = ''request'' then [[''model''], [''messages'']]
      else if protocol = ''anthropic.messages'' \<and> kind = ''response'' then [[''content'']]
      else if protocol = ''google.gemini.generate_content'' \<and> kind = ''request''
        then [[''model''], [''contents'']]
      else if protocol = ''google.gemini.generate_content'' \<and> kind = ''response''
        then [[''candidates'', ''promptFeedback'']]
      else if protocol = ''alibaba.dashscope.generation'' \<and> kind = ''request'' then [[''model''], [''input'']]
      else if protocol = ''alibaba.dashscope.generation'' \<and> kind = ''response'' then [[''output'']]
      else if protocol = ''aws.bedrock.converse'' \<and> kind = ''request'' then [[''modelId''], [''messages'']]
      else if protocol = ''aws.bedrock.converse'' \<and> kind = ''response'' then [[''output'']]
      else if protocol = ''cohere.chat'' \<and> kind = ''request'' then [[''model''], [''messages'', ''message'']]
      else if protocol = ''cohere.chat'' \<and> kind = ''response'' then [[''message'', ''text'']]
      else [])"

definition is_error_response_view :: "string \<Rightarrow> json \<Rightarrow> bool" where
  "is_error_response_view protocol view =
     (if protocol = ''alibaba.dashscope.generation''
      then has_present_path view ''code'' \<and> has_present_path view ''message''
      else has_present_path view ''error'')"

definition has_required_presence :: "string \<Rightarrow> string \<Rightarrow> json \<Rightarrow> bool" where
  "has_required_presence protocol kind view =
     (if kind = ''response'' \<and> is_error_response_view protocol view then True
      else list_all (\<lambda>alternatives. list_ex (\<lambda>path. has_present_path view path) alternatives)
             (required_presence protocol kind))"

section \<open>Claims\<close>

definition json_object :: "(string \<times> json) list \<Rightarrow> json" where
  "json_object kvs = JObject (fold (\<lambda>(k, v). bt_insert k v) kvs bt_empty)"

definition build_field_claims_from_views ::
  "('x) crypto_scheme \<Rightarrow> ReqHead \<Rightarrow> string \<Rightarrow> u16 \<Rightarrow> string \<Rightarrow> json \<Rightarrow> json \<Rightarrow> bool \<Rightarrow> json option" where
  "build_field_claims_from_views X head norm_method status protocol req_view resp_view streaming =
     (if \<not> has_required_presence protocol ''request'' req_view then None
      else if \<not> has_required_presence protocol ''response'' resp_view then None
      else
        let request_fields_hash = sha256_hex X (as_bytes (canonical_json X req_view));
            response_fields_hash = sha256_hex X (as_bytes (canonical_json X resp_view));
            host = to_ascii_lowercase (up_host (upstream head));
            path = path_no_query (up_path (upstream head))
        in (case field_policy_version protocol of
              None \<Rightarrow> None
            | Some version \<Rightarrow>
                Some (json_object
                  [(''v'', jint 1),
                   (''proof_type'', JString ''field-proof''),
                   (''nonce'', JString (nonce head)),
                   (''protocol_family'', JString protocol),
                   (''assurance_level'', JString ''strong''),
                   (''verification_mode'', JString ''field_claims''),
                   (''cross_protocol'', JBool False),
                   (''semantic_equivalence_not_proven'', JBool False),
                   (''request_schema_version'', JString (protocol @ ''.v1'')),
                   (''response_schema_version'', JString (protocol @ ''.v1'')),
                   (''upstream_host'', JString host),
                   (''upstream_path'', JString path),
                   (''http_method'', JString (to_ascii_uppercase norm_method)),
                   (''http_status'', jint (uint status)),
                   (''field_policy_id'',
                      JString (protocol @ ''.'' @ policy field_policy_registry @ ''@'' @ version)),
                   (''upstream_request_fields_sha256'', JString request_fields_hash),
                   (''upstream_response_fields_sha256'', JString response_fields_hash),
                   (''request_body_sha256_severity'', JString ''advisory''),
                   (''response_body_sha256_severity'', JString ''advisory''),
                   (''body_hash_policy'', JString ''advisory''),
                   (''streaming'', JBool streaming)])))"

text \<open>
  The protocol of an exchange: the family the client or the downstream names, then the configured
  one (from the request, else from the environment variable), as hints of the detection.
\<close>

definition exchange_protocol :: "('x) serde_scheme \<Rightarrow> string option \<Rightarrow> ReqHead \<Rightarrow> u8 list \<Rightarrow> string option" where
  "exchange_protocol X configured_env head req_body =
     (let enhanced = (case client_protocol_family head of
                        Some p \<Rightarrow> Some p | None \<Rightarrow> downstream_protocol_family head);
          configured = (case protocol_family head of Some p \<Rightarrow> Some p | None \<Rightarrow> configured_env)
      in detect_protocol_family X (up_host (upstream head)) (up_path (upstream head)) req_body
           enhanced configured)"

definition build_field_claims ::
  "('x) crypto_scheme \<Rightarrow> string option \<Rightarrow> ReqHead \<Rightarrow> string \<Rightarrow> u16 \<Rightarrow> u8 list \<Rightarrow> u8 list \<Rightarrow> json option" where
  "build_field_claims X configured_env head norm_method status req_body resp_body =
     (case exchange_protocol X configured_env head req_body of
        None \<Rightarrow> None
      | Some protocol \<Rightarrow>
          let req_view = field_view X protocol ''request'' req_body (Some (up_path (upstream head)));
              resp_view = field_view X protocol ''response'' resp_body (Some (up_path (upstream head)))
          in build_field_claims_from_views X head norm_method status protocol req_view resp_view
               (looks_like_sse resp_body))"

section \<open>The collector\<close>

datatype field_response_body =
    Streaming sse_parser stream_field_state
  | AwsEventStream aws_parser bedrock_state
  | Sniffing "u8 list" bool "stream_field_state option"

record field_response_collector =
  fc_protocol :: string
  fc_req_view :: json
  fc_body :: field_response_body

fun capture_field_body :: "u8 list \<times> bool \<Rightarrow> u8 list \<Rightarrow> u8 list \<times> bool" where
  "capture_field_body (body, truncated) chunk =
     (if truncated then (body, truncated)
      else let remaining = MAX_FIELD_CLAIMS_CAPTURE - length body
           in if remaining < length chunk then (body @ take remaining chunk, True)
              else (body @ chunk, truncated))"

definition collector_new ::
  "('x) crypto_scheme \<Rightarrow> string option \<Rightarrow> ReqHead \<Rightarrow> u8 list \<Rightarrow> string \<Rightarrow> field_response_collector option" where
  "collector_new X configured_env head req_body content_type =
     (case exchange_protocol X configured_env head req_body of
        None \<Rightarrow> None
      | Some protocol \<Rightarrow>
          let path = up_path (upstream head);
              req_view = field_view X protocol ''request'' req_body (Some path)
          in if \<not> has_required_presence protocol ''request'' req_view then None
             else
               let request_streaming = request_indicates_streaming X protocol req_body path;
                   body =
                     (if is_sse_content_type content_type
                      then map_option (Streaming sse_new) (stream_state_new protocol)
                      else if protocol = ''aws.bedrock.converse''
                        \<and> (is_aws_event_stream_content_type content_type \<or> request_streaming
                            \<or> (content_type = [] \<and> path_is_bedrock_converse_stream path))
                      then Some (AwsEventStream aws_new bedrock_new)
                      else if request_streaming
                      then map_option (Streaming sse_new) (stream_state_new protocol)
                      else Some (Sniffing [] False (stream_state_new protocol)))
               in map_option (\<lambda>b. \<lparr>fc_protocol = protocol, fc_req_view = req_view, fc_body = b\<rparr>) body)"

fun body_push :: "('x) crypto_scheme \<Rightarrow> field_response_body \<Rightarrow> u8 list \<Rightarrow> field_response_body" where
  "body_push X (Streaming parser state) chunk =
     (case sse_push X parser chunk of (parser, events) \<Rightarrow>
        Streaming parser (foldl stream_state_apply state events))"
| "body_push X (AwsEventStream parser state) chunk =
     (case aws_push X parser chunk of (parser, events) \<Rightarrow>
        AwsEventStream parser (foldl bedrock_apply state events))"
| "body_push X (Sniffing body truncated state) chunk =
     (case capture_field_body (body, truncated) chunk of (body, truncated) \<Rightarrow>
        (case state of
           Some streaming_state \<Rightarrow>
             if body_prefix_indicates_sse body
             then (case sse_push X sse_new body of (parser, events) \<Rightarrow>
                     Streaming parser (foldl stream_state_apply streaming_state events))
             else Sniffing body truncated state
         | None \<Rightarrow> Sniffing body truncated state))"

definition collector_push ::
  "('x) crypto_scheme \<Rightarrow> field_response_collector \<Rightarrow> u8 list \<Rightarrow> field_response_collector" where
  "collector_push X c chunk = c\<lparr>fc_body := body_push X (fc_body c) chunk\<rparr>"

text \<open>The response view a body ends with and whether it was streamed; \<^verbatim>\<open>None\<close> gives no claims.\<close>

fun body_finish :: "('x) crypto_scheme \<Rightarrow> string \<Rightarrow> ReqHead \<Rightarrow> field_response_body \<Rightarrow> (json \<times> bool) option" where
  "body_finish X protocol head (Streaming parser state) =
     (case sse_finish X parser of (parser, events) \<Rightarrow>
        Some (fst (stream_state_finish (foldl stream_state_apply state events)), True))"
| "body_finish X protocol head (AwsEventStream parser state) =
     (if aws_failed (aws_finish parser) then None
      else Some (fst (bedrock_finish state), True))"
| "body_finish X protocol head (Sniffing body truncated state) =
     (if truncated then None
      else Some (field_view X protocol ''response'' body (Some (up_path (upstream head))), False))"

definition collector_finish ::
  "('x) crypto_scheme \<Rightarrow> field_response_collector \<Rightarrow> ReqHead \<Rightarrow> string \<Rightarrow> u16 \<Rightarrow> json option" where
  "collector_finish X c head norm_method status =
     (case body_finish X (fc_protocol c) head (fc_body c) of
        None \<Rightarrow> None
      | Some (resp_view, streaming) \<Rightarrow>
          build_field_claims_from_views X head norm_method status (fc_protocol c) (fc_req_view c)
            resp_view streaming)"

section \<open>Sniffing is stable under more bytes\<close>

lemma starts_with_append: "starts_with s p \<longleftrightarrow> (\<exists>r. s = p @ r)"
  by (auto simp: starts_with_def) (metis append_take_drop_id)

lemma starts_with_before_sep:
  assumes "c \<notin> set p"
  shows "starts_with (W @ c # t) p \<longleftrightarrow> starts_with W p"
proof
  assume "starts_with (W @ c # t) p"
  then obtain r where r: "W @ c # t = p @ r" by (auto simp: starts_with_append)
  then obtain us where "W @ us = p \<and> c # t = us @ r \<or> W = p @ us \<and> us @ c # t = r"
    by (auto simp: append_eq_append_conv2)
  with assms show "starts_with W p" by (cases us) (auto simp: starts_with_append)
qed (auto simp: starts_with_append)

lemma strip_all_before_sep:
  assumes "\<forall>p\<in>set ps. c \<notin> set p" and "strip_all ps s = c # t"
  shows "\<exists>W. s = W @ c # t \<and> c \<notin> set W \<and> (\<forall>t'. strip_all ps (W @ c # t') = c # t')"
  using assms
proof (induction ps s rule: strip_all.induct)
  case (1 ps s)
  have find_eq: "List.find (\<lambda>p. p \<noteq> [] \<and> starts_with (W @ c # t') p) ps
      = List.find (\<lambda>p. p \<noteq> [] \<and> starts_with W p) ps" for W t'
    using 1(2) by (intro find_cong) (auto simp: starts_with_before_sep)
  show ?case
  proof (cases "List.find (\<lambda>p. p \<noteq> [] \<and> starts_with s p) ps")
    case None
    with 1(3) have s: "s = c # t" by (simp add: strip_all.simps)
    have "strip_all ps ([] @ c # t') = c # t'" for t'
      using None find_eq [of "[]" t] find_eq [of "[]" t'] by (subst strip_all.simps) (simp add: s)
    with s show ?thesis by (intro exI [of _ "[]"]) simp
  next
    case (Some p)
    then have p: "p \<in> set ps" "starts_with s p" by (auto simp: find_Some_iff)
    then obtain r where r: "s = p @ r" by (auto simp: starts_with_append)
    from 1(3) Some have "strip_all ps (drop (length p) s) = c # t" by (subst (asm) strip_all.simps) simp
    with 1(1) [OF Some] 1(2) obtain W where
      W: "r = W @ c # t" "c \<notin> set W" "\<forall>t'. strip_all ps (W @ c # t') = c # t'"
      by (auto simp: r)
    have "strip_all ps ((p @ W) @ c # t') = c # t'" for t'
    proof -
      have "s = (p @ W) @ c # t" using r W by simp
      with Some have "List.find (\<lambda>q. q \<noteq> [] \<and> starts_with ((p @ W) @ c # t') q) ps = Some p"
        using find_eq [of "p @ W" t] find_eq [of "p @ W" t'] by simp
      then show ?thesis using W(3) by (subst strip_all.simps) simp
    qed
    with W r p 1(2) show ?thesis by (intro exI [of _ "p @ W"]) auto
  qed
qed

lemma from_utf8_lossy_head:
  assumes "from_utf8_lossy v = byte_char a # s" and "a < 0x80"
  shows "\<exists>v'. v = a # v' \<and> from_utf8_lossy v' = s"
proof (cases v)
  case (Cons b bs)
  show ?thesis
  proof (cases "b < 0x80")
    case True
    with assms Cons show ?thesis by (simp add: from_utf8_lossy_ascii_Cons del: from_utf8_lossy.simps)
  next
    case False
    have "byte_char b \<noteq> byte_char a" using False assms(2) by auto
    moreover have "hd replacement_char \<noteq> byte_char a"
    proof
      assume "hd replacement_char = byte_char a"
      then have "of_char (byte_char a) = (of_char (hd replacement_char) :: nat)" by simp
      also have "\<dots> = 0xEF" by code_simp
      finally show False using assms(2) by (simp add: byte_char_ascii)
    qed
    ultimately show ?thesis using assms(1) Cons
      by (cases "utf8_head b bs") (auto simp: replacement_char_def split: if_splits)
  qed
qed (use assms in simp)

lemma from_utf8_lossy_ascii_prefix:
  assumes "from_utf8_lossy v = p @ s" and "is_ascii p"
  shows "\<exists>v'. v = as_bytes p @ v' \<and> from_utf8_lossy v' = s"
  using assms
proof (induction p arbitrary: v)
  case (Cons c p)
  then have "char_byte c < 0x80" by (simp add: char_byte_ascii)
  with Cons.prems(1) from_utf8_lossy_head [of v "char_byte c" "p @ s"] obtain w
    where "v = char_byte c # w" "from_utf8_lossy w = p @ s" by auto
  with Cons show ?case by auto
qed simp

lemma from_utf8_lossy_ascii_append:
  "is_ascii p \<Longrightarrow> from_utf8_lossy (as_bytes p @ v) = p @ from_utf8_lossy v"
  by (induction p) (simp_all add: from_utf8_lossy_ascii_Cons char_byte_ascii del: from_utf8_lossy.simps)

text \<open>The marks of an event stream, none of which shares a character with what is skipped.\<close>

lemma sniff_mark_append:
  assumes mark: "is_ascii (c # p)" "\<forall>q\<in>set sniff_skip. c \<notin> set q"
    and "starts_with (strip_all sniff_skip (from_utf8_lossy u)) (c # p)"
  shows "starts_with (strip_all sniff_skip (from_utf8_lossy (u @ z))) (c # p)"
proof -
  define a where "a = char_byte c"
  have a: "a < 0x80" "byte_char a = c" using mark(1) by (simp_all add: a_def char_byte_ascii)
  obtain r where "strip_all sniff_skip (from_utf8_lossy u) = c # p @ r"
    using assms(3) by (auto simp: starts_with_append)
  then obtain W where W: "from_utf8_lossy u = W @ c # p @ r" "c \<notin> set W"
    "\<forall>t'. strip_all sniff_skip (W @ c # t') = c # t'"
    using strip_all_before_sep [OF mark(2)] by blast
  then have "a \<in> set u" using from_utf8_lossy_ascii_mem [OF a(1), of u] a(2) by simp
  then obtain x y where u: "u = x @ a # y" "a \<notin> set x" by (meson split_list_first)
  have "c \<notin> set (from_utf8_lossy x)" using from_utf8_lossy_ascii_mem [OF a(1), of x] u a(2) by simp
  moreover have "from_utf8_lossy x @ c # from_utf8_lossy y = W @ c # p @ r"
    using W(1) u a by (simp add: from_utf8_lossy_split)
  ultimately have "from_utf8_lossy x = W" and y: "from_utf8_lossy y = p @ r"
    using W(2) append_sep_eq [of c "from_utf8_lossy x" W] by auto
  moreover obtain y' where "y = as_bytes p @ y'"
    using from_utf8_lossy_ascii_prefix [OF y] mark(1) by auto
  ultimately have "from_utf8_lossy (u @ z) = W @ c # p @ from_utf8_lossy (y' @ z)"
    using u a mark(1) by (simp add: from_utf8_lossy_split from_utf8_lossy_ascii_append)
  then show ?thesis using W(3) by (auto simp: starts_with_append)
qed

lemma body_prefix_indicates_sse_append:
  assumes "body_prefix_indicates_sse body"
  shows "body_prefix_indicates_sse (body @ rest)"
proof -
  have skip: "\<forall>q\<in>set sniff_skip. c \<notin> set q" if "c \<in> {CHR ''d'', CHR ''e'', CHR '':''}" for c
    using that by (auto simp: sniff_skip_def white_space_def)
  have tk: "take (min (length (body @ rest)) MAX_STREAM_SNIFF_BYTES) (body @ rest)
      = take (min (length body) MAX_STREAM_SNIFF_BYTES) body @ take (MAX_STREAM_SNIFF_BYTES - length body) rest"
    by (simp add: min_def)
  note mark = sniff_mark_append [OF _ skip]
  show ?thesis
    using assms unfolding body_prefix_indicates_sse_def Let_def tk
    by (elim disjE) (simp_all add: mark)
qed

section \<open>The collector does not depend on the chunks\<close>

lemma body_push_streaming:
  "foldl (body_push X) (Streaming p s) chunks
     = (case push_all (sse_push X) p chunks of (q, es) \<Rightarrow> Streaming q (foldl stream_state_apply s es))"
  by (induction chunks arbitrary: p s) (simp_all split: prod.splits)

lemma body_push_aws:
  "foldl (body_push X) (AwsEventStream p s) chunks
     = (case push_all (aws_push X) p chunks of (q, es) \<Rightarrow> AwsEventStream q (foldl bedrock_apply s es))"
  by (induction chunks arbitrary: p s) (simp_all split: prod.splits)

definition streamed :: "('x) crypto_scheme \<Rightarrow> stream_field_state \<Rightarrow> u8 list \<Rightarrow> field_response_body" where
  "streamed X s body =
     (case sse_push X sse_new body of (q, es) \<Rightarrow> Streaming q (foldl stream_state_apply s es))"

lemma streamed_push_all:
  "foldl (body_push X) (streamed X s body) chunks = streamed X s (body @ concat chunks)"
proof -
  obtain q es where q: "sse_push X sse_new body = (q, es)" by (cases "sse_push X sse_new body")
  have "sse_ok q" using sse.push_ok [OF sse_new_ok, of X body] q by simp
  then have "push_all (sse_push X) q chunks = sse_push X q (concat chunks)"
    by (rule sse.push_all_concat)
  then show ?thesis
    using sse.push_append [OF sse_new_ok, of X body "concat chunks"]
    by (simp add: streamed_def body_push_streaming q split: prod.splits)
qed

lemma capture_within:
  "length body + length chunk \<le> MAX_FIELD_CLAIMS_CAPTURE \<Longrightarrow>
    capture_field_body (body, False) chunk = (body @ chunk, False)"
  by (simp add: Let_def)

lemma body_push_sniffing:
  assumes "\<not> body_prefix_indicates_sse body"
    and "length body + length (concat chunks) \<le> MAX_FIELD_CLAIMS_CAPTURE"
  shows "foldl (body_push X) (Sniffing body False (Some s)) chunks =
    (if body_prefix_indicates_sse (body @ concat chunks) then streamed X s (body @ concat chunks)
     else Sniffing (body @ concat chunks) False (Some s))"
  using assms
proof (induction chunks arbitrary: body)
  case (Cons c cs)
  have cap: "capture_field_body (body, False) c = (body @ c, False)"
    using Cons.prems by (intro capture_within) simp
  show ?case
  proof (cases "body_prefix_indicates_sse (body @ c)")
    case True
    then have "body_prefix_indicates_sse ((body @ c) @ concat cs)"
      by (rule body_prefix_indicates_sse_append)
    with True cap streamed_push_all [of X s "body @ c" cs] show ?thesis
      by (simp add: streamed_def [of X s "body @ c"] del: capture_field_body.simps split: prod.splits)
  next
    case False
    with cap Cons.IH [of "body @ c"] Cons.prems(2) show ?thesis
      by (simp del: capture_field_body.simps)
  qed
qed simp

lemma not_indicates_Nil: "\<not> body_prefix_indicates_sse []"
  by code_simp

definition collect ::
  "('x) crypto_scheme \<Rightarrow> string option \<Rightarrow> ReqHead \<Rightarrow> u8 list \<Rightarrow> string \<Rightarrow> u8 list list \<Rightarrow> string \<Rightarrow> u16 \<Rightarrow> json option" where
  "collect X configured_env head req_body content_type chunks norm_method status =
     (case collector_new X configured_env head req_body content_type of
        None \<Rightarrow> None
      | Some c \<Rightarrow> collector_finish X (foldl (collector_push X) c chunks) head norm_method status)"

lemma collector_push_all:
  "foldl (collector_push X) c chunks = c\<lparr>fc_body := foldl (body_push X) (fc_body c) chunks\<rparr>"
  by (induction chunks arbitrary: c) (simp_all add: collector_push_def)

text \<open>The protocol of an exchange is supported.\<close>

lemma normalize_supported: "normalize_protocol_family v = Some p \<Longrightarrow> p \<in> set SUPPORTED_PROTOCOLS"
  by (auto simp: normalize_protocol_family_def SUPPORTED_PROTOCOLS_def Let_def split: if_splits)

lemma detect_from_body_supported: "detect_from_body v = Some p \<Longrightarrow> p \<in> set SUPPORTED_PROTOCOLS"
  by (auto simp: detect_from_body_def SUPPORTED_PROTOCOLS_def Let_def split: if_splits)

lemma detect_supported:
  assumes "detect_protocol_family X host path body enhanced configured = Some p"
  shows "p \<in> set SUPPORTED_PROTOCOLS"
proof -
  have "p \<in> set SUPPORTED_PROTOCOLS"
    if "(case Option.bind enhanced normalize_protocol_family of
                 Some protocol \<Rightarrow> Some protocol
               | None \<Rightarrow>
                   (case Option.bind configured normalize_protocol_family of
                      Some protocol \<Rightarrow> Some protocol
                    | None \<Rightarrow> Option.bind (from_slice X body) detect_from_body)) = Some p"
    using that by (auto simp: bind_eq_Some_conv normalize_supported detect_from_body_supported
        split: option.splits)
  then show ?thesis using assms
    unfolding detect_protocol_family_def Let_def
    by (auto simp: SUPPORTED_PROTOCOLS_def split: if_splits)
qed

lemma exchange_supported: "exchange_protocol X env head req = Some p \<Longrightarrow> p \<in> set SUPPORTED_PROTOCOLS"
  unfolding exchange_protocol_def Let_def by (rule detect_supported)

lemma stream_state_new_supported:
  "p \<in> set SUPPORTED_PROTOCOLS \<Longrightarrow> \<exists>s. stream_state_new p = Some s"
  by (auto simp: SUPPORTED_PROTOCOLS_def stream_state_new_def)

lemma field_policy_version_supported: "p \<in> set SUPPORTED_PROTOCOLS \<Longrightarrow> \<exists>v. field_policy_version p = Some v"
  unfolding field_policy_version_def field_policy_registry_def SUPPORTED_PROTOCOLS_def
  by (auto simp: bt_insert_get simp del: bt_insert.simps)

lemma stream_state_new_bedrock: "stream_state_new ''aws.bedrock.converse'' = Some (BedrockConverse bedrock_new)"
  by (simp add: stream_state_new_def)

lemma collector_new_Some:
  assumes "collector_new X env head req ct = Some c"
  shows "exchange_protocol X env head req = Some (fc_protocol c)"
    and "fc_req_view c = field_view X (fc_protocol c) ''request'' req (Some (up_path (upstream head)))"
    and "has_required_presence (fc_protocol c) ''request'' (fc_req_view c)"
    and "(\<exists>s. stream_state_new (fc_protocol c) = Some s
             \<and> fc_body c \<in> {Streaming sse_new s, Sniffing [] False (Some s)})
         \<or> fc_body c = AwsEventStream aws_new bedrock_new"
proof -
  obtain p where p: "exchange_protocol X env head req = Some p"
    using assms by (cases "exchange_protocol X env head req") (auto simp: collector_new_def)
  obtain s where s: "stream_state_new p = Some s"
    using stream_state_new_supported [OF exchange_supported [OF p]] by blast
  from assms p s show "exchange_protocol X env head req = Some (fc_protocol c)"
    and "fc_req_view c = field_view X (fc_protocol c) ''request'' req (Some (up_path (upstream head)))"
    and "has_required_presence (fc_protocol c) ''request'' (fc_req_view c)"
    and "(\<exists>s. stream_state_new (fc_protocol c) = Some s
             \<and> fc_body c \<in> {Streaming sse_new s, Sniffing [] False (Some s)})
         \<or> fc_body c = AwsEventStream aws_new bedrock_new"
    by (auto simp: collector_new_def Let_def split: if_splits)
qed

lemma streamed_sse_new: "streamed X s [] = Streaming sse_new s"
  using sse.push_Nil [OF sse_new_ok, of X] by (simp add: streamed_def)

lemma aws_new_ok: "aws_ok X aws_new"
  by (simp add: aws_ok_def aws_new_def aws_next_def)

lemma collector_body_chunks:
  assumes "collector_new X env head req ct = Some c"
    and "length (concat cs) \<le> MAX_FIELD_CLAIMS_CAPTURE" and "concat cs = concat ds"
  shows "foldl (body_push X) (fc_body c) cs = foldl (body_push X) (fc_body c) ds"
proof -
  consider (streaming) s where "fc_body c = Streaming sse_new s"
    | (sniffing) s where "fc_body c = Sniffing [] False (Some s)"
    | (aws) "fc_body c = AwsEventStream aws_new bedrock_new"
    using collector_new_Some(4) [OF assms(1)] by blast
  then show ?thesis
  proof cases
    case streaming
    with assms(3) show ?thesis
      using streamed_push_all [of X s "[]" cs] streamed_push_all [of X s "[]" ds]
      by (simp add: streamed_sse_new)
  next
    case sniffing
    with assms show ?thesis by (simp add: body_push_sniffing not_indicates_Nil)
  next
    case aws
    with aws.push_all_same [where X = X, OF aws_new_ok assms(3)] show ?thesis by (simp add: body_push_aws)
  qed
qed

section \<open>Properties\<close>

text \<open>
  C9: The claims do not depend on how the network delivers a response.  For responses up to the
  capture limit of eight megabytes, two ways to cut the same body into chunks give the same claims,
  or none in both cases, whether the collector streams, parses AWS frames or sniffs.
\<close>

theorem collect_any_chunking:
  assumes "concat cs = concat ds" and "length (concat cs) \<le> MAX_FIELD_CLAIMS_CAPTURE"
  shows "collect X env head req ct cs m st = collect X env head req ct ds m st"
proof (cases "collector_new X env head req ct")
  case (Some c)
  with collector_body_chunks [OF Some assms(2,1)] show ?thesis
    by (simp add: collect_def collector_push_all)
qed (simp add: collect_def)

text \<open>
  C11: Claims of a streamed response.  When the upstream answers with the content type of an event
  stream and the body looks like one, the claims collected chunk by chunk are the claims
  \<^verbatim>\<open>build_field_claims\<close> computes from the complete bodies.
\<close>

theorem collect_streamed:
  assumes "is_sse_content_type ct" and "looks_like_sse (concat chunks)"
  shows "collect X env head req ct chunks m st = build_field_claims X env head m st req (concat chunks)"
proof (cases "exchange_protocol X env head req")
  case None
  then show ?thesis by (simp add: collect_def collector_new_def build_field_claims_def)
next
  case (Some p)
  obtain s where s: "stream_state_new p = Some s"
    using stream_state_new_supported [OF exchange_supported [OF Some]] by blast
  define rv where "rv = field_view X p ''request'' req (Some (up_path (upstream head)))"
  show ?thesis
  proof (cases "has_required_presence p ''request'' rv")
    case False
    with Some show ?thesis
      by (simp add: collect_def collector_new_def build_field_claims_def Let_def rv_def [symmetric]
          build_field_claims_from_views_def)
  next
    case True
    with Some s assms(1) have new: "collector_new X env head req ct
        = Some \<lparr>fc_protocol = p, fc_req_view = rv, fc_body = Streaming sse_new s\<rparr>"
      by (simp add: collector_new_def Let_def rv_def)
    obtain q es where q: "push_all (sse_push X) sse_new chunks = (q, es)"
      by (cases "push_all (sse_push X) sse_new chunks")
    have "parse_sse_data X (concat chunks) = JArray (es @ snd (sse_finish X q))"
    proof -
      have "push_all (sse_push X) sse_new chunks = sse_drain X (Sse_state (concat chunks) [])"
        using sse.push_all_concat [OF sse_new_ok, of X chunks] by (simp add: sse_push_def sse_new_def)
      with sse_events_batch [of X "concat chunks" "[]"] q show ?thesis
        by (simp add: parse_sse_data_def)
    qed
    then have "body_finish X p head (foldl (body_push X) (Streaming sse_new s) chunks)
        = Some (field_view X p ''response'' (concat chunks) (Some (up_path (upstream head))), True)"
      using assms(2) stream_view [OF s, of "es @ snd (sse_finish X q)" "Some (up_path (upstream head))"]
      by (simp add: body_push_streaming q field_view_def case_prod_beta)
    with new Some assms(2) show ?thesis
      by (simp add: collect_def collector_push_all collector_finish_def build_field_claims_def rv_def)
  qed
qed

text \<open>
  C12: Claims of a response that is not streamed.  When neither the content type nor the request
  nor the first bytes of the body indicate a stream and the body is within the capture limit, the
  claims collected chunk by chunk are those of the complete bodies.
\<close>

theorem collect_sniffed:
  assumes "\<not> is_sse_content_type ct" and "\<not> is_aws_event_stream_content_type ct"
    and "\<forall>p. exchange_protocol X env head req = Some p \<longrightarrow>
           \<not> request_indicates_streaming X p req (up_path (upstream head))"
    and "\<not> body_prefix_indicates_sse (concat chunks)" and "\<not> looks_like_sse (concat chunks)"
    and "length (concat chunks) \<le> MAX_FIELD_CLAIMS_CAPTURE"
  shows "collect X env head req ct chunks m st = build_field_claims X env head m st req (concat chunks)"
proof (cases "exchange_protocol X env head req")
  case None
  then show ?thesis by (simp add: collect_def collector_new_def build_field_claims_def)
next
  case (Some p)
  obtain s where s: "stream_state_new p = Some s"
    using stream_state_new_supported [OF exchange_supported [OF Some]] by blast
  have ns: "\<not> request_indicates_streaming X p req (up_path (upstream head))" using assms(3) Some by blast
  then have nb: "p = ''aws.bedrock.converse'' \<longrightarrow> \<not> path_is_bedrock_converse_stream (up_path (upstream head))"
    by (auto simp: request_indicates_streaming_def Let_def)
  define rv where "rv = field_view X p ''request'' req (Some (up_path (upstream head)))"
  show ?thesis
  proof (cases "has_required_presence p ''request'' rv")
    case False
    with Some show ?thesis
      by (simp add: collect_def collector_new_def build_field_claims_def Let_def rv_def [symmetric]
          build_field_claims_from_views_def)
  next
    case True
    with Some s ns nb assms(1,2) have new: "collector_new X env head req ct
        = Some \<lparr>fc_protocol = p, fc_req_view = rv, fc_body = Sniffing [] False (Some s)\<rparr>"
      by (auto simp: collector_new_def Let_def rv_def)
    have "foldl (body_push X) (Sniffing [] False (Some s)) chunks = Sniffing (concat chunks) False (Some s)"
      using body_push_sniffing [OF not_indicates_Nil, of chunks X s] assms(4,6) by simp
    with new Some assms(5) show ?thesis
      by (simp add: collect_def collector_push_all collector_finish_def build_field_claims_def rv_def)
  qed
qed

lemma body_push_over_limit:
  assumes "body_prefix_indicates_sse chunk" and "MAX_FIELD_CLAIMS_CAPTURE < length chunk"
  shows "body_push X (Sniffing [] False (Some s)) chunk
    = streamed X s (take MAX_FIELD_CLAIMS_CAPTURE chunk)"
    and "body_prefix_indicates_sse (take MAX_FIELD_CLAIMS_CAPTURE chunk)"
proof -
  have "take (min (length (take MAX_FIELD_CLAIMS_CAPTURE chunk)) MAX_STREAM_SNIFF_BYTES)
        (take MAX_FIELD_CLAIMS_CAPTURE chunk)
      = take (min (length chunk) MAX_STREAM_SNIFF_BYTES) chunk"
    using assms(2) by (simp add: MAX_FIELD_CLAIMS_CAPTURE_def MAX_STREAM_SNIFF_BYTES_def min_def)
  with assms show pre: "body_prefix_indicates_sse (take MAX_FIELD_CLAIMS_CAPTURE chunk)"
    by (simp only: body_prefix_indicates_sse_def)
  with assms(2) show "body_push X (Sniffing [] False (Some s)) chunk
    = streamed X s (take MAX_FIELD_CLAIMS_CAPTURE chunk)"
    by (simp add: Let_def streamed_def split: prod.split)
qed

text \<open>
  C39: A truncated event stream keeps its claims.  When the collector sniffs and the first chunk of the
  response is longer than the capture limit and starts like an event stream, the bytes of that chunk
  past the limit have no effect on the claims that are signed, although the chunks after it do:
  claims for a response that was cut in the middle are the claims signed for the response.
\<close>

theorem sniffed_stream_drops_bytes:
  assumes "collector_new X env head req ct = Some c" and "fc_body c = Sniffing [] False (Some s)"
    and "body_prefix_indicates_sse chunk" and "MAX_FIELD_CLAIMS_CAPTURE < length chunk"
  shows "collect X env head req ct (chunk # rest) m st
      = collect X env head req ct (take MAX_FIELD_CLAIMS_CAPTURE chunk # rest) m st
    \<and> foldl (body_push X) (fc_body c) (chunk # rest)
      = streamed X s (take MAX_FIELD_CLAIMS_CAPTURE chunk @ concat rest)"
proof -
  let ?short = "take MAX_FIELD_CLAIMS_CAPTURE chunk"
  have "body_push X (Sniffing [] False (Some s)) ?short = streamed X s ?short"
    using body_push_sniffing [OF not_indicates_Nil, of "[?short]" X s] body_push_over_limit(2) [OF assms(3,4)] by simp
  with body_push_over_limit(1) [OF assms(3,4)] have same: "body_push X (fc_body c) chunk = streamed X s ?short"
      "body_push X (fc_body c) ?short = streamed X s ?short"
    by (simp_all only: assms(2))
  then have "foldl (body_push X) (fc_body c) (chunk # rest) = foldl (body_push X) (fc_body c) (?short # rest)"
    by simp
  with same assms(1) streamed_push_all [of X s ?short rest] show ?thesis by (simp add: collect_def collector_push_all collector_push_def)
qed

section \<open>Witnesses\<close>

definition sample_head :: ReqHead where
  "sample_head =
     \<lparr>nonce = ''bm9uY2U='', egress_port = 443,
      upstream = \<lparr>up_host = ''api.example.com'', up_method = ''POST'', up_path = ''/v1/chat/completions'',
        up_headers = [], up_headers_ordered = None\<rparr>,
      token = None, client_protocol_family = None, downstream_protocol_family = None,
      protocol_family = None, tls_seed = None, tls_spec = None\<rparr>"

text \<open>A chat request and answer the sample parser knows: the letters stand for the texts of the two bodies.\<close>

definition chat_request :: json where
  "chat_request = JObject [(''messages'', JArray [JString ''hi'']), (''model'', JString ''m'')]"

definition chat_answer :: json where
  "chat_answer = JObject [(''choices'', JArray [JNull])]"

definition chat_parse :: "string \<Rightarrow> json option" where
  "chat_parse s = (if s = ''Q'' then Some chat_request else if s = ''A'' then Some chat_answer else None)"

lemma sample_protocol: "exchange_protocol X env sample_head req = Some ''openai.chat_completions''"
proof -
  have "str_contains (to_ascii_lowercase (path_no_query (up_path (upstream sample_head)))) ''/chat/completions''"
    by code_simp
  then show ?thesis by (simp add: exchange_protocol_def detect_protocol_family_def Let_def)
qed

lemma sample_collector:
  "\<exists>c. collector_new (sample_crypto chat_parse) env sample_head (as_bytes ''Q'') ''application/json'' = Some c
     \<and> fc_protocol c = ''openai.chat_completions'' \<and> fc_req_view c = chat_request
     \<and> fc_body c = Sniffing [] False (Some (OpenAiChat openai_chat_new))"
proof -
  let ?X = "sample_crypto chat_parse" and ?p = "''openai.chat_completions''"
  have v: "field_view ?X ?p ''request'' (as_bytes ''Q'') (Some (up_path (upstream sample_head))) = chat_request" by code_simp
  have "has_required_presence ?p ''request'' chat_request"
    "\<not> request_indicates_streaming ?X ?p (as_bytes ''Q'') (up_path (upstream sample_head))"
    "\<not> is_sse_content_type ''application/json''" by code_simp+
  with v show ?thesis by (simp add: collector_new_def sample_protocol stream_state_new_def Let_def)
qed

theorem sniffed_stream_drops_bytes_witness:
  "collect (sample_crypto chat_parse) None sample_head (as_bytes ''Q'') ''application/json''
      [as_bytes ''data:'' @ replicate MAX_FIELD_CLAIMS_CAPTURE 0] ''POST'' 200
    = collect (sample_crypto chat_parse) None sample_head (as_bytes ''Q'') ''application/json''
      [take MAX_FIELD_CLAIMS_CAPTURE (as_bytes ''data:'' @ replicate MAX_FIELD_CLAIMS_CAPTURE 0)] ''POST'' 200"
proof -
  obtain c where c: "collector_new (sample_crypto chat_parse) None sample_head (as_bytes ''Q'') ''application/json'' = Some c"
      "fc_body c = Sniffing [] False (Some (OpenAiChat openai_chat_new))" using sample_collector by blast
  have "body_prefix_indicates_sse (as_bytes ''data:'')" by code_simp
  then have "body_prefix_indicates_sse (as_bytes ''data:'' @ replicate MAX_FIELD_CLAIMS_CAPTURE 0)"
    by (rule body_prefix_indicates_sse_append)
  from sniffed_stream_drops_bytes [OF c this] show ?thesis by simp
qed

theorem collect_any_chunking_witness:
  "collect (sample_crypto (\<lambda>_. None)) None sample_head [] ''text/event-stream''
      [as_bytes ''data: '', as_bytes ''1''] ''POST'' 200
    = collect (sample_crypto (\<lambda>_. None)) None sample_head [] ''text/event-stream''
      [as_bytes ''da'', [], as_bytes ''ta: 1''] ''POST'' 200"
  by (rule collect_any_chunking) (simp_all add: MAX_FIELD_CLAIMS_CAPTURE_def)

theorem collect_streamed_witness:
  "collect (sample_crypto (\<lambda>_. None)) None sample_head [] ''text/event-stream''
      [as_bytes ''da'', as_bytes ''ta: 1''] ''POST'' 200
    = build_field_claims (sample_crypto (\<lambda>_. None)) None sample_head ''POST'' 200 []
        (concat [as_bytes ''da'', as_bytes ''ta: 1''])"
proof (rule collect_streamed)
  show "is_sse_content_type ''text/event-stream''" by code_simp
  show "looks_like_sse (concat [as_bytes ''da'', as_bytes ''ta: 1''])" by code_simp
qed

theorem collect_sniffed_witness:
  "collect (sample_crypto (\<lambda>_. None)) None sample_head [] ''application/json''
      [as_bytes ''{'', as_bytes ''}''] ''POST'' 200
    = build_field_claims (sample_crypto (\<lambda>_. None)) None sample_head ''POST'' 200 []
        (concat [as_bytes ''{'', as_bytes ''}''])"
proof (rule collect_sniffed)
  show "\<not> is_sse_content_type ''application/json''" by code_simp
  show "\<not> is_aws_event_stream_content_type ''application/json''" by code_simp
  have "exchange_protocol (sample_crypto (\<lambda>_. None)) None sample_head [] = Some ''openai.chat_completions''"
    by (rule sample_protocol)
  moreover have "\<not> request_indicates_streaming (sample_crypto (\<lambda>_. None)) ''openai.chat_completions'' []
      (up_path (upstream sample_head))"
    by code_simp
  ultimately show "\<forall>p. exchange_protocol (sample_crypto (\<lambda>_. None)) None sample_head [] = Some p \<longrightarrow>
      \<not> request_indicates_streaming (sample_crypto (\<lambda>_. None)) p [] (up_path (upstream sample_head))"
    by simp
  show "\<not> body_prefix_indicates_sse (concat [as_bytes ''{'', as_bytes ''}''])" by code_simp
  show "\<not> looks_like_sse (concat [as_bytes ''{'', as_bytes ''}''])" by code_simp
qed (simp add: MAX_FIELD_CLAIMS_CAPTURE_def)

end
