(* ===== verification/Claims_Binding.thy ===== *)
theory Claims_Binding
  imports Field_Claims
begin

text \<open>
  What the digest of the claims stands for.  The claims of an exchange carry digests of the canonical
  text of two views, the fields of the request and of the response that a verifier checks; the signed
  statement carries the digest of the canonical text of the claims.  Here the views an exchange ends
  with are shown to be well-formed values in every mode of the collector, as the canonical text needs
  it, and a digest of claims is traced back to the protocol, the views and the facts of the exchange.
\<close>

section \<open>The views of an exchange\<close>

definition exchange_views ::
  "('x) crypto_scheme \<Rightarrow> string option \<Rightarrow> ReqHead \<Rightarrow> u8 list \<Rightarrow> string \<Rightarrow> u8 list list
    \<Rightarrow> (string \<times> json \<times> json \<times> bool) option" where
  "exchange_views X configured_env head req_body content_type chunks =
     (case collector_new X configured_env head req_body content_type of
        None \<Rightarrow> None
      | Some c \<Rightarrow>
          map_option (\<lambda>(resp_view, streaming). (fc_protocol c, fc_req_view c, resp_view, streaming))
            (body_finish X (fc_protocol c) head (foldl (body_push X) (fc_body c) chunks)))"

lemma collect_views:
  "collect X env head req ct chunks m st =
     Option.bind (exchange_views X env head req ct chunks)
       (\<lambda>(p, q, r, streaming). build_field_claims_from_views X head m st p q r streaming)"
  by (auto simp: collect_def exchange_views_def collector_finish_def collector_push_all split: option.splits)

section \<open>Parsed events are well-formed\<close>

text \<open>What the parser of the crate promises: it returns values of the crate.\<close>

definition parser_ok :: "('x) serde_scheme \<Rightarrow> bool" where
  "parser_ok X \<longleftrightarrow> (\<forall>s v. from_str X s = Some v \<longrightarrow> wf_json v)"

lemma parser_okD: "parser_ok X \<Longrightarrow> from_str X s = Some v \<Longrightarrow> wf_json v"
  by (simp add: parser_ok_def)

lemma invalid_sse_json_wf [wf_intros]: "wf_json (invalid_sse_json X data)"
  by (simp add: invalid_sse_json_def wf_intros del: bt_insert.simps)

lemma sse_flush_wf: "parser_ok X \<Longrightarrow> list_all wf_json (snd (sse_flush X p))"
  by (auto simp: sse_flush_def Let_def wf_intros dest: parser_okD split: option.splits)

lemma sse_process_line_wf: "parser_ok X \<Longrightarrow> list_all wf_json (snd (sse_process_line X p line))"
  by (simp add: sse_process_line_def sse_flush_wf split: option.splits)

lemma sse_drain_wf: "parser_ok X \<Longrightarrow> list_all wf_json (snd (sse_drain X p))"
proof (induction X p rule: sse_drain.induct)
  case (1 X p)
  then show ?case
    by (subst sse_drain.simps) (auto simp: Let_def case_prod_beta sse_process_line_wf split: option.splits)
qed

lemma sse_push_wf: "parser_ok X \<Longrightarrow> list_all wf_json (snd (sse_push X p chunk))"
  by (simp add: sse_push_def sse_drain_wf)

lemma sse_finish_wf: "parser_ok X \<Longrightarrow> list_all wf_json (snd (sse_finish X p))"
  by (simp add: sse_finish_def case_prod_beta sse_process_line_wf sse_flush_wf)

lemma aws_next_wf: "parser_ok X \<Longrightarrow> aws_next X bs = Message n es \<Longrightarrow> list_all wf_json es"
  by (auto simp: aws_next_def Let_def dest: parser_okD split: if_splits option.splits)

lemma aws_drain_wf:
  assumes "parser_ok X"
  shows "list_all wf_json (snd (aws_drain X (Aws_state bs f)))"
proof (induction bs rule: aws_messages_induct [of X])
  case (stop bs)
  then show ?case by (subst aws_drain_next) (auto split: aws_next.split)
next
  case (message bs n es)
  with aws_next_wf [OF assms message(1)] show ?case by (subst aws_drain_next) (auto split: prod.splits)
qed

lemma aws_push_wf: "parser_ok X \<Longrightarrow> list_all wf_json (snd (aws_push X p chunk))"
  using aws_drain_wf [of X "aws_pending p @ chunk" "aws_failed p"] by (cases p) (auto simp: aws_push_def)

lemma flush_sse_data_wf:
  "parser_ok X \<Longrightarrow> list_all wf_json (snd acc) \<Longrightarrow> list_all wf_json (snd (flush_sse_data X acc))"
  by (cases acc) (auto simp: Let_def wf_intros dest: parser_okD split: option.splits)

lemma parse_sse_line_wf:
  "parser_ok X \<Longrightarrow> list_all wf_json (snd acc) \<Longrightarrow> list_all wf_json (snd (parse_sse_line X acc line))"
  using flush_sse_data_wf [of X acc] by (cases acc) (simp split: option.splits)

lemma parse_sse_data_wf:
  assumes "parser_ok X"
  shows "wf_json (parse_sse_data X body)"
proof -
  have "list_all wf_json (snd (foldl (parse_sse_line X) acc lines))" if "list_all wf_json (snd acc)" for acc lines
    using that by (induction lines arbitrary: acc) (simp_all add: parse_sse_line_wf [OF assms] del: parse_sse_line.simps)
  then show ?thesis by (simp add: parse_sse_data_def flush_sse_data_wf [OF assms])
qed

lemma parse_json_body_wf: "parser_ok X \<Longrightarrow> wf_json (parse_json_body X body)"
  by (auto simp: parse_json_body_def Let_def wf_intros dest: parser_okD simp del: bt_insert.simps split: option.splits)

section \<open>Views are well-formed\<close>

lemma insert_model_wf:
  assumes "wf_json view"
  shows "wf_json (case view of JObject out \<Rightarrow>
      JObject (if \<not> bt_contains out k then (case model of Some s \<Rightarrow> bt_insert k (JString s) out | None \<Rightarrow> out) else out)
    | v \<Rightarrow> v)"
  using assms by (cases view) (simp_all add: wf_map_insert split: option.split)

lemma request_view_wf:
  assumes "wf_json v"
  shows "wf_json (gemini_generate_content_request_view v path)" "wf_json (bedrock_converse_request_view v path)"
  unfolding gemini_generate_content_request_view_def bedrock_converse_request_view_def
  by (rule insert_model_wf [OF pick_value_wf [OF assms]])+

lemma parsed_view_wf:
  assumes "protocol \<in> set SUPPORTED_PROTOCOLS" and "wf_json v" and "kind = ''request'' \<or> kind = ''response''"
  shows "wf_json (parsed_view protocol kind v path)"
proof (cases "kind = ''response'' \<and> is_array v")
  case True
  then obtain es where "v = JArray es" by (cases v) (simp_all add: is_array_def)
  with True assms parsed_view_wf_array [OF assms(1), of es path] show ?thesis by simp
next
  case False
  with assms(3) consider "kind = ''request''" | "kind = ''response''" "\<not> is_array v" by blast
  then show ?thesis
    by cases (simp_all add: parsed_view_def openai_responses_view_def anthropic_messages_view_def
        gemini_generate_content_view_def dashscope_generation_view_def bedrock_converse_view_def cohere_chat_view_def
        pick_value_wf request_view_wf assms(2))
qed

lemma field_view_wf:
  assumes "parser_ok X" and "protocol \<in> set SUPPORTED_PROTOCOLS" and "kind = ''request'' \<or> kind = ''response''"
  shows "wf_json (field_view X protocol kind body path)"
  using assms by (simp add: field_view_def parsed_view_wf parse_sse_data_wf parse_json_body_wf)

text \<open>The invariant of a response body in the collector: its state consumed well-formed events only.\<close>

fun body_wf :: "string \<Rightarrow> field_response_body \<Rightarrow> bool" where
  "body_wf p (Streaming q s) \<longleftrightarrow>
     (\<exists>s0 es. stream_state_new p = Some s0 \<and> list_all wf_json es \<and> s = foldl stream_state_apply s0 es)"
| "body_wf p (AwsEventStream q s) \<longleftrightarrow> (\<exists>es. list_all wf_json es \<and> s = foldl bedrock_apply bedrock_new es)"
| "body_wf p (Sniffing b t st) \<longleftrightarrow> st = stream_state_new p"

lemma body_wf_new:
  "collector_new X env head req ct = Some c \<Longrightarrow> body_wf (fc_protocol c) (fc_body c)"
  using collector_new_Some(4) [of X env head req ct c] by (force intro: exI [of _ "[]"])

lemma stream_extend:
  assumes "body_wf p (Streaming q s)" and "list_all wf_json es"
  shows "body_wf p (Streaming q' (foldl stream_state_apply s es))"
proof -
  obtain s0 fs where "stream_state_new p = Some s0" "list_all wf_json fs" "s = foldl stream_state_apply s0 fs"
    using assms(1) by auto
  with assms(2) show ?thesis by (auto intro!: exI [of _ "fs @ es"])
qed

lemma body_wf_push:
  assumes "parser_ok X" and "body_wf p b"
  shows "body_wf p (body_push X b chunk)"
proof (cases b)
  case (Streaming q s)
  with assms(2) stream_extend [of p q s] sse_push_wf [OF assms(1)] show ?thesis
    by (auto simp: case_prod_beta simp del: body_wf.simps)
next
  case (AwsEventStream q s)
  then obtain es where "list_all wf_json es" "s = foldl bedrock_apply bedrock_new es" using assms(2) by auto
  with AwsEventStream aws_push_wf [OF assms(1), of q chunk] show ?thesis
    by (auto simp: case_prod_beta intro!: exI [of _ "es @ snd (aws_push X q chunk)"])
next
  case (Sniffing body t st)
  obtain body' t' where cap: "capture_field_body (body, t) chunk = (body', t')" by fastforce
  with Sniffing assms(2) sse_push_wf [OF assms(1), of sse_new body'] show ?thesis
    by (auto simp: case_prod_beta simp del: capture_field_body.simps split: option.splits)
qed

lemma body_wf_push_all:
  assumes "parser_ok X"
  shows "body_wf p b \<Longrightarrow> body_wf p (foldl (body_push X) b chunks)"
  by (induction chunks arbitrary: b) (simp_all add: body_wf_push [OF assms])

lemma body_finish_wf:
  assumes "parser_ok X" and "p \<in> set SUPPORTED_PROTOCOLS" and "body_wf p b" and "body_finish X p head b = Some (v, streaming)"
  shows "wf_json v"
proof (cases b)
  case (Streaming q s)
  with assms(3) stream_extend [OF _ sse_finish_wf [OF assms(1)], of p q s q q]
  obtain s0 es where "stream_state_new p = Some s0" "list_all wf_json es"
      "foldl stream_state_apply s (snd (sse_finish X q)) = foldl stream_state_apply s0 es" by auto
  with Streaming assms(2,4) show ?thesis
    by (auto simp: case_prod_beta stream_view [of p s0 es None] parsed_view_wf_array)
next
  case (AwsEventStream q s)
  then obtain es where "list_all wf_json es" "s = foldl bedrock_apply bedrock_new es" using assms(3) by auto
  with AwsEventStream assms(4) bedrock.result_wf [of es] show ?thesis
    by (auto simp: bedrock.batch_eq_stream split: if_splits)
next
  case (Sniffing body t st)
  with assms(1,2,4) show ?thesis by (auto simp: field_view_wf split: if_splits)
qed

lemma exchange_views_ok:
  assumes "parser_ok X" and "exchange_views X env head req ct chunks = Some (p, q, r, streaming)"
  shows "p \<in> set SUPPORTED_PROTOCOLS" "wf_json q" "wf_json r"
proof -
  obtain c where c: "collector_new X env head req ct = Some c" and p: "p = fc_protocol c" and q: "q = fc_req_view c"
      and fin: "body_finish X p head (foldl (body_push X) (fc_body c) chunks) = Some (r, streaming)"
    using assms(2) by (auto simp: exchange_views_def split: option.splits)
  note new = collector_new_Some [OF c]
  show sup: "p \<in> set SUPPORTED_PROTOCOLS" using exchange_supported [OF new(1)] by (simp add: p)
  then show "wf_json q" using new(2) field_view_wf [OF assms(1)] by (simp add: p q)
  show "wf_json r"
    using body_finish_wf [OF assms(1) sup _ fin] body_wf_push_all [OF assms(1)] body_wf_new [OF c] by (simp add: p)
qed

section \<open>From a digest to the fields\<close>

text \<open>SHA-256 does not collide on the canonical texts of some values.\<close>

definition no_collision :: "('x) crypto_scheme \<Rightarrow> json set \<Rightarrow> bool" where
  "no_collision X vs \<longleftrightarrow> inj_on (sha256 X) ((\<lambda>v. as_bytes (canonical_json X v)) ` vs)"

lemma digest_inj:
  assumes "printer_ok X" and "no_collision X vs" and "v \<in> vs" and "w \<in> vs" and "wf_json v" and "wf_json w"
    and "sha256_hex X (as_bytes (canonical_json X v)) = sha256_hex X (as_bytes (canonical_json X w))"
  shows "v = w"
proof -
  have "sha256 X (as_bytes (canonical_json X v)) = sha256 X (as_bytes (canonical_json X w))"
    using assms(7) by (simp add: sha256_hex_def hex_inj)
  then have "canonical_json X v = canonical_json X w"
    using assms(2-4) by (auto simp: no_collision_def dest: inj_onD)
  with canonical_json_inj_aux [OF assms(1,5,6), of "[]" "[]"] show ?thesis by simp
qed

lemma json_object_wf:
  assumes "\<forall>kv\<in>set kvs. wf_json (snd kv)"
  shows "wf_json (json_object kvs)"
proof -
  have "wf_map m \<Longrightarrow> wf_map (fold (\<lambda>(k, v). bt_insert k v) kvs m)" for m
    using assms by (induction kvs arbitrary: m) (auto simp: wf_map_insert)
  then show ?thesis by (simp add: json_object_def)
qed

lemma json_object_get: "value_get (json_object kvs) k = map_of (rev kvs) k"
proof -
  have "bt_get (fold (\<lambda>(k, v). bt_insert k v) kvs m) k = (case map_of (rev kvs) k of Some v \<Rightarrow> Some v | None \<Rightarrow> bt_get m k)" for m
    by (induction kvs arbitrary: m) (auto simp: bt_insert_get map_add_def split: option.splits)
  from this [of bt_empty] show ?thesis by (simp add: json_object_def bt_empty_def split: option.splits)
qed

lemma claims_from_views:
  assumes "build_field_claims_from_views X head m st p q r streaming = Some c"
  shows "wf_json c"
    and "value_get c ''nonce'' = Some (JString (nonce head))"
    and "value_get c ''protocol_family'' = Some (JString p)"
    and "value_get c ''upstream_host'' = Some (JString (to_ascii_lowercase (up_host (upstream head))))"
    and "value_get c ''upstream_path'' = Some (JString (path_no_query (up_path (upstream head))))"
    and "value_get c ''http_method'' = Some (JString (to_ascii_uppercase m))"
    and "value_get c ''http_status'' = Some (jint (uint st))"
    and "value_get c ''upstream_request_fields_sha256'' = Some (JString (sha256_hex X (as_bytes (canonical_json X q))))"
    and "value_get c ''upstream_response_fields_sha256'' = Some (JString (sha256_hex X (as_bytes (canonical_json X r))))"
    and "value_get c ''streaming'' = Some (JBool streaming)"
proof -
  have "0 \<le> uint st" by simp
  then have "- (2 ^ 63) \<le> uint st" by (rule order_trans [rotated]) simp
  then have st: "wf_json (jint (uint st))" using uint_bounded [of st] by simp
  show "wf_json c"
    using assms st unfolding build_field_claims_from_views_def
    by (auto simp: Let_def intro!: json_object_wf split: if_splits option.splits)
qed (use assms in \<open>auto simp: build_field_claims_from_views_def Let_def json_object_get split: if_splits option.splits\<close>)

text \<open>The values whose digests an exchange is about: its two views and its claims.\<close>

definition digested ::
  "('x) crypto_scheme \<Rightarrow> string option \<Rightarrow> ReqHead \<Rightarrow> u8 list \<Rightarrow> string \<Rightarrow> u8 list list \<Rightarrow> string \<Rightarrow> u16 \<Rightarrow> json set" where
  "digested X env head req ct chunks m st =
     (case exchange_views X env head req ct chunks of
        None \<Rightarrow> {}
      | Some (p, q, r, streaming) \<Rightarrow> {q, r} \<union> set_option (collect X env head req ct chunks m st))"

lemma collect_Some:
  assumes "collect X env head req ct chunks m st = Some c"
  obtains p q r streaming where "exchange_views X env head req ct chunks = Some (p, q, r, streaming)"
    "build_field_claims_from_views X head m st p q r streaming = Some c"
    "digested X env head req ct chunks m st = {q, r, c}"
  using assms by (auto simp: collect_views digested_def bind_eq_Some_conv)

lemma claims_digest_views:
  assumes X: "parser_ok X" "printer_ok X"
    and c: "collect X env head req ct chunks m st = Some c" "collect X env' head' req' ct' chunks' m' st' = Some c'"
    and nc: "no_collision X (digested X env head req ct chunks m st \<union> digested X env' head' req' ct' chunks' m' st')"
    and eq: "field_claims_sha256_hex X c = field_claims_sha256_hex X c'"
  shows "exchange_views X env head req ct chunks = exchange_views X env' head' req' ct' chunks'"
proof -
  obtain p q r s where v: "exchange_views X env head req ct chunks = Some (p, q, r, s)"
      and b: "build_field_claims_from_views X head m st p q r s = Some c"
      and d: "digested X env head req ct chunks m st = {q, r, c}" using collect_Some [OF c(1)] .
  obtain p' q' r' s' where v': "exchange_views X env' head' req' ct' chunks' = Some (p', q', r', s')"
      and b': "build_field_claims_from_views X head' m' st' p' q' r' s' = Some c'"
      and d': "digested X env' head' req' ct' chunks' m' st' = {q', r', c'}" using collect_Some [OF c(2)] .
  note cl = claims_from_views [OF b] and cl' = claims_from_views [OF b']
  note inj = digest_inj [OF X(2) nc [unfolded d d']]
  have "c = c'" by (rule inj) (use cl(1) cl'(1) eq in \<open>simp_all add: field_claims_sha256_hex_def\<close>)
  with cl(3,8-10) cl'(3,8-10) have "p = p'" "s = s'"
      and h: "sha256_hex X (as_bytes (canonical_json X q)) = sha256_hex X (as_bytes (canonical_json X q'))"
        "sha256_hex X (as_bytes (canonical_json X r)) = sha256_hex X (as_bytes (canonical_json X r'))" by simp_all
  moreover have "q = q'" by (rule inj) (use h(1) exchange_views_ok [OF X(1) v] exchange_views_ok [OF X(1) v'] in simp_all)
  moreover have "r = r'" by (rule inj) (use h(2) exchange_views_ok [OF X(1) v] exchange_views_ok [OF X(1) v'] in simp_all)
  ultimately show ?thesis using v v' by simp
qed

section \<open>Properties\<close>


lemma chat_parser_ok: "parser_ok (sample_crypto chat_parse)"
proof -
  have "wf_json chat_request" "wf_json chat_answer"
    by (simp_all add: chat_request_def chat_answer_def wf_map_iff bt_values_def)
  then show ?thesis by (auto simp: parser_ok_def sample_crypto_def chat_parse_def split: if_splits)
qed

lemma chat_exchange:
  "exchange_views (sample_crypto chat_parse) env sample_head (as_bytes ''Q'') ''application/json'' [as_bytes ''A'']
     = Some (''openai.chat_completions'', chat_request, chat_answer, False)"
  "\<exists>c. collect (sample_crypto chat_parse) env sample_head (as_bytes ''Q'') ''application/json'' [as_bytes ''A''] m st = Some c"
proof -
  let ?X = "sample_crypto chat_parse" and ?p = "''openai.chat_completions''"
  obtain c where c: "collector_new ?X env sample_head (as_bytes ''Q'') ''application/json'' = Some c" "fc_protocol c = ?p"
      "fc_req_view c = chat_request" "fc_body c = Sniffing [] False (Some (OpenAiChat openai_chat_new))"
    using sample_collector by blast
  have "\<not> body_prefix_indicates_sse (as_bytes ''A'')" by code_simp
  with body_push_sniffing [OF not_indicates_Nil, of "[as_bytes ''A'']" ?X "OpenAiChat openai_chat_new"]
  have b: "foldl (body_push ?X) (fc_body c) [as_bytes ''A''] = Sniffing (as_bytes ''A'') False (Some (OpenAiChat openai_chat_new))"
    by (simp only: c(4)) (simp add: MAX_FIELD_CLAIMS_CAPTURE_def)
  have v: "field_view ?X ?p ''response'' (as_bytes ''A'') (Some (up_path (upstream sample_head))) = chat_answer" by code_simp
  show views: "exchange_views ?X env sample_head (as_bytes ''Q'') ''application/json'' [as_bytes ''A'']
     = Some (?p, chat_request, chat_answer, False)"
    unfolding exchange_views_def c(1) option.case b using v by (simp add: c(2,3))
  have "has_required_presence ?p ''request'' chat_request" "has_required_presence ?p ''response'' chat_answer" by code_simp+
  moreover obtain version where "field_policy_version ?p = Some version"
    using field_policy_version_supported [of ?p] by (auto simp: SUPPORTED_PROTOCOLS_def)
  ultimately show "\<exists>c. collect ?X env sample_head (as_bytes ''Q'') ''application/json'' [as_bytes ''A''] m st = Some c"
    unfolding collect_views views by (simp add: build_field_claims_from_views_def Let_def)
qed


lemma chat_printer_ok: "printer_ok (sample_crypto chat_parse)"
proof -
  have eqs: "str_json (sample_crypto chat_parse) = str_json (sample_serde chat_parse)"
    "num_json (sample_crypto chat_parse) = num_json (sample_serde chat_parse)"
    by (simp_all add: sample_crypto_def sample_serde_def)
  show ?thesis unfolding printer_ok_def eqs by (rule sample_serde_ok [of chat_parse, unfolded printer_ok_def])
qed

lemma chat_digests:
  "no_collision (sample_crypto chat_parse)
     (digested (sample_crypto chat_parse) env sample_head (as_bytes ''Q'') ''application/json'' [as_bytes ''A''] ''POST'' 200
      \<union> digested (sample_crypto chat_parse) env' sample_head (as_bytes ''Q'') ''application/json'' [as_bytes ''A''] ''POST'' 200)"
proof -
  let ?X = "sample_crypto chat_parse" and ?p = "''openai.chat_completions''"
  define front where "front v = take 3 (sha256 ?X (as_bytes (canonical_json ?X v)))" for v
  have "map_option front (build_field_claims_from_views ?X sample_head ''POST'' 200 ?p chat_request chat_answer False)
      = Some (as_bytes [CHR ''{'', CHR 0x22, CHR ''a''])"
    unfolding front_def by code_simp
  then obtain c where c: "build_field_claims_from_views ?X sample_head ''POST'' 200 ?p chat_request chat_answer False = Some c"
      "front c = as_bytes [CHR ''{'', CHR 0x22, CHR ''a'']" by blast
  have "front chat_request = as_bytes [CHR ''{'', CHR 0x22, CHR ''m'']" "front chat_answer = as_bytes [CHR ''{'', CHR 0x22, CHR ''c'']"
    unfolding front_def by code_simp+
  with c(2) have "front c \<noteq> front chat_request" "front c \<noteq> front chat_answer" "front chat_request \<noteq> front chat_answer"
    by (simp_all only: as_bytes_inject) simp_all
  then have "no_collision ?X {chat_request, chat_answer, c}" by (auto simp: no_collision_def front_def inj_on_def)
  moreover have "digested ?X e sample_head (as_bytes ''Q'') ''application/json'' [as_bytes ''A''] ''POST'' 200
      = {chat_request, chat_answer, c}" for e
    unfolding digested_def collect_views chat_exchange(1) using c(1) by auto
  ultimately show ?thesis by (simp only: Un_absorb)
qed

end
