(* ===== verification/IO.thy ===== *)
theory IO
  imports Prelude
begin

text \<open>
  Byte streams as the enclave sees them.  A reader is the script of what its next
  \<^verbatim>\<open>read\<close> calls return: bytes, end of file, or an error; a script that has run out
  is at end of file.  A writer records what was written and fails once its budget of bytes is
  used up.  \<^verbatim>\<open>read_exact\<close> and \<^verbatim>\<open>write_all\<close> are the loops of the
  standard library over them.

  The two framings of the program, the control channel of \<^verbatim>\<open>main.rs\<close> (type byte and
  length) and the helper protocol of \<^verbatim>\<open>aliyun_helper.rs\<close> (length only), meet the
  same contract, the locale \<open>frame_protocol\<close>.
\<close>

section \<open>Readers and writers\<close>

datatype io_kind = UnexpectedEof | ConnectionAborted | Interrupted | InvalidData | BrokenPipe | TimedOut | WouldBlock

datatype read_event = RData "u8 list" | RErr io_kind

type_synonym reader = "read_event list"

fun read :: "reader \<Rightarrow> nat \<Rightarrow> (io_kind + u8 list) \<times> reader" where
  "read [] k = (Ok [], [])"
| "read (RData bs # r) k =
     (Ok (take k bs), if length bs \<le> k then r else RData (drop k bs) # r)"
| "read (RErr e # r) k = (Err e, r)"

lemma read_error_shorter: "read r n = (Inl e, r') \<Longrightarrow> length r' < length r"
  by (induction r n rule: read.induct) auto

lemma read_bytes_le: "read r n = (Inr bs, r') \<Longrightarrow> length bs \<le> n"
  by (induction r n rule: read.induct) auto

function read_exact :: "reader \<Rightarrow> nat \<Rightarrow> (io_kind + u8 list) \<times> reader" where
  "read_exact r n =
     (if n = 0 then (Ok [], r)
      else
        (case read r n of
           (Inl e, r') \<Rightarrow> if e = Interrupted then read_exact r' n else (Err e, r')
         | (Inr bs, r') \<Rightarrow>
             if bs = [] then (Err UnexpectedEof, r')
             else (case read_exact r' (n - length bs) of
                     (Inl e, r'') \<Rightarrow> (Err e, r'')
                   | (Inr cs, r'') \<Rightarrow> (Ok (bs @ cs), r''))))"
  by pat_completeness auto
termination
  by (relation "measures [snd, length \<circ> fst]")
     (auto simp: length_greater_0_conv [symmetric] simp del: length_greater_0_conv
        dest: read_error_shorter [OF sym])

declare read_exact.simps [simp del]

record writer =
  wr_out :: "u8 list"
  wr_budget :: "nat option"

definition write_bytes :: "writer \<Rightarrow> u8 list \<Rightarrow> (io_kind + nat) \<times> writer" where
  "write_bytes w bs =
     (case wr_budget w of
        None \<Rightarrow> (Ok (length bs), w\<lparr>wr_out := wr_out w @ bs\<rparr>)
      | Some k \<Rightarrow>
          if k = 0 \<and> bs \<noteq> [] then (Err BrokenPipe, w)
          else
            let n = min k (length bs)
            in (Ok n, w\<lparr>wr_out := wr_out w @ take n bs, wr_budget := Some (k - n)\<rparr>))"

definition write_all :: "writer \<Rightarrow> u8 list \<Rightarrow> (io_kind + unit) \<times> writer" where
  "write_all w bs =
     (case wr_budget w of
        None \<Rightarrow> (Ok (), w\<lparr>wr_out := wr_out w @ bs\<rparr>)
      | Some k \<Rightarrow>
          if length bs \<le> k
          then (Ok (), w\<lparr>wr_out := wr_out w @ bs, wr_budget := Some (k - length bs)\<rparr>)
          else (Err BrokenPipe, w\<lparr>wr_out := wr_out w @ take k bs, wr_budget := Some 0\<rparr>))"

text \<open>\<open>write_all\<close> is the loop of the standard library: it writes what is left until nothing is.\<close>

lemma write_all_loop:
  "write_all w bs =
     (case write_bytes w bs of
        (Inl e, w') \<Rightarrow> (Err e, w')
      | (Inr n, w') \<Rightarrow> if n = length bs then (Ok (), w') else write_all w' (drop n bs))"
  by (auto simp: write_all_def write_bytes_def Let_def min_def split: option.splits)

lemma write_all_Ok: "write_all w bs = (Inr u, w') \<Longrightarrow> wr_out w' = wr_out w @ bs"
  by (auto simp: write_all_def split: option.splits if_splits)

lemma write_all_unlimited: "wr_budget w = None \<Longrightarrow> write_all w bs = (Ok (), w\<lparr>wr_out := wr_out w @ bs\<rparr>)"
  by (simp add: write_all_def)

text \<open>A reader that delivers given bytes in some pieces, with interrupted calls in between.\<close>

inductive delivers :: "reader \<Rightarrow> u8 list \<Rightarrow> bool" where
  delivers_end: "delivers [] []"
| delivers_data: "c \<noteq> [] \<Longrightarrow> delivers r bs \<Longrightarrow> delivers (RData c # r) (c @ bs)"
| delivers_retry: "delivers r bs \<Longrightarrow> delivers (RErr Interrupted # r) bs"

lemma read_Interrupted: "read (RErr e # r) n = (Inl e, r)"
  by simp

lemma read_exact_delivers:
  assumes "delivers r (a @ b)"
  shows "\<exists>r'. read_exact r (length a) = (Ok a, r') \<and> delivers r' b"
  using assms
proof (induction r "a @ b" arbitrary: a rule: delivers.induct)
  case delivers_end
  then show ?case by (subst read_exact.simps) (auto intro: delivers.delivers_end)
next
  case (delivers_data c r bs)
  show ?case
  proof (cases "a = []")
    case True
    with delivers_data show ?thesis
      by (subst read_exact.simps) (auto intro: delivers.delivers_data)
  next
    case False
    show ?thesis
    proof (cases "length c \<le> length a")
      case True
      with delivers_data(4) obtain a' where a: "a = c @ a'" "bs = a' @ b"
        by (auto simp: append_eq_append_conv2)
      with delivers_data(3) [of a'] obtain r' where "read_exact r (length a') = (Inr a', r')" "delivers r' b"
        by auto
      with a delivers_data(1) False show ?thesis by (subst read_exact.simps) simp
    next
      case le: False
      then have tk: "take (length a) c = a"
        using delivers_data(4) by (metis append_eq_conv_conj nat_le_linear take_append diff_is_0_eq take0 append_Nil2)
      then obtain c' where c: "c = a @ c'" by (metis append_take_drop_id)
      with le have "c' \<noteq> []" by auto
      moreover have "b = c' @ bs" using delivers_data(4) c by simp
      ultimately have "delivers (RData c' # r) b"
        using delivers.delivers_data [of c' r bs] delivers_data(2) by simp
      with False le c show ?thesis
        by (subst read_exact.simps) (simp add: read_exact.simps [of _ 0])
    qed
  qed
next
  case (delivers_retry r)
  then show ?case
    by (cases "a = []") (subst read_exact.simps; auto intro: delivers.delivers_retry)+
qed

end
