(* ===== verification/Frames.thy ===== *)
theory Frames
  imports IO
begin

text \<open>
  The frames of the control channel (\<^verbatim>\<open>read_frame\<close> and \<^verbatim>\<open>write_frame\<close>
  of \<^verbatim>\<open>main.rs\<close>: a type byte, a 32-bit length, the payload) and of the proof helper
  (\<^verbatim>\<open>aliyun_helper.rs\<close>: a 32-bit length and the payload).
\<close>

section \<open>The control channel\<close>

definition REQ_HEAD :: u8 where "REQ_HEAD = 0x01"
definition REQ_BODY :: u8 where "REQ_BODY = 0x02"
definition RESP_HEAD :: u8 where "RESP_HEAD = 0x10"
definition RESP_CHUNK :: u8 where "RESP_CHUNK = 0x11"
definition RESP_TRAILER :: u8 where "RESP_TRAILER = 0x12"
definition STATS :: u8 where "STATS = 0x20"
definition ERR :: u8 where "ERR = 0x1f"

definition MAX_REQ_HEAD :: nat where "MAX_REQ_HEAD = 1024 * 1024"
definition MAX_REQ_FRAME :: nat where "MAX_REQ_FRAME = 64 * 1024 * 1024"

definition read_frame :: "reader \<Rightarrow> nat \<Rightarrow> (io_kind + (u8 \<times> u8 list)) \<times> reader" where
  "read_frame r limit =
     (case read_exact r 5 of
        (Inl e, r) \<Rightarrow> (Err e, r)
      | (Inr hdr, r) \<Rightarrow>
          let t = hdr ! 0;
              n = be_nat (take 4 (drop 1 hdr))
          in if limit < n then (Err InvalidData, r)
             else (case read_exact r n of
                     (Inl e, r) \<Rightarrow> (Err e, r)
                   | (Inr buf, r) \<Rightarrow> (Ok (t, buf), r)))"

definition write_frame :: "writer \<Rightarrow> u8 \<Rightarrow> u8 list \<Rightarrow> (io_kind + unit) \<times> writer" where
  "write_frame w t data =
     (case write_all w (t # nat_be 4 (length data)) of
        (Inl e, w) \<Rightarrow> (Err e, w)
      | (Inr _, w) \<Rightarrow> write_all w data)"

section \<open>The helper protocol\<close>

definition MAX_REQUEST_PAYLOAD :: nat where "MAX_REQUEST_PAYLOAD = 64 * 1024"
definition MAX_RESPONSE_PAYLOAD :: nat where "MAX_RESPONSE_PAYLOAD = 4 * 1024 * 1024"

definition helper_read_frame :: "reader \<Rightarrow> nat \<Rightarrow> (io_kind + u8 list) \<times> reader" where
  "helper_read_frame r limit =
     (case read_exact r 4 of
        (Inl e, r) \<Rightarrow> (Err e, r)
      | (Inr hdr, r) \<Rightarrow>
          let n = be_nat hdr
          in if limit < n then (Err InvalidData, r)
             else (case read_exact r n of
                     (Inl e, r) \<Rightarrow> (Err e, r)
                   | (Inr buf, r) \<Rightarrow> (Ok buf, r)))"

definition helper_write_frame :: "writer \<Rightarrow> u8 list \<Rightarrow> nat \<Rightarrow> (io_kind + unit) \<times> writer" where
  "helper_write_frame w payload limit =
     (if limit < length payload then (Err InvalidData, w)
      else
        (case write_all w (nat_be 4 (length payload)) of
           (Inl e, w) \<Rightarrow> (Err e, w)
         | (Inr _, w) \<Rightarrow> write_all w payload))"

section \<open>The contract of a framing\<close>

text \<open>
  \<open>wire m\<close> are the bytes a message occupies, \<open>len m\<close> is the length its header announces.
  The limit of a read is checked against the announced length before the payload is read.
\<close>

fun read_many :: "(reader \<Rightarrow> nat \<Rightarrow> (io_kind + 'm) \<times> reader) \<Rightarrow> nat \<Rightarrow> nat \<Rightarrow> reader
    \<Rightarrow> (io_kind + 'm list) \<times> reader" where
  "read_many rd limit 0 r = (Ok [], r)"
| "read_many rd limit (Suc k) r =
     (case rd r limit of
        (Inl e, r) \<Rightarrow> (Err e, r)
      | (Inr m, r) \<Rightarrow>
          (case read_many rd limit k r of
             (Inl e, r) \<Rightarrow> (Err e, r)
           | (Inr ms, r) \<Rightarrow> (Ok (m # ms), r)))"

locale frame_protocol =
  fixes wire :: "'m \<Rightarrow> u8 list"
    and len :: "'m \<Rightarrow> nat"
    and rd :: "reader \<Rightarrow> nat \<Rightarrow> (io_kind + 'm) \<times> reader"
  assumes read_wire: "delivers r (wire m @ rest) \<Longrightarrow> len m < 2 ^ 32 \<Longrightarrow> len m \<le> limit \<Longrightarrow>
      \<exists>r'. rd r limit = (Ok m, r') \<and> delivers r' rest"
    and read_too_long: "delivers r (wire m @ rest) \<Longrightarrow> len m < 2 ^ 32 \<Longrightarrow> limit < len m \<Longrightarrow>
      fst (rd r limit) = Err InvalidData"
begin

lemma read_many_wires:
  "delivers r (concat (map wire ms) @ rest) \<Longrightarrow> \<forall>m\<in>set ms. len m < 2 ^ 32 \<and> len m \<le> limit \<Longrightarrow>
    \<exists>r'. read_many rd limit (length ms) r = (Ok ms, r') \<and> delivers r' rest"
proof (induction ms arbitrary: r)
  case (Cons m ms)
  then have "delivers r (wire m @ (concat (map wire ms) @ rest))" by simp
  with Cons.prems(2) obtain r1 where r1: "rd r limit = (Ok m, r1)" "delivers r1 (concat (map wire ms) @ rest)"
    using read_wire [of r m "concat (map wire ms) @ rest" limit] by auto
  with Cons.IH [of r1] Cons.prems(2) show ?case by auto
qed simp

lemma read_many_stops:
  "delivers r (concat (map wire ms) @ wire m @ rest) \<Longrightarrow> \<forall>m\<in>set ms. len m < 2 ^ 32 \<and> len m \<le> limit \<Longrightarrow>
    len m < 2 ^ 32 \<Longrightarrow> limit < len m \<Longrightarrow> fst (read_many rd limit (Suc (length ms)) r) = Err InvalidData"
proof (induction ms arbitrary: r)
  case Nil
  with read_too_long [of r m rest limit] show ?case by (auto split: prod.splits sum.splits)
next
  case (Cons m' ms)
  then have "delivers r (wire m' @ (concat (map wire ms) @ wire m @ rest))" by simp
  with Cons.prems(2) obtain r1 where r1: "rd r limit = (Ok m', r1)" "delivers r1 (concat (map wire ms) @ wire m @ rest)"
    using read_wire [of r m' "concat (map wire ms) @ wire m @ rest" limit] by auto
  with Cons.IH [of r1] Cons.prems show ?case
    by (auto simp del: read_many.simps(2) simp: read_many.simps(2) [of rd limit "Suc (length ms)"] split: prod.splits sum.splits)
qed

end

section \<open>Both framings meet it\<close>

fun frame_bytes :: "u8 \<times> u8 list \<Rightarrow> u8 list" where
  "frame_bytes (t, data) = t # nat_be 4 (length data) @ data"

definition helper_frame_bytes :: "u8 list \<Rightarrow> u8 list" where
  "helper_frame_bytes data = nat_be 4 (length data) @ data"

lemma be_nat_length: "n < 2 ^ 32 \<Longrightarrow> be_nat (nat_be 4 n) = n"
  by (rule be_nat_nat_be_small) simp

lemma read_frame_header:
  assumes "delivers r ((t # nat_be 4 n) @ rest)"
  shows "\<exists>r'. read_exact r 5 = (Ok (t # nat_be 4 n), r') \<and> delivers r' rest"
  using read_exact_delivers [OF assms] by simp

interpretation control: frame_protocol frame_bytes "length \<circ> snd" read_frame
proof
  fix r :: reader and m :: "u8 \<times> u8 list" and rest :: "u8 list" and limit :: nat
  obtain t d where m: "m = (t, d)" by (cases m)
  assume r: "delivers r (frame_bytes m @ rest)" and "(length \<circ> snd) m < 2 ^ 32"
  then have n: "be_nat (nat_be 4 (length d)) = length d" using be_nat_length m by simp
  obtain r1 where r1: "read_exact r 5 = (Ok (t # nat_be 4 (length d)), r1)" "delivers r1 (d @ rest)"
    using read_frame_header [of r t "length d" "d @ rest"] r m by auto
  then obtain r2 where r2: "read_exact r1 (length d) = (Ok d, r2)" "delivers r2 rest"
    using read_exact_delivers by blast
  { assume "(length \<circ> snd) m \<le> limit"
    with r1 r2 n m show "\<exists>r'. read_frame r limit = (Ok m, r') \<and> delivers r' rest"
      by (simp add: read_frame_def) }
  { assume "limit < (length \<circ> snd) m"
    with r1 n m show "fst (read_frame r limit) = Err InvalidData"
      by (simp add: read_frame_def) }
qed

interpretation helper: frame_protocol helper_frame_bytes length helper_read_frame
proof
  fix r :: reader and d rest :: "u8 list" and limit :: nat
  assume r: "delivers r (helper_frame_bytes d @ rest)" and "length d < 2 ^ 32"
  then have n: "be_nat (nat_be 4 (length d)) = length d" using be_nat_length by simp
  obtain r1 where r1: "read_exact r 4 = (Ok (nat_be 4 (length d)), r1)" "delivers r1 (d @ rest)"
    using read_exact_delivers [of r "nat_be 4 (length d)" "d @ rest"] r by (auto simp: helper_frame_bytes_def)
  then obtain r2 where r2: "read_exact r1 (length d) = (Ok d, r2)" "delivers r2 rest"
    using read_exact_delivers by blast
  { assume "length d \<le> limit"
    with r1 r2 n show "\<exists>r'. helper_read_frame r limit = (Ok d, r') \<and> delivers r' rest"
      by (simp add: helper_read_frame_def) }
  { assume "limit < length d"
    with r1 n show "fst (helper_read_frame r limit) = Err InvalidData"
      by (simp add: helper_read_frame_def) }
qed

lemma write_frame_out: "write_frame w t data = (Inr u, w') \<Longrightarrow> wr_out w' = wr_out w @ frame_bytes (t, data)"
  by (auto simp: write_frame_def dest!: write_all_Ok split: prod.splits sum.splits)

lemma write_frame_unlimited:
  "wr_budget w = None \<Longrightarrow> write_frame w t data = (Ok (), w\<lparr>wr_out := wr_out w @ frame_bytes (t, data)\<rparr>)"
  by (simp add: write_frame_def write_all_unlimited)

section \<open>Properties\<close>

text \<open>
  A control-channel conversation is read back as it was written.  Frames written one after the
  other, each shorter than 4 GB and within the reader's limit, are read back in order with their
  types, however the channel cuts the bytes and however often a read is interrupted.
\<close>

theorem read_frames_written:
  assumes "delivers r (concat (map frame_bytes ms) @ rest)"
    and "\<forall>m\<in>set ms. length (snd m) < 2 ^ 32 \<and> length (snd m) \<le> limit"
  shows "\<exists>r'. read_many read_frame limit (length ms) r = (Ok ms, r') \<and> delivers r' rest"
  using assms control.read_many_wires [of r ms rest limit] by simp

theorem read_frames_written_witness:
  "\<exists>r'. read_many read_frame 100 (length [(REQ_HEAD, [7 :: u8]), (REQ_BODY, [])])
       [RData [1, 0, 0], RErr Interrupted, RData [0, 1, 7, 2, 0, 0, 0, 0, 9]]
       = (Ok [(REQ_HEAD, [7]), (REQ_BODY, [])], r') \<and> delivers r' [9]"
proof (rule read_frames_written)
  have "concat (map frame_bytes [(REQ_HEAD, [7]), (REQ_BODY, [])]) @ [9]
      = [1, 0, 0] @ [0, 1, 7, 2, 0, 0, 0, 0, 9] @ []"
    by code_simp
  then show "delivers [RData [1, 0, 0], RErr Interrupted, RData [0, 1, 7, 2, 0, 0, 0, 0, 9]]
      (concat (map frame_bytes [(REQ_HEAD, [7]), (REQ_BODY, [])]) @ [9])"
    by (simp only:) (intro delivers.intros; simp)
qed simp

text \<open>
  The limits hold.  A frame that announces more bytes than the reader accepts is refused with
  \<open>InvalidData\<close> before its payload is read, after any number of frames that fit.
\<close>

theorem read_frame_limit:
  assumes "delivers r (concat (map frame_bytes ms) @ frame_bytes m @ rest)"
    and "\<forall>m\<in>set ms. length (snd m) < 2 ^ 32 \<and> length (snd m) \<le> limit"
    and "length (snd m) < 2 ^ 32" and "limit < length (snd m)"
  shows "fst (read_many read_frame limit (Suc (length ms)) r) = Err InvalidData"
  using assms control.read_many_stops [of r ms m rest limit] by simp

theorem read_frame_limit_witness:
  "fst (read_many read_frame 1 (Suc (length [(REQ_HEAD, [7 :: u8])]))
     [RData [1, 0, 0, 0, 1, 7], RData [2, 0, 0, 0, 2, 5, 6]]) = Err InvalidData"
proof (rule read_frame_limit [where m = "(REQ_BODY, [5, 6])" and rest = "[]"])
  have "concat (map frame_bytes [(REQ_HEAD, [7])]) @ frame_bytes (REQ_BODY, [5, 6]) @ []
      = [1, 0, 0, 0, 1, 7] @ [2, 0, 0, 0, 2, 5, 6] @ []"
    by code_simp
  then show "delivers [RData [1, 0, 0, 0, 1, 7], RData [2, 0, 0, 0, 2, 5, 6]]
      (concat (map frame_bytes [(REQ_HEAD, [7])]) @ frame_bytes (REQ_BODY, [5, 6]) @ [])"
    by (simp only:) (intro delivers.intros; simp)
qed simp_all

end
