(* ===== verification/Egress.thy ===== *)
theory Egress
  imports Tls_Profile Field_Claims IO
begin

text \<open>
  The way out of the enclave: where the parent is reached (\<^verbatim>\<open>parse_parent_cid_candidates\<close>,
  \<^verbatim>\<open>connect_parent_vsock\<close>, \<^verbatim>\<open>connect_qproxy_tcp\<close>, \<^verbatim>\<open>connect_egress\<close>)
  and how a TLS stack is set up from a profile (\<^verbatim>\<open>egress_boring.rs\<close>,
  \<^verbatim>\<open>egress_openssl.rs\<close>, \<^verbatim>\<open>egress_rustls_aws_lc.rs\<close>).

  Sockets and TLS libraries are parameters: functions from an address to a connection, and for each
  library a record of what its calls answer.  A connector is the list of the calls made on its builder.
  The contract of a TLS back end, that a stream it returns was set up to verify the peer against the
  trusted roots, is the locale \<open>tls_backend\<close>.
\<close>

section \<open>Connections to the parent\<close>

record conn =
  cn_out :: writer
  cn_in :: reader

datatype EgressStream = VsockEgress conn | TcpEgress conn

text \<open>The stream reads and writes through the socket it holds.\<close>

fun egress_read :: "EgressStream \<Rightarrow> nat \<Rightarrow> (io_kind + u8 list) \<times> EgressStream" where
  "egress_read (VsockEgress s) k = map_prod id (\<lambda>r. VsockEgress (s\<lparr>cn_in := r\<rparr>)) (read (cn_in s) k)"
| "egress_read (TcpEgress s) k = map_prod id (\<lambda>r. TcpEgress (s\<lparr>cn_in := r\<rparr>)) (read (cn_in s) k)"

fun egress_write :: "EgressStream \<Rightarrow> u8 list \<Rightarrow> (io_kind + nat) \<times> EgressStream" where
  "egress_write (VsockEgress s) bs = map_prod id (\<lambda>w. VsockEgress (s\<lparr>cn_out := w\<rparr>)) (write_bytes (cn_out s) bs)"
| "egress_write (TcpEgress s) bs = map_prod id (\<lambda>w. TcpEgress (s\<lparr>cn_out := w\<rparr>)) (write_bytes (cn_out s) bs)"

datatype EgressMode = DirectVsock | QProxyTcp

datatype egress_error =
    InvalidCid string | NoCid | VsockFailed "u32 list" u32 "(u32 \<times> string) list"
  | PortOutOfRange u32 | TcpFailed string u16 string | UnsupportedMode string

record sockets =
  sk_env :: "string \<Rightarrow> string option"
  sk_vsock :: "u32 \<Rightarrow> u32 \<Rightarrow> string + conn"
  sk_tcp :: "string \<Rightarrow> u16 \<Rightarrow> string + conn"

definition DEFAULT_PARENT_CID :: u32 where
  "DEFAULT_PARENT_CID = 3"

fun collect_cids :: "u32 list \<Rightarrow> string list \<Rightarrow> egress_error + u32 list" where
  "collect_cids cids [] = Ok cids"
| "collect_cids cids (part # parts) =
     (let item = trim part
      in if item = [] then collect_cids cids parts
         else
           (case parse_uint 32 10 item of
              None \<Rightarrow> Err (InvalidCid item)
            | Some n \<Rightarrow>
                let cid = of_nat n
                in collect_cids (if cid \<in> set cids then cids else cids @ [cid]) parts))"

definition parse_parent_cid_candidates :: "string option \<Rightarrow> egress_error + u32 list" where
  "parse_parent_cid_candidates raw =
     (case raw of
        None \<Rightarrow> Ok [DEFAULT_PARENT_CID]
      | Some raw \<Rightarrow>
          result_bind (collect_cids [] (split_on (CHR '','') raw))
            (\<lambda>cids. if cids = [] then Err NoCid else Ok cids))"

definition parent_cid_candidates :: "sockets \<Rightarrow> egress_error + u32 list" where
  "parent_cid_candidates S =
     parse_parent_cid_candidates
       (case sk_env S ''POO_PARENT_CIDS'' of
          Some v \<Rightarrow> Some v
        | None \<Rightarrow> sk_env S ''POO_PARENT_CID'')"

fun try_cids ::
  "(u32 \<Rightarrow> u32 \<Rightarrow> string + conn) \<Rightarrow> u32 \<Rightarrow> u32 list \<Rightarrow> (u32 \<times> string) list \<Rightarrow> (u32 \<times> string) list + conn" where
  "try_cids connect port [] errors = Inl errors"
| "try_cids connect port (cid # cids) errors =
     (case connect cid port of
        Inr sock \<Rightarrow> Inr sock
      | Inl e \<Rightarrow> try_cids connect port cids (errors @ [(cid, e)]))"

definition connect_parent_vsock :: "sockets \<Rightarrow> u32 \<Rightarrow> egress_error + conn" where
  "connect_parent_vsock S port =
     result_bind (parent_cid_candidates S)
       (\<lambda>cids. case try_cids (sk_vsock S) port cids [] of
          Inr sock \<Rightarrow> Ok sock
        | Inl errors \<Rightarrow> Err (VsockFailed cids port errors))"

definition qproxy_host :: "sockets \<Rightarrow> string" where
  "qproxy_host S =
     (case sk_env S ''POO_QPROXY_HOST'' of
        Some v \<Rightarrow> if trim v = [] then ''127.0.0.1'' else v
      | None \<Rightarrow> ''127.0.0.1'')"

definition connect_qproxy_tcp :: "sockets \<Rightarrow> u32 \<Rightarrow> egress_error + conn" where
  "connect_qproxy_tcp S port =
     (if 65535 < unat port then Err (PortOutOfRange port)
      else
        let p = of_nat (unat port) :: u16
        in (case sk_tcp S (qproxy_host S) p of
              Inr sock \<Rightarrow> Ok sock
            | Inl e \<Rightarrow> Err (TcpFailed (qproxy_host S) p e)))"

definition parse_egress_mode :: "string option \<Rightarrow> egress_error + EgressMode" where
  "parse_egress_mode raw =
     (let v = to_ascii_lowercase (trim (case raw of Some r \<Rightarrow> r | None \<Rightarrow> ''direct-vsock''))
      in if v = ''qproxy'' \<or> v = ''qproxy-tcp'' then Ok QProxyTcp
         else if v = ''direct-vsock'' \<or> v = ''vsock'' \<or> v = [] then Ok DirectVsock
         else Err (UnsupportedMode v))"

definition egress_mode :: "sockets \<Rightarrow> egress_error + EgressMode" where
  "egress_mode S = parse_egress_mode (sk_env S ''POO_EGRESS_MODE'')"

definition connect_egress :: "sockets \<Rightarrow> u32 \<Rightarrow> egress_error + EgressStream" where
  "connect_egress S port =
     result_bind (egress_mode S)
       (\<lambda>mode. case mode of
          QProxyTcp \<Rightarrow> map_sum id TcpEgress (connect_qproxy_tcp S port)
        | DirectVsock \<Rightarrow> map_sum id VsockEgress (connect_parent_vsock S port))"

definition decode_profile :: "('x) crypto_scheme \<Rightarrow> ReqHead \<Rightarrow> TlsProfile option" where
  "decode_profile X head =
     Option.bind (tls_spec head)
       (\<lambda>s. Option.bind (b64_decode X s)
         (\<lambda>bytes. case decode bytes of Inr p \<Rightarrow> Some p | Inl _ \<Rightarrow> None))"

section \<open>TLS stacks\<close>

datatype tls_op =
    SetCipherList string | SetCurvesList string | SetGroupsList string | SetSigalgsList string
  | SetAlpnProtos "u8 list" | OcspStapling | SignedCertTimestamps
  | MinProtoVersion TlsVersion | MaxProtoVersion TlsVersion | VerifyPeer | TrustCaBundle

datatype HandshakeError = SetupFailure string | HandshakeFailure string | HandshakeWouldBlock

datatype tls_error =
    BuilderFailed string | OpFailed tls_op string | GreaseUnsupported | ExtOrderUnsupported
  | ConfigureFailed string | HandshakeSetup string | HandshakeFailed string | HandshakeIncomplete
  | FixedProviderOnly | GreaseOrOrderShape | ProtocolVersions string | InvalidSni | TlsInit string

text \<open>
  What a library answers: to the creation of a builder, to a call on a builder on which the calls of
  the list were made, to the final configuration and to the handshake.
\<close>

record tls_lib =
  tl_builder :: "string option"
  tl_call :: "tls_op list \<Rightarrow> tls_op \<Rightarrow> string option"
  tl_configure :: "tls_op list \<Rightarrow> string option"
  tl_connect :: "tls_op list \<Rightarrow> string \<Rightarrow> EgressStream \<Rightarrow> HandshakeError + conn"

definition fallible :: "tls_lib \<Rightarrow> tls_op \<Rightarrow> tls_op list \<Rightarrow> tls_error + tls_op list" where
  "fallible L op ops =
     (case tl_call L ops op of Some e \<Rightarrow> Err (OpFailed op e) | None \<Rightarrow> Ok (ops @ [op]))"

definition ignoring :: "tls_lib \<Rightarrow> tls_op \<Rightarrow> tls_op list \<Rightarrow> tls_error + tls_op list" where
  "ignoring L op ops = (case tl_call L ops op of Some e \<Rightarrow> Ok ops | None \<Rightarrow> Ok (ops @ [op]))"

definition infallible :: "tls_op \<Rightarrow> tls_op list \<Rightarrow> tls_error + tls_op list" where
  "infallible op ops = Ok (ops @ [op])"

definition unless :: "bool \<Rightarrow> (tls_op list \<Rightarrow> tls_error + tls_op list) \<Rightarrow> tls_op list \<Rightarrow> tls_error + tls_op list" where
  "unless b f ops = (if b then Ok ops else f ops)"

fun run_setup :: "(tls_op list \<Rightarrow> tls_error + tls_op list) list \<Rightarrow> tls_op list \<Rightarrow> tls_error + tls_op list" where
  "run_setup [] ops = Ok ops"
| "run_setup (f # fs) ops = result_bind (f ops) (run_setup fs)"

definition alpn_wire :: "string list \<Rightarrow> u8 list" where
  "alpn_wire protos = concat (map (\<lambda>p. of_nat (length p) # as_bytes p) protos)"

definition check_grease :: "TlsProfile \<Rightarrow> tls_op list \<Rightarrow> tls_error + tls_op list" where
  "check_grease p ops = (case grease p of GreaseDisabled \<Rightarrow> Ok ops | GreaseEnabled \<Rightarrow> Err GreaseUnsupported)"

definition check_ext_order :: "TlsProfile \<Rightarrow> tls_op list \<Rightarrow> tls_error + tls_op list" where
  "check_ext_order p ops =
     (case ext_order p of FixedOrder \<Rightarrow> Ok ops | PermutePerSession \<Rightarrow> Err ExtOrderUnsupported)"

definition cert_setup :: "tls_lib \<Rightarrow> TlsProfile \<Rightarrow> (tls_op list \<Rightarrow> tls_error + tls_op list) list" where
  "cert_setup L p = (case cert_policy p of WebpkiRoots \<Rightarrow> [infallible VerifyPeer, fallible L TrustCaBundle])"

definition finish_connect ::
  "tls_lib \<Rightarrow> string \<Rightarrow> EgressStream \<Rightarrow> tls_op list \<Rightarrow> tls_error + conn" where
  "finish_connect L sni sock ops =
     (case tl_configure L ops of
        Some e \<Rightarrow> Err (ConfigureFailed e)
      | None \<Rightarrow>
          (case tl_connect L ops sni sock of
             Inr c \<Rightarrow> Ok c
           | Inl (SetupFailure e) \<Rightarrow> Err (HandshakeSetup e)
           | Inl (HandshakeFailure e) \<Rightarrow> Err (HandshakeFailed e)
           | Inl HandshakeWouldBlock \<Rightarrow> Err HandshakeIncomplete))"

definition boring_setup :: "tls_lib \<Rightarrow> TlsProfile \<Rightarrow> (tls_op list \<Rightarrow> tls_error + tls_op list) list" where
  "boring_setup L p =
     [fallible L (SetCipherList (cipher_list p)),
      unless (groups p = []) (fallible L (SetCurvesList (join '':'' (groups p)))),
      unless (sigalgs p = []) (fallible L (SetSigalgsList (join '':'' (sigalgs p)))),
      fallible L (SetAlpnProtos (alpn_wire (alpn p))),
      infallible OcspStapling,
      infallible SignedCertTimestamps,
      check_grease p,
      check_ext_order p,
      fallible L (MinProtoVersion (min_negotiated p)),
      ignoring L (MaxProtoVersion Tls13)]
     @ cert_setup L p"

definition boring_connect :: "tls_lib \<Rightarrow> TlsProfile \<Rightarrow> EgressStream \<Rightarrow> string \<Rightarrow> tls_error + conn" where
  "boring_connect L p sock sni =
     (case tl_builder L of
        Some e \<Rightarrow> Err (BuilderFailed e)
      | None \<Rightarrow> result_bind (run_setup (boring_setup L p) []) (finish_connect L sni sock))"

definition openssl_setup :: "tls_lib \<Rightarrow> TlsProfile \<Rightarrow> (tls_op list \<Rightarrow> tls_error + tls_op list) list" where
  "openssl_setup L p =
     [unless (cipher_list p = []) (fallible L (SetCipherList (cipher_list p))),
      unless (groups p = []) (fallible L (SetGroupsList (join '':'' (groups p)))),
      unless (sigalgs p = []) (fallible L (SetSigalgsList (join '':'' (sigalgs p)))),
      unless (alpn p = []) (fallible L (SetAlpnProtos (alpn_wire (alpn p)))),
      check_grease p,
      check_ext_order p,
      fallible L (MinProtoVersion (min_negotiated p)),
      ignoring L (MaxProtoVersion Tls13)]
     @ cert_setup L p"

definition openssl_connect :: "tls_lib \<Rightarrow> TlsProfile \<Rightarrow> EgressStream \<Rightarrow> string \<Rightarrow> tls_error + conn" where
  "openssl_connect L p sock sni =
     (case tl_builder L of
        Some e \<Rightarrow> Err (BuilderFailed e)
      | None \<Rightarrow> result_bind (run_setup (openssl_setup L p) []) (finish_connect L sni sock))"

text \<open>
  The two uses of rustls: the Grok profile on aws-lc and the fallback on ring.  A \<open>rustls_session\<close>
  is the stream owned by the program before its handshake.
\<close>

datatype rustls_provider = Ring | AwsLcRs

record rustls_config =
  rc_provider :: rustls_provider
  rc_kx_groups :: "string list option"
  rc_sig_schemes :: "string list option"
  rc_versions :: "TlsVersion list option"
  rc_roots :: CertPolicy
  rc_alpn :: "u8 list list"

type_synonym rustls_session = "rustls_config \<times> string \<times> EgressStream"

record rustls_lib =
  rl_sig_mapping :: "string list"
  rl_versions :: "rustls_config \<Rightarrow> string option"
  rl_server_name :: "string \<Rightarrow> bool"
  rl_client :: "rustls_config \<Rightarrow> string \<Rightarrow> string option"
  rl_handshake :: "rustls_session \<Rightarrow> string option"
  rl_alpn_protocol :: "rustls_session \<Rightarrow> u8 list option"
  rl_stream :: "rustls_session \<Rightarrow> conn"

definition validate_shape :: "TlsProfile \<Rightarrow> tls_error + unit" where
  "validate_shape p =
     (if cipher_list p \<noteq> [] \<or> sigalgs p \<noteq> [] \<or> groups p \<noteq> [] then Err FixedProviderOnly
      else if grease p \<noteq> GreaseDisabled \<or> ext_order p \<noteq> PermutePerSession then Err GreaseOrOrderShape
      else Ok ())"

definition grok_signature_algorithms :: "rustls_lib \<Rightarrow> string list" where
  "grok_signature_algorithms R = filter (\<lambda>scheme. scheme \<noteq> ''ECDSA_NISTP521_SHA512'') (rl_sig_mapping R)"

definition rustls_session_new ::
  "rustls_lib \<Rightarrow> rustls_config \<Rightarrow> string \<Rightarrow> EgressStream \<Rightarrow> tls_error + rustls_session" where
  "rustls_session_new R cfg sni sock =
     (case rl_versions R cfg of
        Some e \<Rightarrow> Err (ProtocolVersions e)
      | None \<Rightarrow>
          if \<not> rl_server_name R sni then Err InvalidSni
          else
            (case rl_client R cfg sni of
               Some e \<Rightarrow> Err (TlsInit e)
             | None \<Rightarrow> Ok (cfg, sni, sock)))"

definition aws_lc_config :: "rustls_lib \<Rightarrow> TlsProfile \<Rightarrow> rustls_config" where
  "aws_lc_config R p =
     \<lparr>rc_provider = AwsLcRs,
      rc_kx_groups = Some [''X25519'', ''SECP256R1'', ''SECP384R1''],
      rc_sig_schemes = Some (grok_signature_algorithms R),
      rc_versions = Some (case min_negotiated p of Tls12 \<Rightarrow> [Tls13, Tls12] | Tls13 \<Rightarrow> [Tls13]),
      rc_roots = cert_policy p,
      rc_alpn = map as_bytes (alpn p)\<rparr>"

definition aws_lc_connect ::
  "rustls_lib \<Rightarrow> TlsProfile \<Rightarrow> EgressStream \<Rightarrow> string \<Rightarrow> tls_error + rustls_session" where
  "aws_lc_connect R p sock sni =
     result_bind (validate_shape p) (\<lambda>_. rustls_session_new R (aws_lc_config R p) sni sock)"

definition ring_config :: rustls_config where
  "ring_config =
     \<lparr>rc_provider = Ring, rc_kx_groups = None, rc_sig_schemes = None, rc_versions = None,
      rc_roots = WebpkiRoots, rc_alpn = []\<rparr>"

definition ring_connect :: "rustls_lib \<Rightarrow> EgressStream \<Rightarrow> string \<Rightarrow> tls_error + rustls_session" where
  "ring_connect R sock sni = rustls_session_new R ring_config sni sock"

section \<open>Facts on the way out\<close>

lemma collect_cids_distinct:
  "collect_cids cids parts = Inr cids' \<Longrightarrow> distinct cids \<Longrightarrow> distinct cids'"
  by (induction cids parts rule: collect_cids.induct) (auto simp: Let_def split: if_splits option.splits)

lemma strip_all_disjoint: "(\<forall>p\<in>set ps. set p \<inter> set s = {}) \<Longrightarrow> strip_all ps s = s"
proof -
  assume ps: "\<forall>p\<in>set ps. set p \<inter> set s = {}"
  have "\<not> (p \<noteq> [] \<and> starts_with s p)" if p: "p \<in> set ps" for p
    using ps p by (cases p) (auto simp: starts_with_append)
  then have "List.find (\<lambda>p. p \<noteq> [] \<and> starts_with s p) ps = None" by (auto simp: find_None_iff)
  then show ?thesis by (simp add: strip_all.simps)
qed

lemma trim_digits:
  assumes "\<forall>c\<in>set s. 33 \<le> (of_char c :: nat) \<and> (of_char c :: nat) < 128"
  shows "trim s = s"
proof -
  have "list_all (\<lambda>p. list_all (\<lambda>c. (of_char c :: nat) < 33 \<or> 128 \<le> (of_char c :: nat)) p) white_space"
    by code_simp
  with assms have "\<forall>p\<in>set white_space. set p \<inter> set s = {}" by (fastforce simp: list_all_iff)
  then have "\<forall>p\<in>set white_space. set p \<inter> set s = {}" "\<forall>p\<in>set (map rev white_space). set p \<inter> set (rev s) = {}"
    by auto
  then show ?thesis by (simp add: trim_def trim_start_def trim_end_of_def strip_all_disjoint)
qed

lemma trim_nat_to_string: "trim (nat_to_string n) = nat_to_string n"
  by (rule trim_digits) (use nat_to_string_code in fastforce)

text \<open>Keeping the first of equal entries.\<close>

definition keep_first :: "'a list \<Rightarrow> 'a list" where
  "keep_first xs = rev (remdups (rev xs))"

lemma keep_first_snoc: "keep_first (xs @ [x]) = (if x \<in> set xs then keep_first xs else keep_first xs @ [x])"
  by (simp add: keep_first_def)

lemma set_keep_first [simp]: "set (keep_first xs) = set xs"
  by (simp add: keep_first_def)

lemma collect_cids_decimal:
  "collect_cids (keep_first acc) (map (\<lambda>c. nat_to_string (unat c)) cids) = Ok (keep_first (acc @ cids))"
proof (induction cids arbitrary: acc)
  case (Cons c cids)
  have "unat c < 2 ^ LENGTH(32)" by (rule unsigned_less)
  then have "parse_uint 32 10 (nat_to_string (unat c)) = Some (unat c)"
    by (intro parse_uint_nat_to_string) simp
  with Cons [of "acc @ [c]"] show ?case by (simp add: trim_nat_to_string keep_first_snoc)
qed simp

lemma try_cids_first:
  "try_cids connect port cids errors = Inr sock \<longleftrightarrow>
     (\<exists>i<length cids. connect (cids ! i) port = Inr sock \<and> (\<forall>j<i. \<exists>e. connect (cids ! j) port = Inl e))"
proof (induction cids arbitrary: errors)
  case (Cons cid cids)
  show ?case
  proof (cases "connect cid port")
    case (Inl e)
    have "(\<exists>i<length (cid # cids). connect ((cid # cids) ! i) port = Inr sock
          \<and> (\<forall>j<i. \<exists>e. connect ((cid # cids) ! j) port = Inl e))
      \<longleftrightarrow> (\<exists>i<length cids. connect (cids ! i) port = Inr sock \<and> (\<forall>j<i. \<exists>e. connect (cids ! j) port = Inl e))"
      using Inl by (simp add: Ex_less_Suc2 All_less_Suc2)
    with Cons Inl show ?thesis by simp
  next
    case (Inr s)
    then show ?thesis by (auto simp: Ex_less_Suc2 All_less_Suc2)
  qed
qed simp

lemma try_cids_errors:
  "try_cids connect port cids errors = Inl errs \<Longrightarrow> map fst errs = map fst errors @ cids"
  by (induction cids arbitrary: errors) (auto split: sum.splits)

text \<open>A peer that does not survive a handshake on which the given calls were made.\<close>

definition refuses :: "tls_lib \<Rightarrow> string \<Rightarrow> EgressStream \<Rightarrow> tls_op set \<Rightarrow> bool" where
  "refuses L sni sock req \<longleftrightarrow> (\<forall>ops. req \<subseteq> set ops \<longrightarrow> (\<exists>e. tl_connect L ops sni sock = Inl e))"

text \<open>The contract of a TLS back end driven through a builder.\<close>

locale tls_backend =
  fixes connect :: "tls_lib \<Rightarrow> TlsProfile \<Rightarrow> EgressStream \<Rightarrow> string \<Rightarrow> tls_error + conn"
  assumes connect_verifies: "connect L p sock sni = Inr c \<Longrightarrow>
    \<exists>ops. tl_connect L ops sni sock = Inr c \<and> VerifyPeer \<in> set ops \<and> TrustCaBundle \<in> set ops
      \<and> MinProtoVersion (min_negotiated p) \<in> set ops"
begin

lemma untrusted_peer: "refuses L sni sock {VerifyPeer, TrustCaBundle} \<Longrightarrow> connect L p sock sni \<noteq> Inr c"
  using connect_verifies [of L p sock sni c] by (force simp: refuses_def)

lemma downgrade: "refuses L sni sock {MinProtoVersion (min_negotiated p)} \<Longrightarrow> connect L p sock sni \<noteq> Inr c"
  using connect_verifies [of L p sock sni c] by (force simp: refuses_def)

end

lemma finish_connect_Ok:
  "finish_connect L sni sock ops = Inr c \<longleftrightarrow> tl_configure L ops = None \<and> tl_connect L ops sni sock = Inr c"
  by (auto simp: finish_connect_def split: option.splits sum.splits HandshakeError.splits)

lemmas setup_defs = fallible_def ignoring_def infallible_def unless_def check_grease_def check_ext_order_def cert_setup_def

lemma step_extends:
  "fallible L op ops = Inr ops' \<Longrightarrow> set ops' = insert op (set ops)"
  "infallible op ops = Inr ops' \<Longrightarrow> set ops' = insert op (set ops)"
  "ignoring L op ops = Inr ops' \<Longrightarrow> set ops \<subseteq> set ops'"
  "check_grease p ops = Inr ops' \<Longrightarrow> ops' = ops"
  "check_ext_order p ops = Inr ops' \<Longrightarrow> ops' = ops"
  by (auto simp: setup_defs split: option.splits GreasePolicy.splits ExtOrder.splits)

lemma run_setup_append: "run_setup (fs @ gs) ops = result_bind (run_setup fs ops) (run_setup gs)"
  by (induction fs arbitrary: ops) (auto simp: result_bind_def split: sum.split)

text \<open>What both back ends do last.\<close>

definition verify_tail :: "tls_lib \<Rightarrow> TlsProfile \<Rightarrow> (tls_op list \<Rightarrow> tls_error + tls_op list) list" where
  "verify_tail L p = [fallible L (MinProtoVersion (min_negotiated p)), ignoring L (MaxProtoVersion Tls13)] @ cert_setup L p"

lemma setup_verifies:
  assumes "run_setup (fs @ verify_tail L p) ops = Inr ops'"
  shows "VerifyPeer \<in> set ops' \<and> TrustCaBundle \<in> set ops' \<and> MinProtoVersion (min_negotiated p) \<in> set ops'"
proof -
  obtain o0 o1 o2 o3 where o: "fallible L (MinProtoVersion (min_negotiated p)) o0 = Inr o1"
      "ignoring L (MaxProtoVersion Tls13) o1 = Inr o2"
      "infallible VerifyPeer o2 = Inr o3" "fallible L TrustCaBundle o3 = Inr ops'"
    using assms by (cases "cert_policy p") (auto simp: cert_setup_def verify_tail_def run_setup_append result_bind_Inr_iff)
  show ?thesis
    using step_extends(1) [OF o(1)] step_extends(3) [OF o(2)] step_extends(2) [OF o(3)] step_extends(1) [OF o(4)]
    by auto
qed

interpretation boring: tls_backend boring_connect
proof
  fix L p sock sni c
  assume "boring_connect L p sock sni = Inr c"
  then obtain ops where ops: "run_setup (boring_setup L p) [] = Inr ops" "tl_connect L ops sni sock = Inr c"
    by (auto simp: boring_connect_def result_bind_Inr_iff finish_connect_Ok split: option.splits)
  obtain fs where "boring_setup L p = fs @ verify_tail L p"
    by (rule that [of "take 8 (boring_setup L p)"]) (simp add: boring_setup_def verify_tail_def)
  with ops(1) have "run_setup (fs @ verify_tail L p) [] = Inr ops" by simp
  with setup_verifies ops(2) show "\<exists>ops. tl_connect L ops sni sock = Inr c \<and> VerifyPeer \<in> set ops
      \<and> TrustCaBundle \<in> set ops \<and> MinProtoVersion (min_negotiated p) \<in> set ops" by blast
qed

interpretation openssl: tls_backend openssl_connect
proof
  fix L p sock sni c
  assume "openssl_connect L p sock sni = Inr c"
  then obtain ops where ops: "run_setup (openssl_setup L p) [] = Inr ops" "tl_connect L ops sni sock = Inr c"
    by (auto simp: openssl_connect_def result_bind_Inr_iff finish_connect_Ok split: option.splits)
  obtain fs where "openssl_setup L p = fs @ verify_tail L p"
    by (rule that [of "take 6 (openssl_setup L p)"]) (simp add: openssl_setup_def verify_tail_def)
  with ops(1) have "run_setup (fs @ verify_tail L p) [] = Inr ops" by simp
  with setup_verifies ops(2) show "\<exists>ops. tl_connect L ops sni sock = Inr c \<and> VerifyPeer \<in> set ops
      \<and> TrustCaBundle \<in> set ops \<and> MinProtoVersion (min_negotiated p) \<in> set ops" by blast
qed

section \<open>Properties\<close>

text \<open>
  The configured list of parents is read back as written.  Decimal identifiers separated by commas
  are parsed to themselves, each kept at its first position, for every non-empty list of 32-bit values.
\<close>

theorem parse_parent_cids_roundtrip:
  assumes "cids \<noteq> []"
  shows "parse_parent_cid_candidates (Some (join '','' (map (\<lambda>c. nat_to_string (unat c)) cids)))
    = Ok (keep_first cids)"
proof -
  have "CHR '','' \<notin> set (nat_to_string n)" for n using nat_to_string_code [of "CHR '',''" n] by auto
  then have "split_on (CHR '','') (join '','' (map (\<lambda>c. nat_to_string (unat c)) cids))
      = map (\<lambda>c. nat_to_string (unat c)) cids"
    using assms by (intro split_on_join) auto
  moreover have "collect_cids [] (map (\<lambda>c. nat_to_string (unat c)) cids) = Ok (keep_first cids)"
    using collect_cids_decimal [of "[]" cids] by (simp add: keep_first_def)
  moreover have "keep_first cids \<noteq> []" using assms set_keep_first [of cids] by (metis set_empty)
  ultimately show ?thesis by (simp add: parse_parent_cid_candidates_def)
qed

theorem parse_parent_cids_roundtrip_witness:
  "parse_parent_cid_candidates (Some (join '','' (map (\<lambda>c. nat_to_string (unat c)) [3 :: u32, 16, 3])))
    = Ok [3, 16]"
  using parse_parent_cids_roundtrip [of "[3, 16, 3]"] by (simp add: keep_first_def)

text \<open>
  The parents are tried in the configured order without repetition, and the first that answers is
  used: a connection comes from a candidate all of whose predecessors failed, and when none answers the
  error lists every candidate.
\<close>

theorem connect_parent_vsock_order:
  assumes "parent_cid_candidates S = Ok cids"
  shows "cids \<noteq> [] \<and> distinct cids
    \<and> (connect_parent_vsock S port = Ok sock \<longleftrightarrow>
        (\<exists>i<length cids. sk_vsock S (cids ! i) port = Ok sock
           \<and> (\<forall>j<i. \<exists>e. sk_vsock S (cids ! j) port = Err e)))
    \<and> (\<forall>e. connect_parent_vsock S port = Err e \<longrightarrow>
        (\<exists>errors. e = VsockFailed cids port errors \<and> map fst errors = cids))"
proof -
  have "cids \<noteq> [] \<and> distinct cids"
    using assms by (auto simp: parent_cid_candidates_def parse_parent_cid_candidates_def result_bind_Inr_iff
        DEFAULT_PARENT_CID_def split: option.splits if_splits dest: collect_cids_distinct)
  moreover have "connect_parent_vsock S port = Ok sock \<longleftrightarrow> try_cids (sk_vsock S) port cids [] = Inr sock"
    using assms by (simp add: connect_parent_vsock_def split: sum.split)
  moreover have "\<exists>errors. e = VsockFailed cids port errors \<and> map fst errors = cids"
    if e: "connect_parent_vsock S port = Err e" for e
    using e assms try_cids_errors [of "sk_vsock S" port cids "[]"]
    by (auto simp: connect_parent_vsock_def split: sum.splits)
  ultimately show ?thesis by (simp add: try_cids_first)
qed

definition sample_sockets :: sockets where
  "sample_sockets = \<lparr>sk_env = (\<lambda>k. if k = ''POO_PARENT_CIDS'' then Some ''3, 16'' else None),
     sk_vsock = (\<lambda>cid port. if cid = 16 then Ok \<lparr>cn_out = \<lparr>wr_out = [], wr_budget = None\<rparr>, cn_in = []\<rparr>
                   else Err ''refused''),
     sk_tcp = (\<lambda>host port. Err ''refused'')\<rparr>"

theorem connect_parent_vsock_order_witness:
  "parent_cid_candidates sample_sockets = Ok [3, 16]
   \<and> connect_parent_vsock sample_sockets 8443 = Ok \<lparr>cn_out = \<lparr>wr_out = [], wr_budget = None\<rparr>, cn_in = []\<rparr>"
proof -
  have "split_on (CHR '','') ''3, 16'' = [''3'', '' 16'']" "trim ''3'' = ''3''" "trim '' 16'' = ''16''"
      "digits_value 10 0 ''3'' = Some 3" "digits_value 10 0 ''16'' = Some 16"
    by code_simp+
  then have c: "parent_cid_candidates sample_sockets = Ok [3, 16]"
    by (simp add: parent_cid_candidates_def parse_parent_cid_candidates_def sample_sockets_def parse_uint_def)
  from connect_parent_vsock_order [OF c, of 8443 "\<lparr>cn_out = \<lparr>wr_out = [], wr_budget = None\<rparr>, cn_in = []\<rparr>"] c
  show ?thesis by (simp add: Ex_less_Suc2 sample_sockets_def)
qed

text \<open>
  C21: No exchange with an unverified peer.  Both native back ends ask for peer verification against the
  built-in roots, and for the version floor of the profile, on every connector they build: when the
  library refuses a peer under verification, or under that floor, the set-up fails, whatever else the
  profile says.
\<close>

theorem egress_verifies_peer:
  assumes "connect \<in> {boring_connect, openssl_connect}"
    and "refuses L sni sock {VerifyPeer, TrustCaBundle} \<or> refuses L sni sock {MinProtoVersion (min_negotiated p)}"
  shows "\<exists>e. connect L p sock sni = Err e"
proof (cases "connect L p sock sni")
  case (Inr c)
  then show ?thesis
    using assms boring.untrusted_peer [of L sni sock p c] boring.downgrade [of L sni sock p c]
      openssl.untrusted_peer [of L sni sock p c] openssl.downgrade [of L sni sock p c]
    by auto
qed simp

definition sample_profile :: TlsProfile where
  "sample_profile = \<lparr>spec_id = 1, issued_at = 0, label = ''p'', stack = Boring, cipher_list = ''ALL'', sigalgs = [],
     groups = [], alpn = [''http/1.1''], grease = GreaseDisabled, ext_order = FixedOrder, min_negotiated = Tls12,
     cert_policy = WebpkiRoots, h2 = None\<rparr>"

theorem egress_verifies_peer_witness:
  "\<exists>e. boring_connect \<lparr>tl_builder = None, tl_call = (\<lambda>_ _. None), tl_configure = (\<lambda>_. None),
      tl_connect = (\<lambda>ops sni sock. if VerifyPeer \<in> set ops then Inl (HandshakeFailure ''untrusted'')
        else Inr \<lparr>cn_out = \<lparr>wr_out = [], wr_budget = None\<rparr>, cn_in = []\<rparr>)\<rparr>
     sample_profile (TcpEgress \<lparr>cn_out = \<lparr>wr_out = [], wr_budget = None\<rparr>, cn_in = []\<rparr>) ''h'' = Err e"
  by (rule egress_verifies_peer) (simp_all add: refuses_def)

text \<open>The wire form of a protocol list and its reading, after the TLS extension.\<close>

fun alpn_split :: "nat \<Rightarrow> u8 list \<Rightarrow> u8 list list option" where
  "alpn_split fuel [] = Some []"
| "alpn_split 0 (n # bs) = None"
| "alpn_split (Suc fuel) (n # bs) =
     (if unat n = 0 \<or> length bs < unat n then None
      else map_option ((#) (take (unat n) bs)) (alpn_split fuel (drop (unat n) bs)))"

lemma alpn_split_wire:
  "\<forall>p\<in>set ps. p \<noteq> [] \<and> length p < 256 \<Longrightarrow> length ps \<le> fuel \<Longrightarrow> alpn_split fuel (alpn_wire ps) = Some (map as_bytes ps)"
proof (induction ps arbitrary: fuel)
  case (Cons p ps)
  then obtain f where f: "fuel = Suc f" by (cases fuel) auto
  have "unat (of_nat (length p) :: u8) = length p" using Cons.prems(1) by (simp add: unsigned_of_nat take_bit_nat_eq_self)
  with Cons f show ?case by (simp add: alpn_wire_def)
qed (simp add: alpn_wire_def)

end
