(* ===== verification/Http.thy ===== *)
theory Http
  imports Statement IO Egress
begin

text \<open>
  The HTTP/1.1 client of the enclave: the request head it writes
  (\<^verbatim>\<open>build_request_head_ordered\<close> and the map path of \<^verbatim>\<open>handle\<close>),
  the response head it reads (\<^verbatim>\<open>read_until_headers\<close>, \<^verbatim>\<open>parse_headers\<close>)
  and the two ways a body is forwarded (\<^verbatim>\<open>stream_plain\<close>, \<^verbatim>\<open>stream_chunked\<close>).

  The sink a body is forwarded to is a function on an explicit state.  The buffer sizes of the reads
  are those of the code; \<^verbatim>\<open>usize\<close> sums over values the upstream chooses are taken modulo
  \<open>2 ^ 64\<close>.
\<close>

section \<open>Errors\<close>

datatype h2_error =
    PseudoHeaderOrder | UnsupportedSetting u16 | WindowOverflow | H2Runtime string | H2Handshake string
  | H2Uri string | H2Method string | H2Request string | H2HeaderName string string
  | H2HeaderValue string string | H2Authorization string | H2ContentLength string | H2SendHeaders string
  | H2StreamClosed | H2Capacity string | H2SendBody string | H2Response string | H2Body string
  | H2SizeOverflow | H2TooLarge | H2Release string | H2Connection string | H2DriverPanicked

datatype enclave_error =
    StatusLine | HeadTooLarge | HeadClosed | HeadEof | HeadIo io_kind
  | ChunkHeadIo io_kind | ChunkedEof | ChunkSize | RespTooLarge | ChunkBodyIo io_kind
  | ContentLengthEof nat nat | BodyIo io_kind
  | ReadHead io_kind | ExpectedReqHead u8 | HeadJson | ReadBody io_kind | ExpectedReqBody u8
  | NonceBase64 | CrlfUpstream | CrlfHeader | CrlfToken
  | EgressFailed egress_error | RustlsEgress tls_error | RustlsHandshake string | NotH2 "u8 list option"
  | BoringEgress tls_error | OpensslEgress tls_error | RingEgress tls_error
  | WriteRequestHead io_kind | WriteRequestBody io_kind
  | WriteRespHead io_kind | WriteRespChunk io_kind | WriteTrailer io_kind | WriteUnavailable io_kind
  | MissingH2 | H2Failed h2_error | Panicked string

type_synonym 'st sink = "u8 list \<Rightarrow> 'st \<Rightarrow> (enclave_error + unit) \<times> 'st"

section \<open>The request head\<close>

fun parse_header_pairs :: "string list list \<Rightarrow> (string \<times> string) list option" where
  "parse_header_pairs [] = Some []"
| "parse_header_pairs (pair # arr) =
     (if length pair \<noteq> 2 then None
      else map_option ((#) (pair ! 0, pair ! 1)) (parse_header_pairs arr))"

definition parse_headers_ordered :: "string list list option \<Rightarrow> (string \<times> string) list option" where
  "parse_headers_ordered v = Option.bind v parse_header_pairs"

definition header_line :: "string \<Rightarrow> string \<Rightarrow> string" where
  "header_line k v = k @ '': '' @ v @ crlf"

fun ordered_header_step ::
  "string option \<Rightarrow> nat \<Rightarrow> string \<times> bool \<times> bool \<Rightarrow> string \<times> string \<Rightarrow> string \<times> bool \<times> bool" where
  "ordered_header_step tok body_len (s, host_seen, clen_seen) (k, v) =
     (if eq_ignore_ascii_case k ''authorization'' then
        (case tok of
           Some t \<Rightarrow> (s @ header_line k (''Bearer '' @ t), host_seen, clen_seen)
         | None \<Rightarrow> (s, host_seen, clen_seen))
      else if eq_ignore_ascii_case k ''content-length'' then
        (s @ header_line k (nat_to_string body_len), host_seen, True)
      else if eq_ignore_ascii_case k ''transfer-encoding'' then (s, host_seen, clen_seen)
      else (s @ header_line k v, host_seen \<or> eq_ignore_ascii_case k ''host'', clen_seen))"

definition request_line :: "string \<Rightarrow> string \<Rightarrow> string" where
  "request_line norm_method path = norm_method @ '' '' @ path @ '' HTTP/1.1'' @ crlf"

definition build_request_head_ordered ::
  "string \<Rightarrow> string \<Rightarrow> string \<Rightarrow> (string \<times> string) list \<Rightarrow> string option \<Rightarrow> nat \<Rightarrow> string" where
  "build_request_head_ordered norm_method path host ordered tok body_len =
     (case foldl (ordered_header_step tok body_len) (request_line norm_method path, False, False) ordered of
        (s, host_seen, clen_seen) \<Rightarrow>
          let s = (if \<not> host_seen then s @ header_line ''host'' host else s);
              s = (if \<not> clen_seen then s @ header_line ''content-length'' (nat_to_string body_len) else s)
          in s @ crlf)"

definition managed_headers :: "string list" where
  "managed_headers = [''host'', ''authorization'', ''content-length'', ''connection'', ''transfer-encoding'',
     ''te'', ''trailer'', ''upgrade'', ''proxy-connection'', ''keep-alive'']"

definition build_request_head_map ::
  "('x) unicode_scheme \<Rightarrow> string \<Rightarrow> string \<Rightarrow> string \<Rightarrow> (string, string) btree \<Rightarrow> string option \<Rightarrow> nat \<Rightarrow> string" where
  "build_request_head_map X norm_method path host hs tok body_len =
     (let req = request_line norm_method path @ header_line ''host'' host;
          req = foldl (\<lambda>req (k, v).
                  if to_lowercase X k \<in> set managed_headers then req else req @ header_line k v) req hs;
          req = (case tok of
                   Some t \<Rightarrow> req @ header_line ''authorization'' (''Bearer '' @ t)
                 | None \<Rightarrow> req);
          req = req @ header_line ''content-length'' (nat_to_string body_len)
      in req @ ''connection: close'' @ crlf @ crlf)"

section \<open>The response head\<close>

record Headers =
  hd_status :: u16
  hd_content_type :: "string option"
  hd_chunked :: bool
  hd_content_length :: "nat option"
  hd_headers :: "(string, string) btree"

definition parse_header_line :: "('x) unicode_scheme \<Rightarrow> Headers \<Rightarrow> string \<Rightarrow> Headers" where
  "parse_header_line X h line =
     (case str_find (CHR '':'') line of
        None \<Rightarrow> h
      | Some idx \<Rightarrow>
          let k = to_lowercase X (trim (take idx line));
              v = trim (drop (idx + 1) line);
              h = (if k = ''content-type'' then h\<lparr>hd_content_type := Some v\<rparr>
                   else if k = ''transfer-encoding'' \<and> str_contains (to_lowercase X v) ''chunked''
                     then h\<lparr>hd_chunked := True\<rparr>
                   else if k = ''content-length'' then h\<lparr>hd_content_length := parse_uint 64 10 v\<rparr>
                   else h)
          in h\<lparr>hd_headers :=
                 (case bt_get (hd_headers h) k of
                    Some existing \<Rightarrow> bt_insert k (existing @ '', '' @ v) (hd_headers h)
                  | None \<Rightarrow> bt_insert k v (hd_headers h))\<rparr>)"

definition parse_status_line :: "string \<Rightarrow> u16 option" where
  "parse_status_line l =
     (case split_whitespace l of
        _ # s # _ \<Rightarrow> map_option of_nat (parse_uint 16 10 s)
      | _ \<Rightarrow> None)"

definition parse_headers :: "('x) unicode_scheme \<Rightarrow> u8 list \<Rightarrow> enclave_error + Headers" where
  "parse_headers X head =
     (let lines = split_crlf (from_utf8_lossy head)
      in (case parse_status_line (hd lines) of
            None \<Rightarrow> Err StatusLine
          | Some status \<Rightarrow>
              Ok (foldl (parse_header_line X)
                   \<lparr>hd_status = status, hd_content_type = None, hd_chunked = False,
                    hd_content_length = None, hd_headers = bt_empty\<rparr> (tl lines))))"

definition MAX_HEAD :: nat where "MAX_HEAD = 64 * 1024"
definition MAX_RESP :: nat where "MAX_RESP = 64 * 1024 * 1024"

definition head_end :: "u8 list" where
  "head_end = [13, 10, 13, 10]"

function read_head_loop :: "u8 list \<Rightarrow> reader \<Rightarrow> (enclave_error + (u8 list \<times> u8 list)) \<times> reader" where
  "read_head_loop buf r =
     (case find buf head_end of
        Some pos \<Rightarrow> (Ok (take pos buf, drop (pos + 4) buf), r)
      | None \<Rightarrow>
          if MAX_HEAD < length buf then (Err HeadTooLarge, r)
          else
            (case read r 4096 of
               (Inr bs, r) \<Rightarrow> if bs = [] then (Err HeadClosed, r) else read_head_loop (buf @ bs) r
             | (Inl e, r) \<Rightarrow> (Err (if e = UnexpectedEof then HeadEof else HeadIo e), r)))"
  by pat_completeness auto
termination
  by (relation "measure (\<lambda>(buf, r). Suc MAX_HEAD - length buf)")
     (auto simp: length_greater_0_conv [symmetric] simp del: length_greater_0_conv)

declare read_head_loop.simps [simp del]

definition read_until_headers :: "reader \<Rightarrow> (enclave_error + (u8 list \<times> u8 list)) \<times> reader" where
  "read_until_headers r = read_head_loop [] r"

section \<open>Bodies of known length and bodies until end of file\<close>

function plain_length_loop ::
  "nat \<Rightarrow> 'st sink \<Rightarrow> nat \<Rightarrow> 'st \<Rightarrow> reader \<Rightarrow> (enclave_error + unit) \<times> 'st \<times> reader" where
  "plain_length_loop cl sink tot st r =
     (if cl \<le> tot then (Ok (), st, r)
      else
        (case read r (min (cl - tot) 16384) of
           (Inr bs, r) \<Rightarrow>
             if bs = [] then (Err (ContentLengthEof tot cl), st, r)
             else (case sink bs st of
                     (Inl e, st) \<Rightarrow> (Err e, st, r)
                   | (Inr _, st) \<Rightarrow> plain_length_loop cl sink (tot + length bs) st r)
         | (Inl e, r) \<Rightarrow>
             (Err (if e = UnexpectedEof \<or> e = ConnectionAborted then ContentLengthEof tot cl
                   else BodyIo e), st, r)))"
  by pat_completeness auto
termination
  by (relation "measure (\<lambda>(cl, sink, tot, st, r). cl - tot)")
     (auto simp: length_greater_0_conv [symmetric] simp del: length_greater_0_conv)

declare plain_length_loop.simps [simp del]

function plain_eof_loop ::
  "'st sink \<Rightarrow> nat \<Rightarrow> 'st \<Rightarrow> reader \<Rightarrow> (enclave_error + unit) \<times> 'st \<times> reader" where
  "plain_eof_loop sink tot st r =
     (case read r 16384 of
        (Inr bs, r) \<Rightarrow>
          if bs = [] then (Ok (), st, r)
          else if MAX_RESP < tot + length bs then (Err RespTooLarge, st, r)
          else (case sink bs st of
                  (Inl e, st) \<Rightarrow> (Err e, st, r)
                | (Inr _, st) \<Rightarrow> plain_eof_loop sink (tot + length bs) st r)
      | (Inl e, r) \<Rightarrow>
          if e = UnexpectedEof \<or> e = ConnectionAborted then (Ok (), st, r)
          else (Err (BodyIo e), st, r))"
  by pat_completeness auto
termination
  by (relation "measure (\<lambda>(sink, tot, st, r). Suc MAX_RESP - tot)")
     (auto simp: length_greater_0_conv [symmetric] simp del: length_greater_0_conv)

declare plain_eof_loop.simps [simp del]

definition stream_plain ::
  "u8 list \<Rightarrow> reader \<Rightarrow> nat option \<Rightarrow> 'st sink \<Rightarrow> 'st \<Rightarrow> (enclave_error + unit) \<times> 'st \<times> reader" where
  "stream_plain initial r content_length sink st =
     (case content_length of
        Some cl \<Rightarrow>
          if MAX_RESP < cl then (Err RespTooLarge, st, r)
          else
            let initial_body = min (length initial) cl
            in if 0 < initial_body then
                 (case sink (take initial_body initial) st of
                    (Inl e, st) \<Rightarrow> (Err e, st, r)
                  | (Inr _, st) \<Rightarrow> plain_length_loop cl sink initial_body st r)
               else plain_length_loop cl sink 0 st r
      | None \<Rightarrow>
          if initial \<noteq> [] then
            if MAX_RESP < length initial then (Err RespTooLarge, st, r)
            else (case sink initial st of
                    (Inl e, st) \<Rightarrow> (Err e, st, r)
                  | (Inr _, st) \<Rightarrow> plain_eof_loop sink (length initial) st r)
          else plain_eof_loop sink 0 st r)"

section \<open>Chunked bodies\<close>

text \<open>The bytes a script can still deliver, the measure of the loops that wait for more.\<close>

fun event_size :: "read_event \<Rightarrow> nat" where
  "event_size (RData bs) = Suc (length bs)"
| "event_size (RErr e) = 1"

definition script_size :: "reader \<Rightarrow> nat" where
  "script_size r = sum_list (map event_size r)"

lemma read_script_size:
  "read r k = (Inr bs, r') \<Longrightarrow> bs \<noteq> [] \<Longrightarrow> script_size r' + length bs \<le> script_size r \<and> script_size r' < script_size r"
  by (induction r k rule: read.induct) (auto simp: script_size_def)

function fill_crlf :: "u8 list \<Rightarrow> reader \<Rightarrow> (enclave_error + (nat \<times> u8 list)) \<times> reader" where
  "fill_crlf buf r =
     (case find buf [13, 10] of
        Some p \<Rightarrow> (Ok (p, buf), r)
      | None \<Rightarrow>
          (case read r 16384 of
             (Inl e, r) \<Rightarrow> (Err (ChunkHeadIo e), r)
           | (Inr bs, r) \<Rightarrow>
               if bs = [] then (Err ChunkedEof, r) else fill_crlf (buf @ bs) r))"
  by pat_completeness auto
termination
  by (relation "measure (\<lambda>(buf, r). script_size r)") (auto dest: read_script_size [OF sym])

declare fill_crlf.simps [simp del]

function fill_to :: "nat \<Rightarrow> u8 list \<Rightarrow> reader \<Rightarrow> (enclave_error + u8 list) \<times> reader" where
  "fill_to n buf r =
     (if n \<le> length buf then (Ok buf, r)
      else
        (case read r 16384 of
           (Inl e, r) \<Rightarrow> (Err (ChunkBodyIo e), r)
         | (Inr bs, r) \<Rightarrow> if bs = [] then (Ok buf, r) else fill_to n (buf @ bs) r))"
  by pat_completeness auto
termination
  by (relation "measure (\<lambda>(n, buf, r). script_size r)") (auto dest: read_script_size [OF sym])

declare fill_to.simps [simp del]

definition chunk_size :: "u8 list \<Rightarrow> nat option" where
  "chunk_size line =
     parse_uint 64 16 (trim (hd (split_on (CHR '';'') (trim (from_utf8_lossy line)))))"

lemma fill_crlf_size:
  "fill_crlf buf r = (Inr (p, buf'), r') \<Longrightarrow>
    length buf' + script_size r' \<le> length buf + script_size r \<and> p + 2 \<le> length buf'"
proof (induction buf r rule: fill_crlf.induct)
  case (1 buf r)
  show ?case
  proof (cases "find buf [13, 10]")
    case None
    then obtain bs r1 where r1: "read r 16384 = (Inr bs, r1)" "bs \<noteq> []"
        "fill_crlf (buf @ bs) r1 = (Inr (p, buf'), r')"
      using 1(2) by (subst (asm) fill_crlf.simps) (auto split: sum.splits prod.splits if_splits)
    with 1(1) [OF None r1(1) [symmetric] refl r1(2)] read_script_size [OF r1(1,2)] show ?thesis by simp
  next
    case (Some i)
    with 1(2) have "i = p" "buf' = buf" "r' = r" by (subst (asm) fill_crlf.simps, simp)+
    with find_Some [OF Some] show ?thesis by simp
  qed
qed

lemma fill_to_size:
  "fill_to n buf r = (Inr buf', r') \<Longrightarrow> length buf' + script_size r' \<le> length buf + script_size r"
proof (induction n buf r rule: fill_to.induct)
  case (1 n buf r)
  show ?case
  proof (cases "n \<le> length buf")
    case False
    then obtain bs r1 where r1: "read r 16384 = (Inr bs, r1)"
      using 1(2) by (subst (asm) fill_to.simps) (auto split: sum.splits prod.splits)
    show ?thesis
    proof (cases "bs = []")
      case True
      have "script_size r1 \<le> script_size r"
        using r1 by (induction r "16384 :: nat" rule: read.induct) (auto simp: script_size_def split: if_splits)
      with 1(2) False r1 True show ?thesis by (subst (asm) fill_to.simps) simp
    next
      case ne: False
      with 1(2) False r1 have "fill_to n (buf @ bs) r1 = (Inr buf', r')" by (subst (asm) fill_to.simps) simp
      with 1(1) [OF False r1 [symmetric] refl ne] read_script_size [OF r1 ne] show ?thesis by simp
    qed
  qed (use 1(2) in \<open>subst (asm) fill_to.simps, simp\<close>)
qed

function chunk_loop ::
  "'st sink \<Rightarrow> nat \<Rightarrow> u8 list \<Rightarrow> 'st \<Rightarrow> reader \<Rightarrow> (enclave_error + unit) \<times> 'st \<times> reader" where
  "chunk_loop sink tot buf st r =
     (case fill_crlf buf r of
        (Inl e, r) \<Rightarrow> (Err e, st, r)
      | (Inr (p, buf), r) \<Rightarrow>
          (case chunk_size (take p buf) of
             None \<Rightarrow> (Err ChunkSize, st, r)
           | Some sz \<Rightarrow>
               let buf = drop (p + 2) buf
               in if sz = 0 then (Ok (), st, r)
                  else
                    let tot = (tot + sz) mod 2 ^ 64
                    in if MAX_RESP < tot then (Err RespTooLarge, st, r)
                       else
                         (case fill_to ((sz + 2) mod 2 ^ 64) buf r of
                            (Inl e, r) \<Rightarrow> (Err e, st, r)
                          | (Inr buf, r) \<Rightarrow>
                              let n = min sz (length buf)
                              in (case sink (take n buf) st of
                                    (Inl e, st) \<Rightarrow> (Err e, st, r)
                                  | (Inr _, st) \<Rightarrow>
                                      let buf = drop n buf;
                                          buf = (if take 2 buf = [13, 10] then drop 2 buf else buf)
                                      in chunk_loop sink tot buf st r))))"
  by pat_completeness auto
termination
  by (relation "measure (\<lambda>(sink, tot, buf, st, r). length buf + script_size r)")
     (auto dest!: fill_crlf_size [OF sym] fill_to_size [OF sym])

declare chunk_loop.simps [simp del]

definition stream_chunked ::
  "u8 list \<Rightarrow> reader \<Rightarrow> 'st sink \<Rightarrow> 'st \<Rightarrow> (enclave_error + unit) \<times> 'st \<times> reader" where
  "stream_chunked buf r sink st = chunk_loop sink 0 buf st r"

end
