(* ===== verification/Http_Props.thy ===== *)
theory Http_Props
  imports Http
begin

text \<open>
  What the HTTP client guarantees: the request head consists of the intended lines only, bodies are
  forwarded completely and in order, and where the size limit fails.
\<close>

section \<open>Lines of the request head\<close>

lemma split_crlf_from_line:
  "no_crlf l \<Longrightarrow> split_crlf_from acc (l @ CR # LF # s) = (acc @ l) # split_crlf_from [] s"
proof (induction l arbitrary: acc)
  case (Cons c l)
  then have c: "c \<noteq> CR" and l: "no_crlf l" by (auto simp: no_crlf_def)
  obtain d t where dt: "l @ CR # LF # s = d # t" by (cases "l @ CR # LF # s") auto
  from Cons.IH [OF l, of "acc @ [c]"] c show ?case by (simp add: dt)
qed simp

lemma split_crlf_line: "no_crlf l \<Longrightarrow> split_crlf (l @ crlf @ s) = l # split_crlf s"
  by (simp add: split_crlf_def split_crlf_from_line)

definition with_crlf :: "string list \<Rightarrow> string" where
  "with_crlf ls = concat (map (\<lambda>l. l @ crlf) ls)"

lemma with_crlf_simps [simp]:
  "with_crlf [] = []" "with_crlf (l # ls) = l @ crlf @ with_crlf ls"
  "with_crlf (ls @ ms) = with_crlf ls @ with_crlf ms"
  by (simp_all add: with_crlf_def)

lemma split_crlf_lines:
  "list_all no_crlf ls \<Longrightarrow> split_crlf (with_crlf ls @ s) = ls @ split_crlf s"
  by (induction ls) (simp_all add: split_crlf_line [simplified])

lemma split_crlf_end: "split_crlf crlf = [[], []]"
  by (simp add: split_crlf_def)

definition header_text :: "string \<times> string \<Rightarrow> string" where
  "header_text kv = fst kv @ '': '' @ snd kv"

lemma header_line_text: "header_line k v = header_text (k, v) @ crlf"
  by (simp add: header_line_def header_text_def)

text \<open>The lines of the map path: request line, host, the client's own headers, token, framing.\<close>

definition map_head_lines ::
  "('x) unicode_scheme \<Rightarrow> string \<Rightarrow> string \<Rightarrow> string \<Rightarrow> (string, string) btree \<Rightarrow> string option \<Rightarrow> nat \<Rightarrow> string list" where
  "map_head_lines X norm_method path host hs tok body_len =
     [norm_method @ '' '' @ path @ '' HTTP/1.1'', header_text (''host'', host)]
     @ map header_text (filter (\<lambda>kv. to_lowercase X (fst kv) \<notin> set managed_headers) hs)
     @ (case tok of Some t \<Rightarrow> [header_text (''authorization'', ''Bearer '' @ t)] | None \<Rightarrow> [])
     @ [header_text (''content-length'', nat_to_string body_len), ''connection: close'']"

lemma foldl_map_headers:
  "foldl (\<lambda>req (k, v). if to_lowercase X k \<in> set managed_headers then req else req @ header_line k v) s hs
     = s @ with_crlf (map header_text (filter (\<lambda>kv. to_lowercase X (fst kv) \<notin> set managed_headers) hs))"
  by (induction hs arbitrary: s) (auto simp: header_line_text)

lemma build_request_head_map_lines:
  "build_request_head_map X norm_method path host hs tok body_len
     = with_crlf (map_head_lines X norm_method path host hs tok body_len) @ crlf"
  unfolding build_request_head_map_def Let_def foldl_map_headers map_head_lines_def
  by (simp add: request_line_def header_line_text split: option.split)

text \<open>The lines of the ordered path.\<close>

definition ordered_header_lines :: "string option \<Rightarrow> nat \<Rightarrow> string \<times> string \<Rightarrow> string list" where
  "ordered_header_lines tok body_len kv =
     (if eq_ignore_ascii_case (fst kv) ''authorization''
      then (case tok of Some t \<Rightarrow> [header_text (fst kv, ''Bearer '' @ t)] | None \<Rightarrow> [])
      else if eq_ignore_ascii_case (fst kv) ''content-length''
      then [header_text (fst kv, nat_to_string body_len)]
      else if eq_ignore_ascii_case (fst kv) ''transfer-encoding'' then []
      else [header_text kv])"

definition names :: "(string \<times> string) list \<Rightarrow> string \<Rightarrow> bool" where
  "names ordered name = list_ex (\<lambda>kv. eq_ignore_ascii_case (fst kv) name) ordered"

definition ordered_head_lines ::
  "string \<Rightarrow> string \<Rightarrow> string \<Rightarrow> (string \<times> string) list \<Rightarrow> string option \<Rightarrow> nat \<Rightarrow> string list" where
  "ordered_head_lines norm_method path host ordered tok body_len =
     [norm_method @ '' '' @ path @ '' HTTP/1.1'']
     @ concat (map (ordered_header_lines tok body_len) ordered)
     @ (if names ordered ''host'' then [] else [header_text (''host'', host)])
     @ (if names ordered ''content-length'' then []
        else [header_text (''content-length'', nat_to_string body_len)])"

lemma eq_ignore_ascii_case_distinct:
  "eq_ignore_ascii_case k a \<Longrightarrow> eq_ignore_ascii_case k b \<Longrightarrow> to_ascii_lowercase a = to_ascii_lowercase b"
  by (simp add: eq_ignore_ascii_case_def)

lemma lower_literals:
  "to_ascii_lowercase ''host'' = ''host''" "to_ascii_lowercase ''authorization'' = ''authorization''"
  "to_ascii_lowercase ''content-length'' = ''content-length''"
  "to_ascii_lowercase ''transfer-encoding'' = ''transfer-encoding''"
  by code_simp+

lemma foldl_ordered_headers:
  "foldl (ordered_header_step tok n) (s, h, c) ordered
     = (s @ with_crlf (concat (map (ordered_header_lines tok n) ordered)),
        h \<or> names ordered ''host'', c \<or> names ordered ''content-length'')"
proof (induction ordered arbitrary: s h c)
  case (Cons kv ordered)
  obtain k v where kv: "kv = (k, v)" by (cases kv)
  have "ordered_header_step tok n (s, h, c) (k, v)
      = (s @ with_crlf (ordered_header_lines tok n (k, v)),
         h \<or> eq_ignore_ascii_case k ''host'', c \<or> eq_ignore_ascii_case k ''content-length'')"
    by (auto simp: ordered_header_lines_def header_line_text eq_ignore_ascii_case_def lower_literals
        split: option.split)
  with Cons show ?case by (simp add: kv names_def del: ordered_header_step.simps)
qed (simp add: names_def)

lemma build_request_head_ordered_lines:
  "build_request_head_ordered norm_method path host ordered tok body_len
     = with_crlf (ordered_head_lines norm_method path host ordered tok body_len) @ crlf"
  unfolding build_request_head_ordered_def foldl_ordered_headers ordered_head_lines_def Let_def
  by (simp add: request_line_def header_line_text)

section \<open>Forwarding\<close>

text \<open>A sink that records what it is given.\<close>

definition rec_sink :: "u8 list list sink" where
  "rec_sink bs st = (Ok (), st @ [bs])"

lemma rec_sink_simp: "rec_sink bs acc = (Inr (), acc @ [bs])"
  by (simp add: rec_sink_def)

lemma read_RData:
  "read (map RData (c # cs)) k = (Inr (take k c), map RData (if length c \<le> k then cs else drop k c # cs))"
  by simp

lemma plain_length_loop_ok:
  assumes "[] \<notin> set cs" and "tot \<le> cl" and "cl - tot \<le> length (concat cs)"
  shows "\<exists>chunks r'. plain_length_loop cl rec_sink tot acc (map RData cs) = (Ok (), acc @ chunks, r')
    \<and> concat chunks = take (cl - tot) (concat cs)"
  using assms
proof (induction "cl - tot" arbitrary: tot acc cs rule: less_induct)
  case less
  show ?case
  proof (cases "cl = tot")
    case True
    then show ?thesis by (subst plain_length_loop.simps) simp
  next
    case False
    with less.prems obtain c cs' where cs: "cs = c # cs'" "c \<noteq> []" by (cases cs) auto
    define k where "k = min (cl - tot) 16384"
    have k: "0 < k" "k \<le> cl - tot" using False less.prems(2) by (simp_all add: k_def)
    define bs where "bs = take k c"
    define ds where "ds = (if length c \<le> k then cs' else drop k c # cs')"
    have bs: "bs \<noteq> []" "length bs \<le> cl - tot" "bs @ concat ds = concat cs" "[] \<notin> set ds"
      using k cs less.prems(1) by (auto simp: bs_def ds_def)
    have dec: "cl - (tot + length bs) < cl - tot"
      using False less.prems(2) bs(1) by (cases bs) auto
    have "length bs + length (concat ds) = length (concat cs)" using bs(3) by (metis length_append)
    then have "\<exists>chunks r'. plain_length_loop cl rec_sink (tot + length bs) (acc @ [bs]) (map RData ds)
        = (Ok (), (acc @ [bs]) @ chunks, r') \<and> concat chunks = take (cl - (tot + length bs)) (concat ds)"
      using less.prems False bs k dec by (intro less.hyps) auto
    moreover have "take (cl - tot) (concat cs) = bs @ take (cl - (tot + length bs)) (concat ds)"
      using bs(2) by (simp add: bs(3) [symmetric])
    moreover have "plain_length_loop cl rec_sink tot acc (map RData cs)
        = plain_length_loop cl rec_sink (tot + length bs) (acc @ [bs]) (map RData ds)"
      using False less.prems(2) bs(1) cs
      by (subst plain_length_loop.simps) (simp add: rec_sink_def k_def [symmetric] bs_def ds_def)
    ultimately show ?thesis by force
  qed
qed

lemma plain_length_loop_short:
  assumes "[] \<notin> set cs" and "tot \<le> cl" and "length (concat cs) < cl - tot"
  shows "\<exists>chunks r'. plain_length_loop cl rec_sink tot acc (map RData cs)
      = (Err (ContentLengthEof (tot + length (concat cs)) cl), acc @ chunks, r') \<and> concat chunks = concat cs"
  using assms
proof (induction "cl - tot" arbitrary: tot acc cs rule: less_induct)
  case less
  show ?case
  proof (cases cs)
    case Nil
    with less.prems show ?thesis by (subst plain_length_loop.simps) simp
  next
    case (Cons c cs')
    with less.prems have c: "c \<noteq> []" "\<not> cl \<le> tot" by auto
    define k where "k = min (cl - tot) 16384"
    have k: "0 < k" "k \<le> cl - tot" using c less.prems(2) by (simp_all add: k_def)
    define bs where "bs = take k c"
    define ds where "ds = (if length c \<le> k then cs' else drop k c # cs')"
    have bs: "bs \<noteq> []" "length bs \<le> cl - tot" "bs @ concat ds = concat cs" "[] \<notin> set ds"
      using k Cons c less.prems(1) by (auto simp: bs_def ds_def)
    have dec: "cl - (tot + length bs) < cl - tot" using c(2) bs(1) by (cases bs) auto
    have len: "length bs + length (concat ds) = length (concat cs)" using bs(3) by (metis length_append)
    then have "\<exists>chunks r'. plain_length_loop cl rec_sink (tot + length bs) (acc @ [bs]) (map RData ds)
        = (Err (ContentLengthEof (tot + length bs + length (concat ds)) cl), (acc @ [bs]) @ chunks, r')
          \<and> concat chunks = concat ds"
      using less.prems bs k dec by (intro less.hyps) auto
    moreover have "plain_length_loop cl rec_sink tot acc (map RData cs)
        = plain_length_loop cl rec_sink (tot + length bs) (acc @ [bs]) (map RData ds)"
      using c bs(1) Cons
      by (subst plain_length_loop.simps) (simp add: rec_sink_def k_def [symmetric] bs_def ds_def)
    ultimately show ?thesis using len bs(3) by (force simp: add.assoc)
  qed
qed

lemma plain_eof_loop_ok:
  assumes "[] \<notin> set cs" and "tot + length (concat cs) \<le> MAX_RESP"
  shows "\<exists>chunks r'. plain_eof_loop rec_sink tot acc (map RData cs) = (Ok (), acc @ chunks, r')
    \<and> concat chunks = concat cs"
  using assms
proof (induction "length (concat cs)" arbitrary: tot acc cs rule: less_induct)
  case less
  show ?case
  proof (cases cs)
    case Nil
    then show ?thesis by (subst plain_eof_loop.simps) simp
  next
    case (Cons c cs')
    with less.prems have c: "c \<noteq> []" by auto
    define bs where "bs = take 16384 c"
    define ds where "ds = (if length c \<le> 16384 then cs' else drop 16384 c # cs')"
    have bs: "bs \<noteq> []" "bs @ concat ds = concat cs" "[] \<notin> set ds"
      using Cons c less.prems(1) by (auto simp: bs_def ds_def)
    have len: "length bs + length (concat ds) = length (concat cs)" using bs(2) by (metis length_append)
    with bs(1) have "length (concat ds) < length (concat cs)" by (cases bs) auto
    then have "\<exists>chunks r'. plain_eof_loop rec_sink (tot + length bs) (acc @ [bs]) (map RData ds)
        = (Ok (), (acc @ [bs]) @ chunks, r') \<and> concat chunks = concat ds"
      using less.prems bs len by (intro less.hyps) auto
    moreover have "plain_eof_loop rec_sink tot acc (map RData cs)
        = plain_eof_loop rec_sink (tot + length bs) (acc @ [bs]) (map RData ds)"
      using c bs(1) Cons less.prems(2) len
      by (subst plain_eof_loop.simps) (simp add: rec_sink_def bs_def ds_def)
    ultimately show ?thesis using bs(2) by force
  qed
qed

text \<open>For any reader: success of the length-delimited loop means that all bytes came.\<close>

lemma plain_length_loop_step:
  assumes "plain_length_loop cl sink tot st r = (Inr u, st', r')" and "\<not> cl \<le> tot"
  obtains bs r1 st1 where "read r (min (cl - tot) 16384) = (Inr bs, r1)" "bs \<noteq> []" "sink bs st = (Inr (), st1)"
    "plain_length_loop cl sink (tot + length bs) st1 r1 = (Inr u, st', r')"
proof -
  obtain res r1 where rd: "read r (min (cl - tot) 16384) = (res, r1)" by fastforce
  show ?thesis
  proof (cases res)
    case (Inl e)
    with assms rd show ?thesis by (subst (asm) plain_length_loop.simps) simp
  next
    case (Inr bs)
    obtain v st1 where sk: "sink bs st = (v, st1)" by fastforce
    from assms rd Inr sk have "bs \<noteq> []" by (subst (asm) plain_length_loop.simps) auto
    moreover from this assms rd Inr sk obtain w where "v = Inr w"
      by (subst (asm) plain_length_loop.simps) (cases v; simp)
    moreover from calculation assms rd Inr sk
    have "plain_length_loop cl sink (tot + length bs) st1 r1 = (Inr u, st', r')"
      by (subst (asm) plain_length_loop.simps) simp
    ultimately show ?thesis using rd Inr sk that by simp
  qed
qed

lemma plain_length_loop_length:
  "plain_length_loop cl rec_sink tot acc r = (Inr u, acc', r') \<Longrightarrow> tot \<le> cl \<Longrightarrow>
    \<exists>chunks. acc' = acc @ chunks \<and> length (concat chunks) = cl - tot"
proof (induction "cl - tot" arbitrary: tot acc r rule: less_induct)
  case less
  show ?case
  proof (cases "cl \<le> tot")
    case True
    with less.prems show ?thesis by (subst (asm) plain_length_loop.simps) simp
  next
    case False
    obtain bs r1 acc1 where r1: "read r (min (cl - tot) 16384) = (Inr bs, r1)" "bs \<noteq> []"
        "rec_sink bs acc = (Inr (), acc1)"
        "plain_length_loop cl rec_sink (tot + length bs) acc1 r1 = (Inr u, acc', r')"
      by (rule plain_length_loop_step [OF less.prems(1) False])
    have le: "tot + length bs \<le> cl" using read_bytes_le [OF r1(1)] False by auto
    have lt: "cl - (tot + length bs) < cl - tot" using r1(2) False by (cases bs) auto
    obtain chunks where "acc' = acc1 @ chunks" "length (concat chunks) = cl - (tot + length bs)"
      using less.hyps [OF lt r1(4) le] by blast
    then show ?thesis using le r1(3) by (intro exI [of _ "bs # chunks"]) (simp add: rec_sink_def)
  qed
qed

section \<open>Chunked transfer coding\<close>

lemma find_SomeI:
  assumes "needle \<noteq> []" and "i + length needle \<le> length hay"
    and "take (length needle) (drop i hay) = needle"
    and "\<And>j. j < i \<Longrightarrow> take (length needle) (drop j hay) \<noteq> needle"
  shows "find hay needle = Some i"
proof (cases "find hay needle")
  case None
  with find_None [OF None assms(1)] assms(3) show ?thesis by blast
next
  case (Some k)
  note k = find_Some [OF Some]
  have "k = i"
  proof (rule linorder_cases [of k i])
    assume "k < i" with assms(4) k show ?thesis by blast
  next
    assume "i < k" with k assms(3) show ?thesis by blast
  qed
  with Some show ?thesis by simp
qed

lemma find_append:
  assumes "find hay needle = Some i"
  shows "find (hay @ s) needle = Some i"
proof (rule find_SomeI)
  note i = find_Some [OF assms]
  show "needle \<noteq> []" "i + length needle \<le> length (hay @ s)" using i by simp_all
  show "take (length needle) (drop i (hay @ s)) = needle" using i by simp
  fix j assume j: "j < i"
  then have "take (length needle) (drop j (hay @ s)) = take (length needle) (drop j hay)" using i by simp
  with i j show "take (length needle) (drop j (hay @ s)) \<noteq> needle" by simp
qed

definition size_line :: "u8 list \<Rightarrow> nat \<Rightarrow> bool" where
  "size_line l n \<longleftrightarrow> chunk_size l = Some n \<and> find (l @ [13, 10]) [13, 10] = Some (length l)"

text \<open>The wire form of a chunked body and the payloads of its chunks.\<close>

inductive chunked :: "u8 list \<Rightarrow> u8 list list \<Rightarrow> bool" where
  chunked_last: "size_line l 0 \<Longrightarrow> chunked (l @ [13, 10]) []"
| chunked_more: "size_line l (length p) \<Longrightarrow> p \<noteq> [] \<Longrightarrow> chunked w ps \<Longrightarrow>
    chunked (l @ [13, 10] @ p @ [13, 10] @ w) (p # ps)"

lemma fill_crlf_finds:
  assumes "find (buf @ concat cs) [13, 10] = Some i" and "[] \<notin> set cs"
  shows "\<exists>buf' cs'. fill_crlf buf (map RData cs) = (Ok (i, buf'), map RData cs')
    \<and> buf' @ concat cs' = buf @ concat cs \<and> [] \<notin> set cs' \<and> i + 2 \<le> length buf'"
  using assms
proof (induction "length (concat cs)" arbitrary: buf cs rule: less_induct)
  case less
  show ?case
  proof (cases "find buf [13, 10]")
    case (Some k)
    with find_append [OF Some, of "concat cs"] less.prems find_Some [OF Some] show ?thesis
      by (subst fill_crlf.simps) auto
  next
    case None
    with less.prems obtain c cs' where cs: "cs = c # cs'" "c \<noteq> []" by (cases cs) auto
    define bs where "bs = take 16384 c"
    define ds where "ds = (if length c \<le> 16384 then cs' else drop 16384 c # cs')"
    have bs: "bs \<noteq> []" "bs @ concat ds = concat cs" "[] \<notin> set ds"
      using cs less.prems(2) by (auto simp: bs_def ds_def)
    have "length bs + length (concat ds) = length (concat cs)" using bs(2) by (metis length_append)
    with bs(1) have lt: "length (concat ds) < length (concat cs)" by (cases bs) auto
    have "find ((buf @ bs) @ concat ds) [13, 10] = Some i" using less.prems(1) bs(2) by simp
    from less.hyps [OF lt this bs(3)] bs(2)
    have "\<exists>buf' cs'. fill_crlf (buf @ bs) (map RData ds) = (Ok (i, buf'), map RData cs')
        \<and> buf' @ concat cs' = buf @ concat cs \<and> [] \<notin> set cs' \<and> i + 2 \<le> length buf'" by auto
    moreover have "fill_crlf buf (map RData cs) = fill_crlf (buf @ bs) (map RData ds)"
      using None cs bs(1) by (subst fill_crlf.simps) (simp add: bs_def ds_def)
    ultimately show ?thesis by simp
  qed
qed

lemma fill_to_fills:
  assumes "n \<le> length (buf @ concat cs)" and "[] \<notin> set cs"
  shows "\<exists>buf' cs'. fill_to n buf (map RData cs) = (Ok buf', map RData cs')
    \<and> buf' @ concat cs' = buf @ concat cs \<and> [] \<notin> set cs' \<and> n \<le> length buf'"
  using assms
proof (induction "length (concat cs)" arbitrary: buf cs rule: less_induct)
  case less
  show ?case
  proof (cases "n \<le> length buf")
    case True
    with less.prems show ?thesis by (subst fill_to.simps) auto
  next
    case False
    with less.prems obtain c cs' where cs: "cs = c # cs'" "c \<noteq> []" by (cases cs) auto
    define bs where "bs = take 16384 c"
    define ds where "ds = (if length c \<le> 16384 then cs' else drop 16384 c # cs')"
    have bs: "bs \<noteq> []" "bs @ concat ds = concat cs" "[] \<notin> set ds"
      using cs less.prems(2) by (auto simp: bs_def ds_def)
    have "length bs + length (concat ds) = length (concat cs)" using bs(2) by (metis length_append)
    with bs(1) have lt: "length (concat ds) < length (concat cs)" by (cases bs) auto
    have "n \<le> length ((buf @ bs) @ concat ds)" using less.prems(1) by (simp only: append_assoc bs(2))
    from less.hyps [OF lt this bs(3)] bs(2)
    have "\<exists>buf' cs'. fill_to n (buf @ bs) (map RData ds) = (Ok buf', map RData cs')
        \<and> buf' @ concat cs' = buf @ concat cs \<and> [] \<notin> set cs' \<and> n \<le> length buf'" by auto
    moreover have "fill_to n buf (map RData cs) = fill_to n (buf @ bs) (map RData ds)"
      using False cs bs(1) by (subst fill_to.simps) (simp add: bs_def ds_def)
    ultimately show ?thesis by simp
  qed
qed

lemma size_line_find: "size_line l n \<Longrightarrow> find (l @ [13, 10] @ rest) [13, 10] = Some (length l)"
  using find_append [of "l @ [13, 10]" "[13, 10]" "length l" rest] by (simp add: size_line_def)

lemma chunk_loop_last:
  assumes "size_line l 0" and "buf @ concat cs = l @ [13, 10] @ rest" and "[] \<notin> set cs"
  shows "\<exists>r'. chunk_loop rec_sink tot buf acc (map RData cs) = (Ok (), acc, r')"
proof -
  obtain buf' cs' where f: "fill_crlf buf (map RData cs) = (Ok (length l, buf'), map RData cs')"
      "buf' @ concat cs' = l @ [13, 10] @ rest" "length l + 2 \<le> length buf'"
    using fill_crlf_finds [of buf cs "length l"] size_line_find [OF assms(1)] assms(2,3) by metis
  have "take (length l) buf' = l"
    using f(2,3) by (metis append_eq_conv_conj take_append diff_is_0_eq add_leD1 take_eq_Nil append_Nil2)
  with f assms(1) show ?thesis by (subst chunk_loop.simps) (simp add: size_line_def)
qed

lemma chunk_loop_more:
  assumes "size_line l (length p)" and "p \<noteq> []" and "buf @ concat cs = l @ [13, 10] @ p @ [13, 10] @ w"
    and "[] \<notin> set cs" and "tot + length p \<le> MAX_RESP"
  shows "\<exists>buf' cs'. chunk_loop rec_sink tot buf acc (map RData cs)
      = chunk_loop rec_sink (tot + length p) buf' (acc @ [p]) (map RData cs')
    \<and> buf' @ concat cs' = w \<and> [] \<notin> set cs'"
proof -
  obtain b1 c1 where f1: "fill_crlf buf (map RData cs) = (Ok (length l, b1), map RData c1)"
      "b1 @ concat c1 = l @ [13, 10] @ p @ [13, 10] @ w" "length l + 2 \<le> length b1" "[] \<notin> set c1"
    using fill_crlf_finds [of buf cs "length l"] size_line_find [OF assms(1)] assms(3,4) by metis
  have tk: "take (length l) b1 = l"
    using f1(2,3) by (metis append_eq_conv_conj take_append diff_is_0_eq add_leD1 take_eq_Nil append_Nil2)
  have dr: "drop (length l + 2) b1 @ concat c1 = p @ [13, 10] @ w"
  proof -
    have "drop (length l + 2) b1 @ concat c1 = drop (length l + 2) (b1 @ concat c1)" using f1(3) by simp
    then show ?thesis by (simp add: f1(2))
  qed
  then obtain b2 c2 where f2: "fill_to (length p + 2) (drop (length l + 2) b1) (map RData c1) = (Ok b2, map RData c2)"
      "b2 @ concat c2 = p @ [13, 10] @ w" "[] \<notin> set c2" "length p + 2 \<le> length b2"
    using fill_to_fills [of "length p + 2" "drop (length l + 2) b1" c1] f1(4) by auto
  then have "take (length p) b2 = p"
    by (metis append_eq_conv_conj take_append diff_is_0_eq add_leD1 take_eq_Nil append_Nil2)
  moreover have d2: "drop (length p) b2 @ concat c2 = [13, 10] @ w"
  proof -
    have "drop (length p) b2 @ concat c2 = drop (length p) (b2 @ concat c2)" using f2(4) by simp
    then show ?thesis by (simp add: f2(2))
  qed
  moreover obtain b3 where b3: "drop (length p) b2 = [13, 10] @ b3" "b3 @ concat c2 = w"
  proof -
    have "2 \<le> length (drop (length p) b2)" using f2(4) by simp
    then obtain x y b where b: "drop (length p) b2 = x # y # b"
      by (cases "drop (length p) b2"; cases "tl (drop (length p) b2)") auto
    with d2 show ?thesis by (intro that [of b]) auto
  qed
  moreover have small: "(tot + length p) mod 2 ^ 64 = tot + length p" "(length p + 2) mod 2 ^ 64 = length p + 2"
    using assms(5) by (simp_all add: MAX_RESP_def)
  moreover have "min (length p) (length b2) = length p" using f2(4) by simp
  ultimately have "chunk_loop rec_sink tot buf acc (map RData cs)
      = chunk_loop rec_sink (tot + length p) b3 (acc @ [p]) (map RData c2)"
    using f1(1) f2(1) assms(1,2,5)
    by (subst chunk_loop.simps) (simp add: size_line_def tk rec_sink_def Let_def)
  with b3(2) f2(3) show ?thesis by blast
qed

lemma chunk_loop_chunked:
  "chunked w ps \<Longrightarrow> buf @ concat cs = w @ rest \<Longrightarrow> [] \<notin> set cs \<Longrightarrow> tot + length (concat ps) \<le> MAX_RESP \<Longrightarrow>
    \<exists>r'. chunk_loop rec_sink tot buf acc (map RData cs) = (Ok (), acc @ ps, r')"
proof (induction arbitrary: buf cs tot acc rule: chunked.induct)
  case (chunked_last l)
  then show ?case using chunk_loop_last by simp
next
  case (chunked_more l p w ps)
  obtain buf' cs' where "chunk_loop rec_sink tot buf acc (map RData cs)
      = chunk_loop rec_sink (tot + length p) buf' (acc @ [p]) (map RData cs')"
      "buf' @ concat cs' = w @ rest" "[] \<notin> set cs'"
    using chunk_loop_more [OF chunked_more(1,2), of buf cs "w @ rest" tot acc] chunked_more(5-7) by auto
  with chunked_more(4) [of buf' cs' "tot + length p" "acc @ [p]"] chunked_more(7) show ?case by simp
qed

text \<open>A body that breaks off.\<close>

lemma find_shorter: "find (hay @ s) needle = None \<Longrightarrow> find hay needle = None"
  using find_append by (metis option.exhaust option.distinct(1))

lemma find_cut:
  assumes "find (u @ v) needle = Some i" and "length u < i + length needle"
  shows "find u needle = None"
proof (rule ccontr)
  assume "find u needle \<noteq> None"
  then obtain k where k: "find u needle = Some k" by blast
  with find_append [OF k, of v] assms(1) have "k = i" by simp
  with find_Some [OF k] assms(2) show False by simp
qed

lemma fill_crlf_eof:
  assumes "find (buf @ concat cs) [13, 10] = None" and "[] \<notin> set cs"
  shows "fill_crlf buf (map RData cs) = (Err ChunkedEof, [])"
  using assms
proof (induction "length (concat cs)" arbitrary: buf cs rule: less_induct)
  case less
  note none = find_shorter [OF less.prems(1)]
  show ?case
  proof (cases cs)
    case Nil
    with none show ?thesis by (subst fill_crlf.simps) simp
  next
    case (Cons c cs')
    with less.prems have c: "c \<noteq> []" by auto
    define bs where "bs = take 16384 c"
    define ds where "ds = (if length c \<le> 16384 then cs' else drop 16384 c # cs')"
    have bs: "bs \<noteq> []" "bs @ concat ds = concat cs" "[] \<notin> set ds"
      using Cons c less.prems(2) by (auto simp: bs_def ds_def)
    have "length bs + length (concat ds) = length (concat cs)" using bs(2) by (metis length_append)
    with bs(1) have lt: "length (concat ds) < length (concat cs)" by (cases bs) auto
    have "find ((buf @ bs) @ concat ds) [13, 10] = None" using less.prems(1) bs(2) by simp
    from less.hyps [OF lt this bs(3)] none Cons bs(1) show ?thesis
      by (subst fill_crlf.simps) (auto simp: bs_def ds_def)
  qed
qed

lemma fill_to_eof:
  assumes "length (buf @ concat cs) < n" and "[] \<notin> set cs"
  shows "fill_to n buf (map RData cs) = (Ok (buf @ concat cs), [])"
  using assms
proof (induction "length (concat cs)" arbitrary: buf cs rule: less_induct)
  case less
  show ?case
  proof (cases cs)
    case Nil
    with less.prems show ?thesis by (subst fill_to.simps) simp
  next
    case (Cons c cs')
    with less.prems have c: "c \<noteq> []" "\<not> n \<le> length buf" by auto
    define bs where "bs = take 16384 c"
    define ds where "ds = (if length c \<le> 16384 then cs' else drop 16384 c # cs')"
    have bs: "bs \<noteq> []" "bs @ concat ds = concat cs" "[] \<notin> set ds"
      using Cons c less.prems(2) by (auto simp: bs_def ds_def)
    have "length bs + length (concat ds) = length (concat cs)" using bs(2) by (metis length_append)
    with bs(1) have lt: "length (concat ds) < length (concat cs)" by (cases bs) auto
    have "length ((buf @ bs) @ concat ds) < n" using less.prems(1) by (simp only: append_assoc bs(2))
    moreover have "fill_to n buf (map RData cs) = fill_to n (buf @ bs) (map RData ds)"
      using c Cons bs(1) by (subst fill_to.simps) (simp add: bs_def ds_def)
    ultimately show ?thesis using less.hyps [OF lt _ bs(3), of "buf @ bs"] bs(2) by simp
  qed
qed

lemma chunk_loop_no_line:
  "find (buf @ concat cs) [13, 10] = None \<Longrightarrow> [] \<notin> set cs \<Longrightarrow>
    chunk_loop sink tot buf st (map RData cs) = (Err ChunkedEof, st, [])"
  by (subst chunk_loop.simps) (simp add: fill_crlf_eof)

lemma chunk_loop_short:
  assumes "size_line l (length p)" and "p \<noteq> []" and "tot + length p \<le> MAX_RESP"
    and "buf @ concat cs = l @ [13, 10] @ d" and "[] \<notin> set cs"
    and "length d < length p + 2" and "p @ [13, 10] @ w = d @ v"
  shows "\<exists>r'. chunk_loop rec_sink tot buf acc (map RData cs) = (Err ChunkedEof, acc @ [take (length p) d], r')"
proof -
  obtain b1 c1 where f1: "fill_crlf buf (map RData cs) = (Ok (length l, b1), map RData c1)"
      "b1 @ concat c1 = l @ [13, 10] @ d" "length l + 2 \<le> length b1" "[] \<notin> set c1"
    using fill_crlf_finds [of buf cs "length l"] size_line_find [OF assms(1)] assms(4,5) by metis
  have tk: "take (length l) b1 = l"
    using f1(2,3) by (metis append_eq_conv_conj take_append diff_is_0_eq add_leD1 take_eq_Nil append_Nil2)
  have dr: "drop (length l + 2) b1 @ concat c1 = d"
  proof -
    have "drop (length l + 2) b1 @ concat c1 = drop (length l + 2) (b1 @ concat c1)" using f1(3) by simp
    then show ?thesis by (simp add: f1(2))
  qed
  have f2: "fill_to (length p + 2) (drop (length l + 2) b1) (map RData c1) = (Ok d, [])"
    using fill_to_eof [of "drop (length l + 2) b1" c1 "length p + 2", unfolded dr, OF assms(6) f1(4)] .
  define rest where "rest = drop (length p) d"
  have "length rest < 2" using assms(6) by (simp add: rest_def)
  moreover have "length rest = length d - length p" by (simp add: rest_def)
  ultimately have "rest = [] \<or> (\<exists>x. rest = [x])" by (cases rest; cases "tl rest") auto
  then have rest: "take 2 rest \<noteq> [13, 10]" "find rest [13, 10] = None" by (auto simp: find_def)
  have small: "(tot + length p) mod 2 ^ 64 = tot + length p" "(length p + 2) mod 2 ^ 64 = length p + 2"
    using assms(3) by (simp_all add: MAX_RESP_def)
  have n: "take (min (length p) (length d)) d = take (length p) d" "drop (min (length p) (length d)) d = rest"
    by (simp_all add: min_def rest_def)
  have "chunk_loop rec_sink tot buf acc (map RData cs)
      = chunk_loop rec_sink (tot + length p) rest (acc @ [take (length p) d]) []"
    using f1(1) f2 assms(1-3) small rest(1) n
    by (subst chunk_loop.simps) (simp add: size_line_def tk rec_sink_simp Let_def)
  with chunk_loop_no_line [of rest "[]" rec_sink] rest(2) show ?thesis by simp
qed

lemma split_prefix:
  assumes "a @ b = u @ v" and "length a \<le> length u"
  obtains d where "u = a @ d" "b = d @ v"
  using assms by (auto simp: append_eq_append_conv2)

text \<open>A strict initial part of a chunked body is never taken for a complete one.\<close>

lemma chunk_loop_truncated:
  "chunked w ps \<Longrightarrow> w = u @ v \<Longrightarrow> v \<noteq> [] \<Longrightarrow> buf @ concat cs = u \<Longrightarrow> [] \<notin> set cs \<Longrightarrow>
    tot + length (concat ps) \<le> MAX_RESP \<Longrightarrow>
    \<exists>qs r'. chunk_loop rec_sink tot buf acc (map RData cs) = (Err ChunkedEof, acc @ qs, r')
      \<and> prefix (concat qs) (concat ps)"
proof (induction arbitrary: u buf cs tot acc rule: chunked.induct)
  case (chunked_last l)
  have "length u < length l + 2"
    using arg_cong [OF chunked_last(2), of length] chunked_last(3) by (cases v) auto
  then have "find u [13, 10] = None"
    using chunked_last(1,2) by (intro find_cut [of u v _ "length l"]) (simp_all add: size_line_def)
  with chunk_loop_no_line [of buf cs rec_sink] chunked_last(4,5) show ?case by (intro exI [of _ "[]"]) simp
next
  case (chunked_more l p w ps)
  have fnd: "find (u @ v) [13, 10] = Some (length l)"
    using size_line_find [OF chunked_more(1), of "p @ [13, 10] @ w"] chunked_more(5) by simp
  have len: "tot + length p \<le> MAX_RESP" using chunked_more(9) by simp
  consider (line) "length u < length l + 2"
    | (payload) "length l + 2 \<le> length u" "length u < length l + 2 + length p + 2"
    | (more) "length l + 2 + length p + 2 \<le> length u" by linarith
  then show ?case
  proof cases
    case line
    with find_cut [OF fnd] have "find u [13, 10] = None" by simp
    with chunk_loop_no_line [of buf cs rec_sink] chunked_more(7,8) show ?thesis by (intro exI [of _ "[]"]) simp
  next
    case payload
    then obtain d where d: "u = l @ [13, 10] @ d" "p @ [13, 10] @ w = d @ v"
      using split_prefix [of "l @ [13, 10]" "p @ [13, 10] @ w" u v] chunked_more(5) by auto
    with payload have "length d < length p + 2" by simp
    then obtain r' where "chunk_loop rec_sink tot buf acc (map RData cs)
        = (Err ChunkedEof, acc @ [take (length p) d], r')"
      using chunk_loop_short [OF chunked_more(1,2) len _ chunked_more(8) _ d(2)] chunked_more(7) d(1) by blast
    moreover have "prefix (take (length p) d) p"
    proof -
      have "take (length p) (d @ v) = p" by (simp add: d(2) [symmetric])
      then have "p = take (length p) d @ take (length p - length d) v" by simp
      then show ?thesis by (rule prefixI)
    qed
    ultimately show ?thesis
      by (intro exI [of _ "[take (length p) d]"] exI [of _ r']) (simp add: prefix_prefix)
  next
    case more
    then obtain u' where u': "u = l @ [13, 10] @ p @ [13, 10] @ u'" "w = u' @ v"
      using split_prefix [of "l @ [13, 10] @ p @ [13, 10]" w u v] chunked_more(5) by auto
    obtain buf' cs' where step: "chunk_loop rec_sink tot buf acc (map RData cs)
        = chunk_loop rec_sink (tot + length p) buf' (acc @ [p]) (map RData cs')"
        "buf' @ concat cs' = u'" "[] \<notin> set cs'"
      using chunk_loop_more [OF chunked_more(1,2) _ chunked_more(8) len, of buf u' acc] chunked_more(7) u'(1) by auto
    obtain qs r' where "chunk_loop rec_sink (tot + length p) buf' (acc @ [p]) (map RData cs')
        = (Err ChunkedEof, (acc @ [p]) @ qs, r')" "prefix (concat qs) (concat ps)"
      using chunked_more(4) [OF u'(2) chunked_more(6) step(2,3), of "tot + length p" "acc @ [p]"] chunked_more(9)
      by auto
    with step(1) show ?thesis by (intro exI [of _ "p # qs"] exI [of _ r']) simp
  qed
qed

end
