(* ===== verification/Http_Sinks.thy ===== *)
theory Http_Sinks
  imports Http_Props
begin

text \<open>
  The body loops work for every sink: what they do to the state of a sink is what feeding the sink
  with the recorded pieces does.  The results on the recording sink of \<open>Http_Props\<close> therefore
  hold for the sinks the program uses.  The second part states the properties of the body loops.
\<close>

section \<open>Any sink sees what the recording sink sees\<close>

text \<open>Calling a sink on a list of pieces, up to the first error.\<close>

fun feed :: "'st sink \<Rightarrow> u8 list list \<Rightarrow> 'st \<Rightarrow> (enclave_error + unit) \<times> 'st" where
  "feed sink [] st = (Ok (), st)"
| "feed sink (c # cs) st =
     (case sink c st of
        (Inl e, st') \<Rightarrow> (Err e, st')
      | (Inr _, st') \<Rightarrow> feed sink cs st')"

definition fed ::
  "u8 list list \<Rightarrow> enclave_error + unit \<Rightarrow> reader \<Rightarrow> 'st sink \<Rightarrow> 'st \<Rightarrow> (enclave_error + unit) \<times> 'st \<times> reader \<Rightarrow> bool" where
  "fed chunks res r sink st out \<longleftrightarrow>
     (case feed sink chunks st of
        (Inl e, st') \<Rightarrow> fst out = Err e \<and> fst (snd out) = st'
      | (Inr _, st') \<Rightarrow> out = (res, st', r))"

lemma fed_Nil [simp]: "fed [] res r sink st out \<longleftrightarrow> out = (res, st, r)"
  by (simp add: fed_def)

lemma fed_Cons:
  "fed (c # cs) res r sink st out \<longleftrightarrow>
     (case sink c st of
        (Inl e, st') \<Rightarrow> fst out = Err e \<and> fst (snd out) = st'
      | (Inr _, st') \<Rightarrow> fed cs res r sink st' out)"
  by (simp add: fed_def split: sum.splits prod.splits)

lemma fed_Ok:
  assumes "fed chunks res r sink st out"
  shows "out = (Inr u, st', r') \<longleftrightarrow> res = Inr u \<and> r = r' \<and> feed sink chunks st = (Inr (), st')"
proof (cases "feed sink chunks st")
  case (Pair a b)
  then show ?thesis using assms by (cases a; cases out) (auto simp: fed_def)
qed

lemma feed_rec_sink: "feed rec_sink chunks acc = (Ok (), acc @ chunks)"
  by (induction chunks arbitrary: acc) (simp_all add: rec_sink_simp)

lemma plain_length_loop_data:
  "\<not> cl \<le> tot \<Longrightarrow> read r (min (cl - tot) 16384) = (Inr bs, r1) \<Longrightarrow> bs \<noteq> [] \<Longrightarrow>
    plain_length_loop cl sink tot st r = (case sink bs st of
      (Inl e, st') \<Rightarrow> (Err e, st', r1) | (Inr _, st') \<Rightarrow> plain_length_loop cl sink (tot + length bs) st' r1)"
  by (subst plain_length_loop.simps) simp

lemma plain_length_loop_feed:
  "\<exists>chunks res r'. plain_length_loop cl rec_sink tot acc r = (res, acc @ chunks, r')
     \<and> (\<forall>(sink :: 'st sink) st. fed chunks res r' sink st (plain_length_loop cl sink tot st r))"
proof (induction "cl - tot" arbitrary: tot acc r rule: less_induct)
  case less
  obtain rd r1 where rd: "read r (min (cl - tot) 16384) = (rd, r1)" by fastforce
  consider "cl \<le> tot" | e where "\<not> cl \<le> tot" "rd = Inl e" | "\<not> cl \<le> tot" "rd = Inr []"
    | bs where "\<not> cl \<le> tot" "rd = Inr bs" "bs \<noteq> []"
    by (cases rd) auto
  then show ?case
  proof cases
    case (4 bs)
    note step = plain_length_loop_data [OF 4(1) rd [unfolded 4(2)] 4(3)]
    have "cl - (tot + length bs) < cl - tot" using 4 by (cases bs) auto
    from less.hyps [OF this, of "acc @ [bs]" r1]
    obtain chunks res r' where IH: "plain_length_loop cl rec_sink (tot + length bs) (acc @ [bs]) r1
          = (res, acc @ bs # chunks, r')"
        "\<And>sink st. fed chunks res r' (sink :: 'st sink) st (plain_length_loop cl sink (tot + length bs) st r1)"
      by auto
    then show ?thesis
      by (intro exI [of _ "bs # chunks"] exI [of _ res] exI [of _ r'])
        (auto simp: step rec_sink_simp fed_Cons split: sum.split prod.split)
  qed (use rd in \<open>subst plain_length_loop.simps, subst plain_length_loop.simps, simp\<close>)+
qed

lemma plain_eof_loop_data:
  "read r 16384 = (Inr bs, r1) \<Longrightarrow> bs \<noteq> [] \<Longrightarrow> tot + length bs \<le> MAX_RESP \<Longrightarrow>
    plain_eof_loop sink tot st r = (case sink bs st of
      (Inl e, st') \<Rightarrow> (Err e, st', r1) | (Inr _, st') \<Rightarrow> plain_eof_loop sink (tot + length bs) st' r1)"
  by (subst plain_eof_loop.simps) simp

lemma plain_eof_loop_feed:
  "\<exists>chunks res r'. plain_eof_loop rec_sink tot acc r = (res, acc @ chunks, r')
     \<and> (\<forall>(sink :: 'st sink) st. fed chunks res r' sink st (plain_eof_loop sink tot st r))"
proof (induction "Suc MAX_RESP - tot" arbitrary: tot acc r rule: less_induct)
  case less
  obtain rd r1 where rd: "read r 16384 = (rd, r1)" by fastforce
  consider e where "rd = Inl e" | "rd = Inr []" | bs where "rd = Inr bs" "bs \<noteq> []" "MAX_RESP < tot + length bs"
    | bs where "rd = Inr bs" "bs \<noteq> []" "tot + length bs \<le> MAX_RESP"
    by (metis not_le sum.exhaust)
  then show ?case
  proof cases
    case (4 bs)
    note step = plain_eof_loop_data [OF rd [unfolded 4(1)] 4(2,3)]
    have "Suc MAX_RESP - (tot + length bs) < Suc MAX_RESP - tot" using 4 by (cases bs) auto
    from less.hyps [OF this, of "acc @ [bs]" r1]
    obtain chunks res r' where IH: "plain_eof_loop rec_sink (tot + length bs) (acc @ [bs]) r1
          = (res, acc @ bs # chunks, r')"
        "\<And>sink st. fed chunks res r' (sink :: 'st sink) st (plain_eof_loop sink (tot + length bs) st r1)"
      by auto
    then show ?thesis
      by (intro exI [of _ "bs # chunks"] exI [of _ res] exI [of _ r'])
        (auto simp: step rec_sink_simp fed_Cons split: sum.split prod.split)
  qed (use rd in \<open>subst plain_eof_loop.simps, subst plain_eof_loop.simps, simp\<close>)+
qed

text \<open>One round of the chunked loop, up to the sink.\<close>

datatype round_result =
    Stop "enclave_error + unit" reader
  | Piece "u8 list" "u8 list" nat reader

definition chunk_round :: "nat \<Rightarrow> u8 list \<Rightarrow> reader \<Rightarrow> round_result" where
  "chunk_round tot buf r =
     (case fill_crlf buf r of
        (Inl e, r) \<Rightarrow> Stop (Err e) r
      | (Inr (p, buf), r) \<Rightarrow>
          (case chunk_size (take p buf) of
             None \<Rightarrow> Stop (Err ChunkSize) r
           | Some sz \<Rightarrow>
               if sz = 0 then Stop (Ok ()) r
               else if MAX_RESP < (tot + sz) mod 2 ^ 64 then Stop (Err RespTooLarge) r
               else
                 (case fill_to ((sz + 2) mod 2 ^ 64) (drop (p + 2) buf) r of
                    (Inl e, r) \<Rightarrow> Stop (Err e) r
                  | (Inr buf, r) \<Rightarrow>
                      let n = min sz (length buf); rest = drop n buf
                      in Piece (take n buf) (if take 2 rest = [13, 10] then drop 2 rest else rest)
                           ((tot + sz) mod 2 ^ 64) r)))"

lemma chunk_loop_round:
  "chunk_loop sink tot buf st r =
     (case chunk_round tot buf r of
        Stop res r \<Rightarrow> (res, st, r)
      | Piece bs buf tot r \<Rightarrow>
          (case sink bs st of
             (Inl e, st) \<Rightarrow> (Err e, st, r)
           | (Inr _, st) \<Rightarrow> chunk_loop sink tot buf st r))"
  by (subst chunk_loop.simps)
    (simp add: chunk_round_def Let_def split: sum.split prod.split option.split)

lemma chunk_round_smaller:
  "chunk_round tot buf r = Piece bs buf' tot' r' \<Longrightarrow> length buf' + script_size r' < length buf + script_size r"
  by (auto simp: chunk_round_def Let_def split: sum.splits prod.splits option.splits if_splits
      dest!: fill_crlf_size fill_to_size)

lemma chunk_loop_feed:
  "\<exists>chunks res r'. chunk_loop rec_sink tot buf acc r = (res, acc @ chunks, r')
     \<and> (\<forall>(sink :: 'st sink) st. fed chunks res r' sink st (chunk_loop sink tot buf st r))"
proof (induction "length buf + script_size r" arbitrary: tot buf acc r rule: less_induct)
  case less
  note step = chunk_loop_round [of _ tot buf _ r]
  show ?case
  proof (cases "chunk_round tot buf r")
    case (Stop res r')
    then show ?thesis by (intro exI [of _ "[]"]) (simp add: step)
  next
    case (Piece bs buf' tot' r1)
    from less.hyps [OF chunk_round_smaller [OF Piece], of tot' "acc @ [bs]"]
    obtain chunks res r' where IH: "chunk_loop rec_sink tot' buf' (acc @ [bs]) r1 = (res, acc @ bs # chunks, r')"
        "\<And>sink st. fed chunks res r' (sink :: 'st sink) st (chunk_loop sink tot' buf' st r1)"
      by auto
    then show ?thesis
      by (intro exI [of _ "bs # chunks"] exI [of _ res] exI [of _ r'])
        (auto simp: step Piece rec_sink_simp fed_Cons split: sum.split prod.split)
  qed
qed

lemma stream_plain_feed:
  "\<exists>chunks res r'. stream_plain initial r content_length rec_sink [] = (res, chunks, r')
     \<and> (\<forall>(sink :: 'st sink) st. fed chunks res r' sink st (stream_plain initial r content_length sink st))"
proof (cases content_length)
  case None
  consider "initial = []" | "initial \<noteq> []" "MAX_RESP < length initial" | "initial \<noteq> []" "\<not> MAX_RESP < length initial"
    by blast
  then show ?thesis
  proof cases
    case 1
    with None plain_eof_loop_feed [of 0 "[]" r, where 'st = 'st] show ?thesis by (simp add: stream_plain_def)
  next
    case 2
    with None show ?thesis by (intro exI [of _ "[]"]) (simp add: stream_plain_def)
  next
    case 3
    obtain chunks res r' where "plain_eof_loop rec_sink (length initial) [initial] r = (res, initial # chunks, r')"
        "\<And>sink st. fed chunks res r' (sink :: 'st sink) st (plain_eof_loop sink (length initial) st r)"
      using plain_eof_loop_feed [of "length initial" "[initial]" r, where 'st = 'st] by auto
    with 3 None show ?thesis
      by (intro exI [of _ "initial # chunks"] exI [of _ res] exI [of _ r'])
        (auto simp: stream_plain_def rec_sink_simp fed_Cons split: sum.split prod.split)
  qed
next
  case (Some cl)
  define n where "n = min (length initial) cl"
  consider "MAX_RESP < cl" | "\<not> MAX_RESP < cl" "n = 0" | "\<not> MAX_RESP < cl" "0 < n" by blast
  then show ?thesis
  proof cases
    case 1
    with Some show ?thesis by (intro exI [of _ "[]"]) (simp add: stream_plain_def)
  next
    case 2
    with Some plain_length_loop_feed [of cl 0 "[]" r, where 'st = 'st] show ?thesis
      by (simp add: stream_plain_def Let_def n_def [symmetric])
  next
    case 3
    obtain chunks res r' where "plain_length_loop cl rec_sink n [take n initial] r = (res, take n initial # chunks, r')"
        "\<And>sink st. fed chunks res r' (sink :: 'st sink) st (plain_length_loop cl sink n st r)"
      using plain_length_loop_feed [of cl n "[take n initial]" r, where 'st = 'st] by auto
    with 3 Some show ?thesis
      by (intro exI [of _ "take n initial # chunks"] exI [of _ res] exI [of _ r'])
        (auto simp: stream_plain_def Let_def n_def [symmetric] rec_sink_simp fed_Cons split: sum.split prod.split)
  qed
qed

lemma stream_chunked_feed:
  "\<exists>chunks res r'. stream_chunked buf r rec_sink [] = (res, chunks, r')
     \<and> (\<forall>(sink :: 'st sink) st. fed chunks res r' sink st (stream_chunked buf r sink st))"
  using chunk_loop_feed [of 0 buf "[]" r, where 'st = 'st] by (simp add: stream_chunked_def)

lemma stream_plain_Ok:
  fixes sink :: "'st sink"
  shows "stream_plain initial r content_length sink st = (Inr u, st', r') \<longleftrightarrow>
     (\<exists>chunks. stream_plain initial r content_length rec_sink [] = (Inr u, chunks, r')
        \<and> feed sink chunks st = (Inr (), st'))"
proof -
  obtain chunks res r1 where c: "stream_plain initial r content_length rec_sink [] = (res, chunks, r1)"
      "fed chunks res r1 sink st (stream_plain initial r content_length sink st)"
    using stream_plain_feed [of initial r content_length, where 'st = 'st] by auto
  show ?thesis by (simp add: fed_Ok [OF c(2)] c(1))
qed

lemma stream_chunked_Ok:
  fixes sink :: "'st sink"
  shows "stream_chunked buf r sink st = (Inr u, st', r') \<longleftrightarrow>
     (\<exists>chunks. stream_chunked buf r rec_sink [] = (Inr u, chunks, r') \<and> feed sink chunks st = (Inr (), st'))"
proof -
  obtain chunks res r1 where c: "stream_chunked buf r rec_sink [] = (res, chunks, r1)"
      "fed chunks res r1 sink st (stream_chunked buf r sink st)"
    using stream_chunked_feed [of buf r, where 'st = 'st] by auto
  show ?thesis by (simp add: fed_Ok [OF c(2)] c(1))
qed

section \<open>Response heads\<close>

lemma read_head_loop_finds:
  assumes "find (buf @ concat cs) head_end = Some pos" and "pos + 4 \<le> MAX_HEAD" and "[] \<notin> set cs"
  shows "\<exists>left cs'. read_head_loop buf (map RData cs) = (Ok (take pos (buf @ concat cs), left), map RData cs')
    \<and> left @ concat cs' = drop (pos + 4) (buf @ concat cs) \<and> [] \<notin> set cs'"
  using assms
proof (induction "length (concat cs)" arbitrary: buf cs rule: less_induct)
  case less
  show ?case
  proof (cases "find buf head_end")
    case (Some k)
    with find_append [OF Some, of "concat cs"] less.prems find_Some [OF Some] show ?thesis
      by (subst read_head_loop.simps) (auto simp: head_end_def)
  next
    case None
    with less.prems obtain c cs' where cs: "cs = c # cs'" "c \<noteq> []" by (cases cs) auto
    have len: "length buf < pos + 4"
    proof (rule ccontr)
      assume "\<not> length buf < pos + 4"
      with find_Some [OF less.prems(1)] have "take (length head_end) (drop pos buf) = head_end"
        by (simp add: head_end_def)
      with find_None [OF None, of pos] show False by (simp add: head_end_def)
    qed
    define bs where "bs = take 4096 c"
    define ds where "ds = (if length c \<le> 4096 then cs' else drop 4096 c # cs')"
    have bs: "bs \<noteq> []" "bs @ concat ds = concat cs" "[] \<notin> set ds"
      using cs less.prems(3) by (auto simp: bs_def ds_def)
    have "length bs + length (concat ds) = length (concat cs)" using bs(2) by (metis length_append)
    with bs(1) have lt: "length (concat ds) < length (concat cs)" by (cases bs) auto
    have "find ((buf @ bs) @ concat ds) head_end = Some pos" using less.prems(1) bs(2) by simp
    from less.hyps [OF lt this less.prems(2) bs(3)]
    have "\<exists>left cs'. read_head_loop (buf @ bs) (map RData ds) = (Ok (take pos (buf @ concat cs), left), map RData cs')
        \<and> left @ concat cs' = drop (pos + 4) (buf @ concat cs) \<and> [] \<notin> set cs'"
      by (simp only: append_assoc bs(2))
    moreover have "read_head_loop buf (map RData cs) = read_head_loop (buf @ bs) (map RData ds)"
      using None cs bs(1) len less.prems(2) by (subst read_head_loop.simps) (simp add: bs_def ds_def)
    ultimately show ?thesis by simp
  qed
qed

text \<open>
  The response head is found however the connection delivers it.  When the first blank line of the
  bytes ends within the limit, the head is exactly the bytes before it and nothing of the body is lost:
  what is left over and what is still to be read make up the rest.
\<close>

theorem read_until_headers_splits:
  assumes "find (concat cs) head_end = Some pos" and "pos + 4 \<le> MAX_HEAD" and "[] \<notin> set cs"
  shows "\<exists>left cs'. read_until_headers (map RData cs) = (Ok (take pos (concat cs), left), map RData cs')
    \<and> left @ concat cs' = drop (pos + 4) (concat cs) \<and> [] \<notin> set cs'"
  using read_head_loop_finds [of "[]" cs pos] assms by (simp add: read_until_headers_def)

theorem read_until_headers_splits_witness:
  "\<exists>left cs'. read_until_headers (map RData [[72, 13, 10], [13], [10, 65]]) = (Ok ([72], left), map RData cs')
    \<and> left @ concat cs' = [65] \<and> [] \<notin> set cs'"
proof -
  have "find (concat [[72, 13, 10], [13], [10, 65 :: u8]]) head_end = Some 1" by code_simp
  from read_until_headers_splits [OF this] show ?thesis by (simp add: MAX_HEAD_def)
qed

section \<open>Bodies of known length\<close>

lemma stream_plain_initial:
  "cl \<le> MAX_RESP \<Longrightarrow> \<exists>pre. stream_plain initial r (Some cl) rec_sink []
      = plain_length_loop cl rec_sink (min (length initial) cl) pre r \<and> concat pre = take cl initial"
proof (cases "min (length initial) cl = 0")
  case True
  then have "take cl initial = []" by (auto simp: min_def split: if_splits)
  moreover assume "cl \<le> MAX_RESP"
  ultimately show ?thesis using True by (intro exI [of _ "[]"]) (simp add: stream_plain_def)
next
  case False
  moreover have "take (min (length initial) cl) initial = take cl initial" by (simp add: min_def)
  moreover assume "cl \<le> MAX_RESP"
  ultimately show ?thesis
    by (intro exI [of _ "[take cl initial]"]) (simp add: stream_plain_def Let_def rec_sink_simp)
qed

text \<open>
  C30: A response with a content length is forwarded completely and nothing after it, in order, however
  the connection delivers it; when the connection ends early, what came is forwarded and the exchange
  fails with the number of bytes received, so that no statement is signed over a truncated body.
\<close>

theorem stream_plain_content_length:
  assumes "[] \<notin> set cs" and "cl \<le> MAX_RESP"
  shows "\<exists>chunks r'. stream_plain initial (map RData cs) (Some cl) rec_sink []
      = (if cl \<le> length (initial @ concat cs) then Ok ()
         else Err (ContentLengthEof (length (initial @ concat cs)) cl), chunks, r')
    \<and> concat chunks = take cl (initial @ concat cs)"
proof -
  define n where "n = min (length initial) cl"
  obtain pre where pre: "stream_plain initial (map RData cs) (Some cl) rec_sink []
      = plain_length_loop cl rec_sink n pre (map RData cs)" "concat pre = take cl initial"
    using stream_plain_initial [OF assms(2)] unfolding n_def by blast
  have n: "n \<le> cl" "take cl initial @ take (cl - n) (concat cs) = take cl (initial @ concat cs)"
    by (auto simp: n_def min_def)
  show ?thesis
  proof (cases "cl \<le> length (initial @ concat cs)")
    case True
    then have "cl - n \<le> length (concat cs)" by (simp add: n_def)
    from plain_length_loop_ok [OF assms(1) n(1) this, of pre] pre True n(2) show ?thesis by force
  next
    case False
    then have "length (concat cs) < cl - n" "n = length initial" "cl - n \<ge> length (concat cs)"
      by (simp_all add: n_def)
    with plain_length_loop_short [OF assms(1) n(1), of pre] pre False n(2) show ?thesis by force
  qed
qed

theorem stream_plain_content_length_witness:
  "\<exists>chunks r'. stream_plain [65] (map RData [[66], [67, 68]]) (Some 3) rec_sink [] = (Ok (), chunks, r')
    \<and> concat chunks = [65, 66, 67]"
  using stream_plain_content_length [of "[[66], [67, 68]]" 3 "[65]"] by (simp add: MAX_RESP_def)

text \<open>
  For every reader and every sink, success of a body with content length means that the sink was
  given exactly that many bytes.
\<close>

theorem stream_plain_exact:
  assumes "stream_plain initial r (Some cl) sink st = (Inr u, st', r')"
  shows "\<exists>chunks. feed sink chunks st = (Ok (), st') \<and> length (concat chunks) = cl \<and> cl \<le> MAX_RESP"
proof -
  obtain chunks where c: "stream_plain initial r (Some cl) rec_sink [] = (Inr u, chunks, r')"
      "feed sink chunks st = (Inr (), st')"
    using assms by (auto simp: stream_plain_Ok [of _ _ _ sink])
  then have le: "cl \<le> MAX_RESP" by (auto simp: stream_plain_def split: if_splits)
  obtain pre where "plain_length_loop cl rec_sink (min (length initial) cl) pre r = (Inr u, chunks, r')"
      "concat pre = take cl initial"
    using stream_plain_initial [OF le, of initial r] c(1) by auto
  then have "\<exists>cs. chunks = pre @ cs \<and> length (concat cs) = cl - min (length initial) cl" "length (concat pre) = min (length initial) cl"
    by (auto dest: plain_length_loop_length simp: min.commute)
  then have "length (concat chunks) = cl" by auto
  with c(2) le show ?thesis by blast
qed

theorem stream_plain_exact_witness:
  "\<exists>chunks. feed rec_sink chunks [] = (Ok (), [[65 :: u8], [66]]) \<and> length (concat chunks) = 2 \<and> 2 \<le> MAX_RESP"
proof -
  have "stream_plain [65] [RData [66, 67]] (Some 2) rec_sink [] = (Inr (), [[65], [66]], [RData [67]])"
    by (simp add: stream_plain_def rec_sink_simp plain_length_loop.simps MAX_RESP_def)
  from stream_plain_exact [OF this] show ?thesis .
qed

section \<open>Chunked bodies\<close>

text \<open>
  C15: A chunked response is forwarded chunk by chunk: for every well-formed chunked body within the
  size limit, every way the connection cuts it into reads, and whatever follows it, the sink gets
  exactly the payloads of the chunks, in order.
\<close>

theorem stream_chunked_complete:
  assumes "chunked w ps" and "buf @ concat cs = w @ rest" and "[] \<notin> set cs" and "length (concat ps) \<le> MAX_RESP"
  shows "\<exists>r'. stream_chunked buf (map RData cs) rec_sink [] = (Ok (), ps, r')"
  using chunk_loop_chunked [OF assms(1-3), of 0 "[]"] assms(4) by (simp add: stream_chunked_def)

lemma size_lineI:
  "trim (hd (split_on (CHR '';'') (trim (from_utf8_lossy l)))) = ds \<Longrightarrow> parse_uint 64 16 ds = Some n \<Longrightarrow>
    find (l @ [13, 10]) [13, 10] = Some (length l) \<Longrightarrow> size_line l n"
  by (simp add: size_line_def chunk_size_def)

lemma hex_digits:
  "digit_value 16 (CHR ''0'') = Some 0" "digit_value 16 (CHR ''1'') = Some 1" "digit_value 16 (CHR ''2'') = Some 2"
  "digit_value 16 (CHR ''f'') = Some 15"
  by code_simp+

lemma size_lines: "size_line [49] 1" "size_line [50] 2" "size_line [48] 0"
proof -
  show "size_line [49] 1"
    by (rule size_lineI [of _ "''1''"], code_simp) (simp add: parse_uint_def hex_digits, code_simp)
  show "size_line [50] 2"
    by (rule size_lineI [of _ "''2''"], code_simp) (simp add: parse_uint_def hex_digits, code_simp)
  show "size_line [48] 0"
    by (rule size_lineI [of _ "''0''"], code_simp) (simp add: parse_uint_def hex_digits, code_simp)
qed

lemma size_line_f: "size_line (replicate 16 102) (2 ^ 64 - 1)"
  by (rule size_lineI [of _ "''ffffffffffffffff''"], code_simp) (simp add: parse_uint_def hex_digits, code_simp)

lemma chunked_sample: "chunked [50, 13, 10, 65, 66, 13, 10, 49, 13, 10, 67, 13, 10, 48, 13, 10] [[65, 66], [67]]"
  using chunked_more [of "[50]" "[65, 66]" "[49, 13, 10, 67, 13, 10, 48, 13, 10]" "[[67]]"]
    chunked_more [of "[49]" "[67]" "[48, 13, 10]" "[]"] chunked_last [of "[48]"] size_lines
  by (simp add: numeral_2_eq_2)

theorem stream_chunked_complete_witness:
  "\<exists>r'. stream_chunked [50, 13] (map RData [[10, 65], [66, 13, 10, 49, 13, 10, 67, 13, 10, 48], [13, 10]]) rec_sink []
     = (Ok (), [[65, 66], [67]], r')"
  using stream_chunked_complete [OF chunked_sample, of "[50, 13]"
      "[[10, 65], [66, 13, 10, 49, 13, 10, 67, 13, 10, 48], [13, 10]]" "[]"]
  by (simp add: MAX_RESP_def)

text \<open>
  C16: A chunked response that breaks off is never taken for a complete one: for every strict initial part
  of a well-formed chunked body the exchange fails, and what was forwarded is an initial part of the body.
\<close>

theorem stream_chunked_truncated:
  assumes "chunked (u @ v) ps" and "v \<noteq> []" and "buf @ concat cs = u" and "[] \<notin> set cs"
    and "length (concat ps) \<le> MAX_RESP"
  shows "\<exists>qs r'. stream_chunked buf (map RData cs) rec_sink [] = (Err ChunkedEof, qs, r')
    \<and> prefix (concat qs) (concat ps)"
  using chunk_loop_truncated [OF assms(1) refl assms(2-4), of 0 "[]"] assms(5) by (simp add: stream_chunked_def)

theorem stream_chunked_truncated_witness:
  "\<exists>qs r'. stream_chunked [50, 13] (map RData [[10, 65], [66, 13, 10, 49, 13, 10, 67, 13]]) rec_sink []
     = (Err ChunkedEof, qs, r') \<and> prefix (concat qs) [65, 66, 67]"
  using stream_chunked_truncated [of "[50, 13, 10, 65, 66, 13, 10, 49, 13, 10, 67, 13]" "[10, 48, 13, 10]"
      "[[65, 66], [67]]" "[50, 13]" "[[10, 65], [66, 13, 10, 49, 13, 10, 67, 13]]"] chunked_sample
  by (simp add: MAX_RESP_def)

text \<open>A round of two chunks whose sizes add up to \<open>2 ^ 64\<close>.\<close>

definition wrap_round :: "u8 list \<Rightarrow> u8 list" where
  "wrap_round D = [49, 13, 10, 65, 13, 10] @ replicate 16 102 @ [13, 10] @ D"

lemma chunk_round_line:
  "size_line l n \<Longrightarrow> 0 < n \<Longrightarrow> (tot + n) mod 2 ^ 64 \<le> MAX_RESP \<Longrightarrow> (n + 2) mod 2 ^ 64 \<le> length b \<Longrightarrow>
    chunk_round tot (l @ [13, 10] @ b) r
      = Piece (take n b) (if take 2 (drop n b) = [13, 10] then drop (n + 2) b else drop n b) ((tot + n) mod 2 ^ 64) r"
proof -
  assume l: "size_line l n" "0 < n" "(tot + n) mod 2 ^ 64 \<le> MAX_RESP" "(n + 2) mod 2 ^ 64 \<le> length b"
  have "fill_crlf (l @ [13, 10] @ b) r = (Ok (length l, l @ [13, 10] @ b), r)"
    using size_line_find [OF l(1), of b] by (subst fill_crlf.simps) simp
  moreover have "fill_to ((n + 2) mod 2 ^ 64) b r = (Ok b, r)" using l(4) by (subst fill_to.simps) simp
  moreover have "take (min n (length b)) b = take n b" "drop (min n (length b)) b = drop n b"
    by (simp_all add: min_def)
  ultimately show ?thesis using l
    by (simp add: chunk_round_def size_line_def Let_def add.commute [of n 2])
qed

lemma chunk_loop_read:
  "buf \<noteq> [] \<Longrightarrow> length buf \<le> 16384 \<Longrightarrow> chunk_loop sink tot [] st (RData buf # r) = chunk_loop sink tot buf st r"
proof -
  assume buf: "buf \<noteq> []" "length buf \<le> 16384"
  then have "fill_crlf [] (RData buf # r) = fill_crlf buf r"
    by (subst fill_crlf.simps) (simp add: find_def)
  then show ?thesis by (subst (1 2) chunk_loop.simps) simp
qed

lemma chunk_loop_wrap_round:
  assumes "D \<noteq> []" and "length D \<le> 16000"
  shows "chunk_loop rec_sink 0 [] acc (RData (wrap_round D) # r) = chunk_loop rec_sink 0 [] (acc @ [[65], D]) r"
proof -
  define rest where "rest = replicate 16 (102 :: u8) @ [13, 10] @ D"
  have w: "wrap_round D = [49] @ [13, 10] @ [65, 13, 10] @ rest" by (simp add: wrap_round_def rest_def)
  have "chunk_round 0 (wrap_round D) r = Piece [65] rest (Suc 0) r"
    unfolding w by (subst chunk_round_line [OF size_lines(1)]) (simp_all add: MAX_RESP_def)
  moreover have "chunk_round (Suc 0) rest r = Piece D [] 0 r"
  proof -
    have "1 \<le> length D" using assms by (cases D) auto
    moreover have "length D \<le> 18446744073709551615" using assms by simp
    ultimately show ?thesis unfolding rest_def
      by (subst chunk_round_line [OF size_line_f]) (simp_all add: MAX_RESP_def)
  qed
  moreover have "chunk_loop rec_sink 0 [] acc (RData (wrap_round D) # r) = chunk_loop rec_sink 0 (wrap_round D) acc r"
    using assms by (intro chunk_loop_read) (simp_all add: wrap_round_def)
  ultimately show ?thesis
    by (simp add: chunk_loop_round [of _ 0 "wrap_round D"] chunk_loop_round [of _ "Suc 0" rest] rec_sink_simp)
qed

lemma chunk_loop_wrap_rounds:
  "D \<noteq> [] \<Longrightarrow> length D \<le> 16000 \<Longrightarrow>
    chunk_loop rec_sink 0 [] acc (replicate k (RData (wrap_round D)) @ r)
      = chunk_loop rec_sink 0 [] (acc @ concat (replicate k [[65], D])) r"
  by (induction k arbitrary: acc) (simp_all add: chunk_loop_wrap_round)

text \<open>
  C38: The limit on chunked responses can be passed.  The running total is a machine word and the sizes
  come from the upstream: a chunk size of sixteen digits f wraps the total around, so that for every
  number there is a response of more bytes that is forwarded and accepted.
\<close>

theorem stream_chunked_limit_passed:
  "\<forall>N. \<exists>r chunks. stream_chunked [] r rec_sink [] = (Ok (), chunks, []) \<and> N < length (concat chunks)"
proof
  fix N
  define r where "r = replicate N (RData (wrap_round [66])) @ RData [48, 13, 10] # []"
  define chunks where "chunks = concat (replicate (Suc N) [[65], [66 :: u8]])"
  have "chunk_loop rec_sink 0 [] acc [RData [48, 13, 10]] = (Ok (), acc, [])" for acc
    by (subst chunk_loop_read, simp, simp, subst chunk_loop_round)
      (use size_line_find [OF size_lines(3), of "[]"] size_lines(3) in
        \<open>simp add: chunk_round_def size_line_def fill_crlf.simps\<close>)
  then have "stream_chunked [] (replicate (Suc N) (RData (wrap_round [66])) @ [RData [48, 13, 10]]) rec_sink []
      = (Ok (), chunks, [])"
    unfolding stream_chunked_def chunks_def by (subst chunk_loop_wrap_rounds) simp_all
  moreover have "length (concat (concat (replicate k [[65], [66 :: u8]]))) = 2 * k" for k
    by (induction k) simp_all
  then have "N < length (concat chunks)" unfolding chunks_def by simp
  ultimately show "\<exists>r chunks. stream_chunked [] r rec_sink [] = (Ok (), chunks, []) \<and> N < length (concat chunks)"
    by blast
qed

section \<open>The request head\<close>

lemma no_crlf_literal:
  "no_crlf '' ''" "no_crlf '' HTTP/1.1''" "no_crlf ''host''" "no_crlf '': ''" "no_crlf ''authorization''"
  "no_crlf ''Bearer ''" "no_crlf ''content-length''" "no_crlf ''connection: close''"
  by code_simp+

text \<open>
  C31: No header injection on the map path.  When the fields the client supplies have no line breaks, the
  request head consists of the intended lines only: the request line, host, the client's headers that
  are not managed by the enclave, the token, the length of the body actually sent, and close.
\<close>

theorem build_request_head_map_no_injection:
  assumes "no_crlf norm_method" "no_crlf path" "no_crlf host" "\<forall>kv\<in>set hs. no_crlf (fst kv) \<and> no_crlf (snd kv)"
    and "\<forall>t. tok = Some t \<longrightarrow> no_crlf t"
  shows "split_crlf (build_request_head_map X norm_method path host hs tok body_len)
    = map_head_lines X norm_method path host hs tok body_len @ [[], []]"
proof -
  have "list_all no_crlf (map_head_lines X norm_method path host hs tok body_len)"
    using assms by (auto simp: map_head_lines_def header_text_def list_all_iff no_crlf_literal nat_to_string_no_crlf split: option.splits)
  from split_crlf_lines [OF this, of crlf] show ?thesis
    by (simp only: build_request_head_map_lines split_crlf_end)
qed

theorem build_request_head_map_no_injection_witness:
  "split_crlf (build_request_head_map (sample_crypto (\<lambda>_. None)) ''POST'' ''/v1'' ''h'' [(''accept'', ''x'')] (Some ''t'') 2)
    = map_head_lines (sample_crypto (\<lambda>_. None)) ''POST'' ''/v1'' ''h'' [(''accept'', ''x'')] (Some ''t'') 2 @ [[], []]"
  by (rule build_request_head_map_no_injection) simp_all

end
