(* ===== verification/Blocking_Io.thy ===== *)
theory Blocking_Io
  imports IO
begin

text \<open>
  The adapter between blocking streams and the runtime of the HTTP/2 library (struct
  \<^verbatim>\<open>BlockingIo\<close> of \<^verbatim>\<open>h2_client.rs\<close>).  A call that runs into the
  timeout of the socket wakes its own task and is pending; every other result is ready.

  The inner stream answers its calls by scripts: what each read, each write and each flush returns.
  A script that has run out reads end of file, takes all bytes and flushes.  The waker of the context
  is a flag.
\<close>

section \<open>The adapter\<close>

datatype 'a poll = Ready "io_kind + 'a" | Pending

record blocking_io =
  bi_reads :: reader
  bi_writes :: "(io_kind + nat) list"
  bi_flushes :: "(io_kind + unit) list"
  bi_out :: "u8 list"

definition would_wait :: "io_kind \<Rightarrow> bool" where
  "would_wait e \<longleftrightarrow> e = WouldBlock \<or> e = TimedOut"

definition inner_read :: "blocking_io \<Rightarrow> nat \<Rightarrow> (io_kind + u8 list) \<times> blocking_io" where
  "inner_read s k = map_prod id (\<lambda>r. s\<lparr>bi_reads := r\<rparr>) (read (bi_reads s) k)"

definition inner_write :: "blocking_io \<Rightarrow> u8 list \<Rightarrow> (io_kind + nat) \<times> blocking_io" where
  "inner_write s buf =
     (case bi_writes s of
        [] \<Rightarrow> (Ok (length buf), s\<lparr>bi_out := bi_out s @ buf\<rparr>)
      | Inl e # ws \<Rightarrow> (Err e, s\<lparr>bi_writes := ws\<rparr>)
      | Inr k # ws \<Rightarrow>
          (Ok (min k (length buf)), s\<lparr>bi_writes := ws, bi_out := bi_out s @ take k buf\<rparr>))"

definition inner_flush :: "blocking_io \<Rightarrow> (io_kind + unit) \<times> blocking_io" where
  "inner_flush s =
     (case bi_flushes s of
        [] \<Rightarrow> (Ok (), s)
      | x # fs \<Rightarrow> (x, s\<lparr>bi_flushes := fs\<rparr>))"

text \<open>The match all three polls make on the result of the inner call; the flag is the waker.\<close>

definition poll_result :: "bool \<Rightarrow> (io_kind + 'a) \<times> blocking_io \<Rightarrow> 'a poll \<times> bool \<times> blocking_io" where
  "poll_result woken res =
     (case res of
        (Inr a, s) \<Rightarrow> (Ready (Ok a), woken, s)
      | (Inl e, s) \<Rightarrow> if would_wait e then (Pending, True, s) else (Ready (Err e), woken, s))"

definition poll_read :: "bool \<Rightarrow> nat \<Rightarrow> blocking_io \<Rightarrow> u8 list poll \<times> bool \<times> blocking_io" where
  "poll_read woken k s = poll_result woken (inner_read s k)"

definition poll_write :: "bool \<Rightarrow> u8 list \<Rightarrow> blocking_io \<Rightarrow> nat poll \<times> bool \<times> blocking_io" where
  "poll_write woken buf s = poll_result woken (inner_write s buf)"

definition poll_flush :: "bool \<Rightarrow> blocking_io \<Rightarrow> unit poll \<times> bool \<times> blocking_io" where
  "poll_flush woken s = poll_result woken (inner_flush s)"

definition poll_shutdown :: "bool \<Rightarrow> blocking_io \<Rightarrow> unit poll \<times> bool \<times> blocking_io" where
  "poll_shutdown woken s = (Ready (Ok ()), woken, s)"

section \<open>The runtime\<close>

text \<open>
  A runtime polls again a pending task that was woken, and never one that was not: then the run
  hangs, which is \<^verbatim>\<open>None\<close>.  Every pending poll uses up an entry of a script, so the number of
  polls is bounded by the entries left.
\<close>

definition script_left :: "blocking_io \<Rightarrow> nat" where
  "script_left s = length (bi_reads s) + length (bi_writes s) + length (bi_flushes s)"

fun drive :: "nat \<Rightarrow> (bool \<Rightarrow> blocking_io \<Rightarrow> 'a poll \<times> bool \<times> blocking_io) \<Rightarrow> blocking_io \<Rightarrow> ((io_kind + 'a) \<times> blocking_io) option" where
  "drive polls f s =
     (case f False s of
        (Ready x, _, s') \<Rightarrow> Some (x, s')
      | (Pending, woken, s') \<Rightarrow>
          (case polls of
             0 \<Rightarrow> None
           | Suc polls \<Rightarrow> if woken then drive polls f s' else None))"

declare drive.simps [simp del]

text \<open>The stream without the timeouts.\<close>

definition patient :: "blocking_io \<Rightarrow> blocking_io" where
  "patient s = s\<lparr>bi_reads := filter (\<lambda>ev. \<forall>e. ev = RErr e \<longrightarrow> \<not> would_wait e) (bi_reads s),
     bi_writes := filter (case_sum (Not \<circ> would_wait) (\<lambda>_. True)) (bi_writes s),
     bi_flushes := filter (case_sum (Not \<circ> would_wait) (\<lambda>_. True)) (bi_flushes s)\<rparr>"

section \<open>Polling is waiting\<close>

text \<open>
  What the adapter relies on of an inner call: a timeout uses up an entry and is the only difference
  to the stream without timeouts.
\<close>

locale polled_op =
  fixes op :: "blocking_io \<Rightarrow> (io_kind + 'a) \<times> blocking_io"
  assumes wait: "op s = (Inl e, s') \<Longrightarrow> would_wait e \<Longrightarrow> script_left s' < script_left s \<and> patient s' = patient s"
    and progress: "op s = (res, s') \<Longrightarrow> (\<And>e. res = Inl e \<Longrightarrow> \<not> would_wait e) \<Longrightarrow> op (patient s) = (res, patient s')"
begin

lemma drive_patient:
  "script_left s \<le> polls \<Longrightarrow>
    map_option (map_prod id patient) (drive polls (\<lambda>woken s. poll_result woken (op s)) s) = Some (op (patient s))"
proof (induction polls arbitrary: s)
  case (0 s)
  obtain res s' where op: "op s = (res, s')" by (cases "op s")
  with wait [of s _ s'] 0 have no_wait: "\<And>e. res = Inl e \<Longrightarrow> \<not> would_wait e" by auto
  with op progress [OF op] show ?case
    by (cases res) (auto simp: drive.simps [of 0] poll_result_def)
next
  case (Suc polls s)
  obtain res s' where op: "op s = (res, s')" by (cases "op s")
  show ?case
  proof (cases "\<exists>e. res = Inl e \<and> would_wait e")
    case True
    with op wait [of s _ s'] Suc.prems have "script_left s' \<le> polls" "patient s' = patient s" by auto
    with Suc.IH [of s'] op True show ?thesis by (auto simp: drive.simps [of "Suc polls"] poll_result_def)
  next
    case False
    with op progress [OF op] show ?thesis
      by (cases res) (auto simp: drive.simps [of "Suc polls"] poll_result_def)
  qed
qed

end

lemma read_wait:
  "read r k = (Inl e, r') \<Longrightarrow> would_wait e \<Longrightarrow>
    length r' < length r \<and> filter (\<lambda>ev. \<forall>e. ev = RErr e \<longrightarrow> \<not> would_wait e) r' =
      filter (\<lambda>ev. \<forall>e. ev = RErr e \<longrightarrow> \<not> would_wait e) r"
  by (induction r k rule: read.induct) auto

lemma read_progress:
  "read r k = (res, r') \<Longrightarrow> (\<And>e. res = Inl e \<Longrightarrow> \<not> would_wait e) \<Longrightarrow>
    read (filter (\<lambda>ev. \<forall>e. ev = RErr e \<longrightarrow> \<not> would_wait e) r) k =
      (res, filter (\<lambda>ev. \<forall>e. ev = RErr e \<longrightarrow> \<not> would_wait e) r')"
  by (induction r k rule: read.induct) auto

interpretation polled_read: polled_op "\<lambda>s. inner_read s k" for k
  by unfold_locales
    (auto simp: inner_read_def patient_def script_left_def map_prod_def dest: read_wait read_progress split: prod.splits)

interpretation polled_write: polled_op "\<lambda>s. inner_write s buf" for buf
  by unfold_locales
    (auto simp: inner_write_def patient_def script_left_def split: list.splits sum.splits)

interpretation polled_flush: polled_op inner_flush
  by unfold_locales
    (auto simp: inner_flush_def patient_def script_left_def split: list.splits sum.splits)

text \<open>
  C35: The adapter hides the timeouts and loses nothing.  Polled by a runtime that polls a pending task
  again only when it was woken, a read, a write and a flush each return, after no more polls than the
  stream has answers left, exactly what the stream without timeouts returns, and leave it in the same
  state: no byte is lost or written twice, no timeout surfaces as an error, and no run hangs.
\<close>

theorem blocking_io_patient:
  assumes "script_left s \<le> polls"
  shows "map_option (map_prod id patient) (drive polls (\<lambda>woken. poll_read woken k) s) = Some (inner_read (patient s) k)
    \<and> map_option (map_prod id patient) (drive polls (\<lambda>woken. poll_write woken buf) s) = Some (inner_write (patient s) buf)
    \<and> map_option (map_prod id patient) (drive polls poll_flush s) = Some (inner_flush (patient s))"
  unfolding poll_read_def poll_write_def poll_flush_def
  using polled_read.drive_patient [OF assms] polled_write.drive_patient [OF assms] polled_flush.drive_patient [OF assms]
  by blast

theorem blocking_io_patient_witness:
  "map_option (map_prod id patient) (drive 4 (\<lambda>woken. poll_read woken 8)
       \<lparr>bi_reads = [RErr TimedOut, RErr WouldBlock, RData [1, 2]], bi_writes = [Inl TimedOut], bi_flushes = [], bi_out = []\<rparr>)
   = Some (Ok [1, 2], \<lparr>bi_reads = [], bi_writes = [], bi_flushes = [], bi_out = []\<rparr>)"
  using blocking_io_patient [of "\<lparr>bi_reads = [RErr TimedOut, RErr WouldBlock, RData [1, 2]], bi_writes = [Inl TimedOut],
      bi_flushes = [], bi_out = []\<rparr>" 4 8 "[]"]
  by (simp add: script_left_def inner_read_def patient_def would_wait_def)

end
