(* ===== verification/H2.thy ===== *)
theory H2
  imports Http_Sinks
begin

text \<open>
  The HTTP/2 client (\<^verbatim>\<open>h2_client.rs\<close>, function \<^verbatim>\<open>execute\<close>): the checks
  and builder calls made from the fingerprint of a profile, the request headers, sending the body under
  flow control, and forwarding the response to a sink.

  The crate \<^verbatim>\<open>h2\<close>, its runtime and the driver thread are a parameter, the record
  \<open>h2_lib\<close>: what each call answers in the run.  The capacities granted to the request stream and the
  data frames of the response are scripts, consumed one per poll; a capacity script that has run out
  is a closed stream.
\<close>

section \<open>The library\<close>

datatype h2_op =
    EnablePush bool | InitialWindowSize u32 | MaxFrameSize u32 | MaxHeaderListSize u32
  | InitialConnectionWindowSize u32

datatype capacity_event = CapClosed | CapErr string | Cap nat

datatype driver_result = DriverOk | DriverErr string | DriverPanicked

record h2_request =
  hq_method :: string
  hq_uri :: string
  hq_headers :: "(string \<times> string \<times> bool) list"

record h2_lib =
  h2_op_panics :: "h2_op \<Rightarrow> bool"
  h2_runtime :: "string option"
  h2_handshake :: "h2_op list \<Rightarrow> rustls_session \<Rightarrow> string option"
  h2_uri :: "string \<Rightarrow> string option"
  h2_method :: "string \<Rightarrow> string option"
  h2_request_error :: "string option"
  h2_header_name :: "string \<Rightarrow> string option"
  h2_header_value :: "string \<Rightarrow> string option"
  h2_send_request :: "h2_request \<Rightarrow> bool \<Rightarrow> string option"
  h2_capacity :: "capacity_event list"
  h2_send_data :: "u8 list \<Rightarrow> bool \<Rightarrow> string option"
  h2_response :: "string + (u16 \<times> (string \<times> u8 list) list)"
  h2_data :: "(string + u8 list) list"
  h2_release :: "nat \<Rightarrow> string option"
  h2_driver :: driver_result

record h2_summary =
  hs_status :: u16
  hs_body_bytes :: nat

section \<open>Set-up\<close>

text \<open>A builder call with a value out of range panics in the library.\<close>

definition h2_call :: "h2_lib \<Rightarrow> h2_op \<Rightarrow> enclave_error + h2_op" where
  "h2_call L op = (if h2_op_panics L op then Err (Panicked ''h2 builder'') else Ok op)"

fun h2_settings_ops :: "h2_lib \<Rightarrow> (u16 \<times> u32) list \<Rightarrow> enclave_error + h2_op list" where
  "h2_settings_ops L [] = Ok []"
| "h2_settings_ops L ((sid, value) # rest) =
     result_bind
       (if sid = 2 then h2_call L (EnablePush (value \<noteq> 0))
        else if sid = 4 then h2_call L (InitialWindowSize value)
        else if sid = 5 then h2_call L (MaxFrameSize value)
        else if sid = 6 then h2_call L (MaxHeaderListSize value)
        else Err (H2Failed (UnsupportedSetting sid)))
       (\<lambda>op. map_sum id ((#) op) (h2_settings_ops L rest))"

definition h2_builder :: "h2_lib \<Rightarrow> H2Settings \<Rightarrow> enclave_error + h2_op list" where
  "h2_builder L fp =
     (if pseudo_header_order fp \<noteq> ['':method'', '':scheme'', '':authority'', '':path'']
      then Err (H2Failed PseudoHeaderOrder)
      else
        result_bind (h2_settings_ops L (settings fp))
          (\<lambda>ops.
             if 2 ^ 32 \<le> 65535 + unat (window_update fp) then Err (H2Failed WindowOverflow)
             else map_sum id (\<lambda>op. ops @ [op]) (h2_call L (InitialConnectionWindowSize (65535 + window_update fp)))))"

section \<open>The request\<close>

definition h2_skipped :: "string list" where
  "h2_skipped = [''host'', ''connection'', ''transfer-encoding'', ''te'', ''trailer'', ''upgrade'',
     ''proxy-connection'', ''keep-alive'']"

type_synonym h2_header_state = "(string \<times> string \<times> bool) list \<times> bool \<times> bool"

definition h2_append :: "h2_lib \<Rightarrow> string \<Rightarrow> string \<Rightarrow> bool \<Rightarrow> (string \<times> string \<times> bool) list
    \<Rightarrow> h2_error + (string \<times> string \<times> bool) list" where
  "h2_append L lower value sensitive headers =
     (case h2_header_name L lower of
        Some e \<Rightarrow> Err (H2HeaderName lower e)
      | None \<Rightarrow>
          (case h2_header_value L value of
             Some e \<Rightarrow> Err (H2HeaderValue lower e)
           | None \<Rightarrow> Ok (headers @ [(lower, value, sensitive)])))"

definition h2_header_step ::
  "h2_lib \<Rightarrow> string option \<Rightarrow> nat \<Rightarrow> string \<times> string \<Rightarrow> h2_header_state \<Rightarrow> h2_error + h2_header_state" where
  "h2_header_step L tok body_len kv hst =
     (case (kv, hst) of ((name, original_value), (headers, auth_seen, clen_seen)) \<Rightarrow>
        let lower = to_ascii_lowercase name
        in if lower \<in> set h2_skipped then Ok (headers, auth_seen, clen_seen)
           else if lower = ''authorization'' then
             (case tok of
                None \<Rightarrow> Ok (headers, True, clen_seen)
              | Some t \<Rightarrow>
                  map_sum id (\<lambda>hs. (hs, True, clen_seen)) (h2_append L lower (''Bearer '' @ t) True headers))
           else if lower = ''content-length'' then
             map_sum id (\<lambda>hs. (hs, auth_seen, True)) (h2_append L lower (nat_to_string body_len) False headers)
           else
             map_sum id (\<lambda>hs. (hs, auth_seen, clen_seen)) (h2_append L lower original_value False headers))"

fun h2_header_loop ::
  "h2_lib \<Rightarrow> string option \<Rightarrow> nat \<Rightarrow> (string \<times> string) list \<Rightarrow> h2_header_state \<Rightarrow> h2_error + h2_header_state" where
  "h2_header_loop L tok body_len [] hst = Ok hst"
| "h2_header_loop L tok body_len (kv # kvs) hst =
     result_bind (h2_header_step L tok body_len kv hst) (h2_header_loop L tok body_len kvs)"

definition h2_add_authorization ::
  "h2_lib \<Rightarrow> string option \<Rightarrow> bool \<Rightarrow> (string \<times> string \<times> bool) list \<Rightarrow> h2_error + (string \<times> string \<times> bool) list" where
  "h2_add_authorization L tok auth_seen headers =
     (if auth_seen then Ok headers
      else
        (case tok of
           None \<Rightarrow> Ok headers
         | Some t \<Rightarrow>
             (case h2_header_value L (''Bearer '' @ t) of
                Some e \<Rightarrow> Err (H2Authorization e)
              | None \<Rightarrow> Ok (headers @ [(''authorization'', ''Bearer '' @ t, True)]))))"

definition h2_add_content_length ::
  "h2_lib \<Rightarrow> nat \<Rightarrow> bool \<Rightarrow> (string \<times> string \<times> bool) list \<Rightarrow> h2_error + (string \<times> string \<times> bool) list" where
  "h2_add_content_length L body_len clen_seen headers =
     (if clen_seen then Ok headers
      else
        (case h2_header_value L (nat_to_string body_len) of
           Some e \<Rightarrow> Err (H2ContentLength e)
         | None \<Rightarrow> Ok (headers @ [(''content-length'', nat_to_string body_len, False)])))"

definition h2_request_headers ::
  "h2_lib \<Rightarrow> (string \<times> string) list \<Rightarrow> string option \<Rightarrow> nat \<Rightarrow> h2_error + (string \<times> string \<times> bool) list" where
  "h2_request_headers L ordered tok body_len =
     result_bind (h2_header_loop L tok body_len ordered ([], False, False))
       (\<lambda>(headers, auth_seen, clen_seen).
          result_bind (h2_add_authorization L tok auth_seen headers)
            (h2_add_content_length L body_len clen_seen))"

definition h2_new_request ::
  "h2_lib \<Rightarrow> string \<Rightarrow> string \<Rightarrow> string \<Rightarrow> (string \<times> string) list \<Rightarrow> string option \<Rightarrow> nat \<Rightarrow> h2_error + h2_request" where
  "h2_new_request L host http_method path ordered tok body_len =
     (let uri = ''https://'' @ host @ path
      in case h2_uri L uri of
           Some e \<Rightarrow> Err (H2Uri e)
         | None \<Rightarrow>
             (case h2_method L http_method of
                Some e \<Rightarrow> Err (H2Method e)
              | None \<Rightarrow>
                  (case h2_request_error L of
                     Some e \<Rightarrow> Err (H2Request e)
                   | None \<Rightarrow>
                       map_sum id (\<lambda>hs. \<lparr>hq_method = http_method, hq_uri = uri, hq_headers = hs\<rparr>)
                         (h2_request_headers L ordered tok body_len))))"

section \<open>Sending and receiving\<close>

fun h2_send_body ::
  "h2_lib \<Rightarrow> u8 list \<Rightarrow> nat \<Rightarrow> (u8 list \<times> bool) list \<Rightarrow> capacity_event list \<Rightarrow> h2_error + (u8 list \<times> bool) list" where
  "h2_send_body L body offset sent [] =
     (if length body \<le> offset then Ok sent else Err H2StreamClosed)"
| "h2_send_body L body offset sent (cap # caps) =
     (if length body \<le> offset then Ok sent
      else
        (case cap of
           CapClosed \<Rightarrow> Err H2StreamClosed
         | CapErr e \<Rightarrow> Err (H2Capacity e)
         | Cap capacity \<Rightarrow>
             if capacity = 0 then h2_send_body L body offset sent caps
             else
               let wanted = min (length body - offset) 16384;
                   n = min wanted capacity;
                   data = take n (drop offset body);
                   end_stream = (offset + n = length body)
               in case h2_send_data L data end_stream of
                    Some e \<Rightarrow> Err (H2SendBody e)
                  | None \<Rightarrow> h2_send_body L body (offset + n) (sent @ [(data, end_stream)]) caps))"

fun h2_recv_loop ::
  "h2_lib \<Rightarrow> nat \<Rightarrow> 'st sink \<Rightarrow> nat \<Rightarrow> 'st \<Rightarrow> (string + u8 list) list \<Rightarrow> (enclave_error + nat) \<times> 'st" where
  "h2_recv_loop L limit on_chunk tot st [] = (Ok tot, st)"
| "h2_recv_loop L limit on_chunk tot st (Inl e # frames) = (Err (H2Failed (H2Body e)), st)"
| "h2_recv_loop L limit on_chunk tot st (Inr chunk # frames) =
     (if 2 ^ 64 \<le> tot + length chunk then (Err (H2Failed H2SizeOverflow), st)
      else if limit < tot + length chunk then (Err (H2Failed H2TooLarge), st)
      else
        (case on_chunk chunk st of
           (Inl e, st) \<Rightarrow> (Err e, st)
         | (Inr _, st) \<Rightarrow>
             (case h2_release L (length chunk) of
                Some e \<Rightarrow> (Err (H2Failed (H2Release e)), st)
              | None \<Rightarrow> h2_recv_loop L limit on_chunk (tot + length chunk) st frames)))"

definition h2_exchange ::
  "h2_lib \<Rightarrow> u8 list \<Rightarrow> nat \<Rightarrow> (u16 \<Rightarrow> (string \<times> string) list \<Rightarrow> 'st \<Rightarrow> (enclave_error + unit) \<times> 'st) \<Rightarrow> 'st sink \<Rightarrow> 'st
    \<Rightarrow> (enclave_error + h2_summary) \<times> 'st" where
  "h2_exchange L body limit on_head on_chunk st =
     (case h2_send_body L body 0 [] (h2_capacity L) of
        Inl e \<Rightarrow> (Err (H2Failed e), st)
      | Inr _ \<Rightarrow>
          (case h2_response L of
             Inl e \<Rightarrow> (Err (H2Failed (H2Response e)), st)
           | Inr (status, raw_headers) \<Rightarrow>
               (case on_head status (map (\<lambda>(k, v). (k, from_utf8_lossy v)) raw_headers) st of
                  (Inl e, st) \<Rightarrow> (Err e, st)
                | (Inr _, st) \<Rightarrow>
                    (case h2_recv_loop L limit on_chunk 0 st (h2_data L) of
                       (Inl e, st) \<Rightarrow> (Err e, st)
                     | (Inr tot, st) \<Rightarrow> (Ok \<lparr>hs_status = status, hs_body_bytes = tot\<rparr>, st)))))"

definition h2_join :: "driver_result \<Rightarrow> enclave_error + 'a \<Rightarrow> enclave_error + 'a" where
  "h2_join driver result =
     (case (result, driver) of
        (Inr _, DriverErr e) \<Rightarrow> Err (H2Failed (H2Connection e))
      | (Inr _, DriverPanicked) \<Rightarrow> Err (H2Failed H2DriverPanicked)
      | _ \<Rightarrow> result)"

definition h2_execute ::
  "h2_lib \<Rightarrow> rustls_session \<Rightarrow> H2Settings \<Rightarrow> string \<Rightarrow> string \<Rightarrow> string \<Rightarrow> (string \<times> string) list \<Rightarrow> string option
    \<Rightarrow> u8 list \<Rightarrow> nat \<Rightarrow> (u16 \<Rightarrow> (string \<times> string) list \<Rightarrow> 'st \<Rightarrow> (enclave_error + unit) \<times> 'st) \<Rightarrow> 'st sink \<Rightarrow> 'st
    \<Rightarrow> (enclave_error + h2_summary) \<times> 'st" where
  "h2_execute L io fp host http_method path ordered tok body limit on_head on_chunk st =
     (case h2_builder L fp of
        Inl e \<Rightarrow> (Err e, st)
      | Inr ops \<Rightarrow>
            (case h2_runtime L of
               Some e \<Rightarrow> (Err (H2Failed (H2Runtime e)), st)
             | None \<Rightarrow>
                 (case h2_handshake L ops io of
                    Some e \<Rightarrow> (Err (H2Failed (H2Handshake e)), st)
                  | None \<Rightarrow>
                      (case h2_new_request L host http_method path ordered tok (length body) of
                         Inl e \<Rightarrow> (Err (H2Failed e), st)
                       | Inr request \<Rightarrow>
                           (case h2_send_request L request (body = []) of
                              Some e \<Rightarrow> (Err (H2Failed (H2SendHeaders e)), st)
                            | None \<Rightarrow>
                                (case h2_exchange L body limit on_head on_chunk st of
                                   (result, st) \<Rightarrow> (h2_join (h2_driver L) result, st)))))))"

end
