(* ===== verification/H2_Props.thy ===== *)
theory H2_Props
  imports H2
begin

text \<open>
  What the HTTP/2 client guarantees: the request carries the credentials and the length the enclave
  sets and no others, and the body is sent completely under every schedule of flow control.
\<close>

section \<open>Request headers\<close>

definition managed_ok :: "string option \<Rightarrow> nat \<Rightarrow> string \<times> string \<times> bool \<Rightarrow> bool" where
  "managed_ok tok body_len h \<longleftrightarrow>
     (case h of (k, v, sensitive) \<Rightarrow>
        k \<notin> set h2_skipped
        \<and> (k = ''authorization'' \<longrightarrow> (\<exists>t. tok = Some t \<and> v = ''Bearer '' @ t \<and> sensitive))
        \<and> (k = ''content-length'' \<longrightarrow> v = nat_to_string body_len))"

definition header_inv :: "string option \<Rightarrow> nat \<Rightarrow> h2_header_state \<Rightarrow> bool" where
  "header_inv tok body_len hst \<longleftrightarrow>
     (case hst of (headers, auth_seen, clen_seen) \<Rightarrow>
        (\<forall>h\<in>set headers. managed_ok tok body_len h)
        \<and> (clen_seen \<longrightarrow> ''content-length'' \<in> fst ` set headers)
        \<and> (auth_seen \<and> tok \<noteq> None \<longrightarrow> ''authorization'' \<in> fst ` set headers))"

lemma not_skipped: "''authorization'' \<notin> set h2_skipped" "''content-length'' \<notin> set h2_skipped"
  by (simp_all add: h2_skipped_def)

lemma h2_append_Inr: "h2_append L k v s hs = Inr hs' \<Longrightarrow> hs' = hs @ [(k, v, s)]"
  by (auto simp: h2_append_def split: option.splits)

lemma map_sum_id_Inr: "map_sum id g r = Inr y \<longleftrightarrow> (\<exists>x. r = Inr x \<and> y = g x)"
  by (cases r) auto

lemma h2_header_step_inv:
  assumes "header_inv tok n hst" and "h2_header_step L tok n kv hst = Inr hst'"
  shows "header_inv tok n hst'"
proof -
  obtain name v hs a c where [simp]: "kv = (name, v)" "hst = (hs, a, c)" by (cases kv; cases hst)
  let ?k = "to_ascii_lowercase name"
  consider "hst' = hst" | "?k = ''authorization''" "tok = None" "hst' = (hs, True, c)"
    | t where "tok = Some t" "hst' = (hs @ [(''authorization'', ''Bearer '' @ t, True)], True, c)"
    | "hst' = (hs @ [(''content-length'', nat_to_string n, False)], a, True)"
    | "?k \<notin> set h2_skipped" "?k \<noteq> ''authorization''" "?k \<noteq> ''content-length''" "hst' = (hs @ [(?k, v, False)], a, c)"
    using assms(2) by (auto simp: h2_header_step_def Let_def map_sum_id_Inr split: if_splits option.splits
        dest!: h2_append_Inr)
  then show ?thesis
    by cases (use assms(1) not_skipped in \<open>auto simp: header_inv_def managed_ok_def\<close>)
qed

lemma h2_header_loop_inv:
  "header_inv tok n hst \<Longrightarrow> h2_header_loop L tok n kvs hst = Inr hst' \<Longrightarrow> header_inv tok n hst'"
proof (induction kvs arbitrary: hst)
  case (Cons kv kvs)
  from Cons.prems(2) obtain hst1 where "h2_header_step L tok n kv hst = Inr hst1" "h2_header_loop L tok n kvs hst1 = Inr hst'"
    by (auto simp: result_bind_Inr_iff)
  with Cons.IH h2_header_step_inv [OF Cons.prems(1)] show ?case by blast
qed simp

text \<open>
  C32: Credentials and framing of an HTTP/2 request are the enclave's.  Whatever headers the client
  supplies, an authorization header of the request carries the token of the exchange and is marked
  sensitive, a content-length header the length of the body, no connection-level header is left, the
  length is present, and so is the authorization whenever there is a token.
\<close>

theorem h2_request_headers_managed:
  assumes "h2_request_headers L ordered tok body_len = Ok headers"
  shows "(\<forall>h\<in>set headers. managed_ok tok body_len h) \<and> ''content-length'' \<in> fst ` set headers
    \<and> (tok \<noteq> None \<longrightarrow> ''authorization'' \<in> fst ` set headers)"
proof -
  obtain hs a c hs1 where l: "h2_header_loop L tok body_len ordered ([], False, False) = Inr (hs, a, c)"
      and au: "h2_add_authorization L tok a hs = Inr hs1" and cl: "h2_add_content_length L body_len c hs1 = Inr headers"
    using assms by (auto simp: h2_request_headers_def result_bind_Inr_iff)
  have inv: "header_inv tok body_len (hs, a, c)"
    by (rule h2_header_loop_inv [OF _ l]) (simp add: header_inv_def)
  have "header_inv tok body_len (hs1, True, c)"
    using inv au not_skipped
    by (auto simp: h2_add_authorization_def header_inv_def managed_ok_def split: if_splits option.splits)
  then have "header_inv tok body_len (headers, True, True)"
    using cl not_skipped
    by (auto simp: h2_add_content_length_def header_inv_def managed_ok_def split: if_splits option.splits)
  then show ?thesis by (simp add: header_inv_def)
qed

definition sample_h2 :: h2_lib where
  "sample_h2 = \<lparr>h2_op_panics = (\<lambda>_. False), h2_runtime = None, h2_handshake = (\<lambda>_ _. None), h2_uri = (\<lambda>_. None),
     h2_method = (\<lambda>_. None), h2_request_error = None, h2_header_name = (\<lambda>_. None), h2_header_value = (\<lambda>_. None),
     h2_send_request = (\<lambda>_ _. None), h2_capacity = [Cap 0, Cap 3, Cap 100], h2_send_data = (\<lambda>_ _. None),
     h2_response = Inr (200, []), h2_data = [Inr [65]], h2_release = (\<lambda>_. None), h2_driver = DriverOk\<rparr>"

theorem h2_request_headers_managed_witness:
  "\<exists>headers. h2_request_headers sample_h2 [(''Authorization'', ''forged''), (''te'', ''x'')] (Some ''t'') 5 = Ok headers
    \<and> (\<forall>h\<in>set headers. managed_ok (Some ''t'') 5 h)"
proof -
  have low: "to_ascii_lowercase ''Authorization'' = ''authorization''" "to_ascii_lowercase ''te'' = ''te''" by code_simp+
  have "\<exists>headers. h2_request_headers sample_h2 [(''Authorization'', ''forged''), (''te'', ''x'')] (Some ''t'') 5 = Ok headers"
    by (simp add: h2_request_headers_def h2_header_step_def low h2_skipped_def h2_append_def sample_h2_def Let_def
        h2_add_authorization_def h2_add_content_length_def)
  with h2_request_headers_managed [of sample_h2 "[(''Authorization'', ''forged''), (''te'', ''x'')]" "Some ''t''" 5]
  show ?thesis by blast
qed

section \<open>The request body\<close>

definition sent_inv :: "u8 list \<Rightarrow> nat \<Rightarrow> (u8 list \<times> bool) list \<Rightarrow> bool" where
  "sent_inv body offset out \<longleftrightarrow>
     offset \<le> length body \<and> concat (map fst out) = take offset body
     \<and> (\<forall>p\<in>set out. fst p \<noteq> [] \<and> length (fst p) \<le> 16384)
     \<and> map snd out = (if offset = length body \<and> body \<noteq> [] then replicate (length out - 1) False @ [True]
                      else replicate (length out) False)"

lemma sent_inv_step:
  assumes "sent_inv body offset out" and "offset < length body" and "0 < n" and "n \<le> min (length body - offset) 16384"
  shows "sent_inv body (offset + n) (out @ [(take n (drop offset body), offset + n = length body)])"
proof -
  have "take (offset + n) body = take offset body @ take n (drop offset body)" by (simp add: take_add)
  moreover have "map snd out = replicate (length out) False" using assms(1,2) by (simp add: sent_inv_def)
  moreover have "take n (drop offset body) \<noteq> []" using assms(2,3) by simp
  ultimately show ?thesis using assms
    by (auto simp: sent_inv_def replicate_append_same [symmetric])
qed

lemma h2_send_body_inv:
  "h2_send_body L body offset out caps = Inr out' \<Longrightarrow> sent_inv body offset out \<Longrightarrow> sent_inv body (length body) out'"
proof (induction caps arbitrary: offset out)
  case Nil
  then show ?case by (auto simp: sent_inv_def split: if_splits)
next
  case (Cons cap caps)
  show ?case
  proof (cases "length body \<le> offset")
    case True
    with Cons.prems have "offset = length body" "out' = out" by (auto simp: sent_inv_def)
    with Cons.prems show ?thesis by simp
  next
    case False
    with Cons.prems(1) obtain c where c: "cap = Cap c" by (cases cap) auto
    show ?thesis
    proof (cases "c = 0")
      case True
      with Cons c False show ?thesis by simp
    next
      case pos: False
      define n where "n = min (min (length body - offset) 16384) c"
      from Cons.prems(1) c False pos
      have "h2_send_body L body (offset + n) (out @ [(take n (drop offset body), offset + n = length body)]) caps = Inr out'"
        by (simp add: Let_def n_def [symmetric] split: option.splits)
      moreover have "sent_inv body (offset + n) (out @ [(take n (drop offset body), offset + n = length body)])"
        using Cons.prems(2) False pos by (intro sent_inv_step) (auto simp: n_def)
      ultimately show ?thesis by (rule Cons.IH)
    qed
  qed
qed



end
