(* ===== verification/Metrics.thy ===== *)
theory Metrics
  imports Prelude
begin

text \<open>
  The counters of the process (struct \<^verbatim>\<open>Metrics\<close> of \<^verbatim>\<open>main.rs\<close>).
  Each is an atomic of 64 bits, so a word whose additions wrap around.
\<close>

record Metrics =
  accepted :: u64
  shed :: u64
  completed :: u64
  failed :: u64
  panicked :: u64
  in_flight :: u64
  in_flight_max :: u64
  queue_depth :: u64
  queue_depth_max :: u64
  handle_ns_total :: u64
  nsm_ns_total :: u64
  nsm_calls :: u64
  resp_bytes_total :: u64

definition metrics_default :: Metrics where
  "metrics_default = \<lparr>accepted = 0, shed = 0, completed = 0, failed = 0, panicked = 0, in_flight = 0,
     in_flight_max = 0, queue_depth = 0, queue_depth_max = 0, handle_ns_total = 0, nsm_ns_total = 0,
     nsm_calls = 0, resp_bytes_total = 0\<rparr>"

end
