(* ===== verification/Evidence.thy ===== *)
theory Evidence
  imports Field_Claims Frames Egress
begin

text \<open>
  Where the proof of an exchange comes from: the evidence providers (\<^verbatim>\<open>evidence.rs\<close>,
  \<^verbatim>\<open>evidence_nitro.rs\<close>, \<^verbatim>\<open>evidence_qingtian.rs\<close>), the local
  signing key (\<^verbatim>\<open>build_local_evidence_backend\<close>), and the client of the Aliyun proof helper
  (\<^verbatim>\<open>aliyun_helper.rs\<close>).

  The attestation devices, the signature scheme and serde's derived parsers are parameters.  The trait
  \<^verbatim>\<open>EvidenceProvider\<close> is the locale \<open>evidence_provider\<close>, interpreted on both providers.
\<close>

section \<open>Evidence providers\<close>

record Evidence =
  ev_profile :: string
  ev_attestation :: "u8 list"
  ev_pcr0 :: "string option"
  ev_pcr8 :: "string option"
  ev_measurements :: "(string, string) btree"

datatype attest_error =
    Nsm string | QtsmKeyTooLarge nat | QtsmNonceTooLarge nat | QtsmInit int | QtsmFailed int | QtsmLength nat
  | HelperConnect string | HelperWrite io_kind | HelperRead io_kind | HelperJson
  | HelperVersion u8 | HelperFailure string string | HelperNoDetail | HelperNoProof

text \<open>The Nitro security module: a request names the user data, the nonce and the public key.\<close>

datatype nsm_request = NsmAttestationRequest "u8 list option" "u8 list option" "u8 list option"
datatype nsm_response = NsmAttestation "u8 list" | NsmOther string

definition nitro_attest :: "(nsm_request \<Rightarrow> nsm_response) \<Rightarrow> u8 list \<Rightarrow> u8 list \<Rightarrow> attest_error + Evidence" where
  "nitro_attest nsm spki nonce_bytes =
     (case nsm (NsmAttestationRequest None (Some nonce_bytes) (Some spki)) of
        NsmAttestation document \<Rightarrow>
          Ok \<lparr>ev_profile = ''nitro'', ev_attestation = document, ev_pcr0 = None, ev_pcr8 = None,
              ev_measurements = bt_empty\<rparr>
      | NsmOther shown \<Rightarrow> Err (Nsm shown))"

text \<open>The provider is created with the descriptor the driver gives, whatever it is.\<close>

definition nitro_new ::
  "(int \<Rightarrow> nsm_request \<Rightarrow> nsm_response) \<Rightarrow> int \<Rightarrow> u8 list \<Rightarrow> u8 list \<Rightarrow> attest_error + Evidence" where
  "nitro_new nsm fd = nitro_attest (nsm fd)"

text \<open>
  The QingTian library writes the document into a buffer of the caller.  A call answers its return
  code, the bytes it wrote and the length it reports.
\<close>

definition QTSM_ATTESTATION_DOC_MAX_SIZE :: nat where "QTSM_ATTESTATION_DOC_MAX_SIZE = 64 * 1024"
definition QTSM_PUBLIC_KEY_MAX_SIZE :: nat where "QTSM_PUBLIC_KEY_MAX_SIZE = 1024"
definition QTSM_NONCE_MAX_SIZE :: nat where "QTSM_NONCE_MAX_SIZE = 512"

definition overwrite :: "'a list \<Rightarrow> 'a list \<Rightarrow> 'a list" where
  "overwrite buf bs = take (length buf) bs @ drop (length bs) buf"

definition qingtian_attest ::
  "(u8 list \<Rightarrow> u8 list \<Rightarrow> nat \<Rightarrow> int \<times> u8 list \<times> u32) \<Rightarrow> u8 list \<Rightarrow> u8 list \<Rightarrow> attest_error + Evidence" where
  "qingtian_attest qtsm spki nonce_bytes =
     (if QTSM_PUBLIC_KEY_MAX_SIZE < length spki then Err (QtsmKeyTooLarge (length spki))
      else if QTSM_NONCE_MAX_SIZE < length nonce_bytes then Err (QtsmNonceTooLarge (length nonce_bytes))
      else
        (case qtsm nonce_bytes spki QTSM_ATTESTATION_DOC_MAX_SIZE of
           (rc, written, attestation_len) \<Rightarrow>
             let attestation = overwrite (replicate QTSM_ATTESTATION_DOC_MAX_SIZE 0) written;
                 actual_len = unat attestation_len
             in if rc \<noteq> 0 then Err (QtsmFailed rc)
                else if actual_len = 0 \<or> length attestation < actual_len then Err (QtsmLength actual_len)
                else Ok \<lparr>ev_profile = ''qingtian'', ev_attestation = take actual_len attestation,
                         ev_pcr0 = None, ev_pcr8 = None, ev_measurements = bt_empty\<rparr>))"

text \<open>The provider is created with the descriptor its library gave; a negative one is an error.\<close>

definition qingtian_new ::
  "(int \<Rightarrow> u8 list \<Rightarrow> u8 list \<Rightarrow> nat \<Rightarrow> int \<times> u8 list \<times> u32) \<Rightarrow> int
    \<Rightarrow> attest_error + (u8 list \<Rightarrow> u8 list \<Rightarrow> attest_error + Evidence)" where
  "qingtian_new qtsm fd = (if fd < 0 then Err (QtsmInit fd) else Ok (qingtian_attest (qtsm fd)))"

text \<open>
  What a provider promises: evidence carries the provider's profile and no measurements, and its
  document is one the device issued for the given key and nonce.
\<close>

locale evidence_provider =
  fixes profile :: string
    and attest :: "u8 list \<Rightarrow> u8 list \<Rightarrow> attest_error + Evidence"
    and issued :: "u8 list \<Rightarrow> u8 list \<Rightarrow> u8 list \<Rightarrow> bool"
  assumes attest_profile: "attest spki nonce_bytes = Inr e \<Longrightarrow> ev_profile e = profile"
    and attest_issued: "attest spki nonce_bytes = Inr e \<Longrightarrow> issued spki nonce_bytes (ev_attestation e)"
    and attest_plain: "attest spki nonce_bytes = Inr e \<Longrightarrow>
      ev_pcr0 e = None \<and> ev_pcr8 e = None \<and> ev_measurements e = bt_empty"
begin

lemma attest_Ok:
  "attest spki nonce_bytes = Inr e \<Longrightarrow>
    \<exists>doc. issued spki nonce_bytes doc \<and> e = \<lparr>ev_profile = profile, ev_attestation = doc, ev_pcr0 = None,
      ev_pcr8 = None, ev_measurements = bt_empty\<rparr>"
  by (rule exI [of _ "ev_attestation e"])
    (use attest_profile [of spki nonce_bytes e] attest_issued [of spki nonce_bytes e]
      attest_plain [of spki nonce_bytes e] in simp)

end

definition nitro_issued :: "(nsm_request \<Rightarrow> nsm_response) \<Rightarrow> u8 list \<Rightarrow> u8 list \<Rightarrow> u8 list \<Rightarrow> bool" where
  "nitro_issued nsm spki nonce_bytes doc \<longleftrightarrow>
     nsm (NsmAttestationRequest None (Some nonce_bytes) (Some spki)) = NsmAttestation doc"

interpretation nitro: evidence_provider "''nitro''" "nitro_attest nsm" "nitro_issued nsm" for nsm
  by unfold_locales (auto simp: nitro_attest_def nitro_issued_def split: nsm_response.splits)

definition qingtian_issued ::
  "(u8 list \<Rightarrow> u8 list \<Rightarrow> nat \<Rightarrow> int \<times> u8 list \<times> u32) \<Rightarrow> u8 list \<Rightarrow> u8 list \<Rightarrow> u8 list \<Rightarrow> bool" where
  "qingtian_issued qtsm spki nonce_bytes doc \<longleftrightarrow>
     (\<exists>written len. qtsm nonce_bytes spki QTSM_ATTESTATION_DOC_MAX_SIZE = (0, written, len)
        \<and> doc \<noteq> [] \<and> length doc = unat len \<and> (length doc \<le> length written \<longrightarrow> prefix doc written))"

lemma overwrite_length [simp]: "length (overwrite buf bs) = length buf"
  by (simp add: overwrite_def)

lemma take_overwrite: "n \<le> length bs \<Longrightarrow> n \<le> length buf \<Longrightarrow> take n (overwrite buf bs) = take n bs"
  by (simp add: overwrite_def min_def)

interpretation qingtian: evidence_provider "''qingtian''" "qingtian_attest qtsm" "qingtian_issued qtsm" for qtsm
proof
  fix spki nonce_bytes e
  assume ok: "qingtian_attest qtsm spki nonce_bytes = Inr e"
  obtain rc written len where q: "qtsm nonce_bytes spki QTSM_ATTESTATION_DOC_MAX_SIZE = (rc, written, len)"
    by (metis prod.exhaust)
  define buf where "buf = overwrite (replicate QTSM_ATTESTATION_DOC_MAX_SIZE (0 :: u8)) written"
  have e: "rc = 0" "unat len \<noteq> 0" "unat len \<le> QTSM_ATTESTATION_DOC_MAX_SIZE"
      "e = \<lparr>ev_profile = ''qingtian'', ev_attestation = take (unat len) buf, ev_pcr0 = None, ev_pcr8 = None,
          ev_measurements = bt_empty\<rparr>"
    using ok q by (auto simp: qingtian_attest_def buf_def Let_def not_less split: if_splits)
  then show "ev_profile e = ''qingtian''" "ev_pcr0 e = None \<and> ev_pcr8 e = None \<and> ev_measurements e = bt_empty"
    by simp_all
  have "length buf = QTSM_ATTESTATION_DOC_MAX_SIZE" by (simp add: buf_def)
  moreover have "prefix (take (unat len) buf) written" if "unat len \<le> length written"
    using that e(3) by (simp add: buf_def take_overwrite take_is_prefix)
  ultimately show "qingtian_issued qtsm spki nonce_bytes (ev_attestation e)"
    using q e by (auto simp: qingtian_issued_def QTSM_ATTESTATION_DOC_MAX_SIZE_def)
qed

section \<open>Backends\<close>

record HelperResponse =
  hr_v :: u8
  hr_ok :: bool
  hr_proof :: "string option"
  hr_error :: "(string \<times> string) option"

text \<open>
  The third-party functions of the handler: the signature scheme on a 32-byte seed, serde's parsers of
  the request head and of the helper's response, and the text of an error.
\<close>

record enclave = crypto +
  ed_public :: "u8 list \<Rightarrow> u8 list"
  ed_sign :: "u8 list \<Rightarrow> u8 list \<Rightarrow> u8 list"
  parse_req_head :: "u8 list \<Rightarrow> ReqHead option"
  parse_helper_response :: "u8 list \<Rightarrow> HelperResponse option"
  attest_error_text :: "attest_error \<Rightarrow> string"

record LocalEvidenceBackend =
  lb_sk :: "u8 list"
  lb_spki :: "u8 list"
  lb_attest :: "u8 list \<Rightarrow> u8 list \<Rightarrow> attest_error + Evidence"

record AliyunBackend =
  ab_socket_path :: string

datatype ProofBackend = LocalEvidence LocalEvidenceBackend | AliyunVtpm AliyunBackend

definition SPKI_PREFIX :: "u8 list" where
  "SPKI_PREFIX = [0x30, 0x2a, 0x30, 0x05, 0x06, 0x03, 0x2b, 0x65, 0x70, 0x03, 0x21, 0x00]"

text \<open>\<^verbatim>\<open>None\<close> is the panic on a profile without a provider: one the binary was built without, one
  whose library gave no descriptor, or an unknown one.\<close>

definition build_evidence_provider ::
  "(int \<Rightarrow> nsm_request \<Rightarrow> nsm_response) \<Rightarrow> (int \<Rightarrow> u8 list \<Rightarrow> u8 list \<Rightarrow> nat \<Rightarrow> int \<times> u8 list \<times> u32) \<Rightarrow> bool \<Rightarrow> bool \<Rightarrow> int \<Rightarrow> int \<Rightarrow> string
    \<Rightarrow> (u8 list \<Rightarrow> u8 list \<Rightarrow> attest_error + Evidence) option" where
  "build_evidence_provider nsm qtsm feature_nitro feature_qingtian nsm_fd qtsm_fd profile =
     (if profile = [] \<or> profile = ''nitro'' then if feature_nitro then Some (nitro_new nsm nsm_fd) else None
      else if profile = ''qingtian'' then if feature_qingtian then case_sum (\<lambda>_. None) Some (qingtian_new qtsm qtsm_fd) else None
      else None)"

definition build_local_evidence_backend ::
  "('x) enclave_scheme \<Rightarrow> (int \<Rightarrow> nsm_request \<Rightarrow> nsm_response) \<Rightarrow> (int \<Rightarrow> u8 list \<Rightarrow> u8 list \<Rightarrow> nat \<Rightarrow> int \<times> u8 list \<times> u32)
    \<Rightarrow> bool \<Rightarrow> bool \<Rightarrow> int \<Rightarrow> int \<Rightarrow> u8 list \<Rightarrow> string \<Rightarrow> LocalEvidenceBackend option" where
  "build_local_evidence_backend X nsm qtsm feature_nitro feature_qingtian nsm_fd qtsm_fd seed profile =
     map_option (\<lambda>attest. \<lparr>lb_sk = seed, lb_spki = SPKI_PREFIX @ ed_public X seed, lb_attest = attest\<rparr>)
       (build_evidence_provider nsm qtsm feature_nitro feature_qingtian nsm_fd qtsm_fd profile)"

definition configured_tee_profile :: "(string \<Rightarrow> string option) \<Rightarrow> string" where
  "configured_tee_profile env =
     to_ascii_lowercase
       (case env ''TEE_PROFILE'' of
          Some v \<Rightarrow> v
        | None \<Rightarrow> (case env ''POO_EVIDENCE_PROFILE'' of Some v \<Rightarrow> v | None \<Rightarrow> ''nitro''))"

definition DEFAULT_ALIYUN_HELPER_SOCKET :: string where
  "DEFAULT_ALIYUN_HELPER_SOCKET = ''/run/aliyun-proof-helper.sock''"

definition main_backend ::
  "('x) enclave_scheme \<Rightarrow> (int \<Rightarrow> nsm_request \<Rightarrow> nsm_response) \<Rightarrow> (int \<Rightarrow> u8 list \<Rightarrow> u8 list \<Rightarrow> nat \<Rightarrow> int \<times> u8 list \<times> u32)
    \<Rightarrow> bool \<Rightarrow> bool \<Rightarrow> int \<Rightarrow> int \<Rightarrow> u8 list \<Rightarrow> (string \<Rightarrow> string option) \<Rightarrow> ProofBackend option" where
  "main_backend X nsm qtsm feature_nitro feature_qingtian nsm_fd qtsm_fd seed env =
     (let profile = configured_tee_profile env
      in if profile = [] \<or> profile = ''nitro'' \<or> profile = ''qingtian''
         then map_option LocalEvidence
                (build_local_evidence_backend X nsm qtsm feature_nitro feature_qingtian nsm_fd qtsm_fd seed profile)
         else if profile = ''aliyun-vtpm''
         then Some (AliyunVtpm \<lparr>ab_socket_path =
                (case env ''ALIYUN_PROOF_HELPER_SOCKET'' of Some v \<Rightarrow> v | None \<Rightarrow> DEFAULT_ALIYUN_HELPER_SOCKET)\<rparr>)
         else None)"

section \<open>The proof helper\<close>

definition PROTOCOL_VERSION :: u8 where "PROTOCOL_VERSION = 1"

record ProofRequest =
  pr_v :: u8
  pr_nonce_b64 :: string
  pr_upstream_host :: string
  pr_upstream_path :: string
  pr_http_method :: string
  pr_http_status :: u16
  pr_resp_content_type :: string
  pr_request_body_sha256 :: string
  pr_response_body_sha256 :: string
  pr_field_claims :: "json option"

definition proof_request_new ::
  "string \<Rightarrow> string \<Rightarrow> string \<Rightarrow> string \<Rightarrow> u16 \<Rightarrow> string \<Rightarrow> string \<Rightarrow> string \<Rightarrow> json option \<Rightarrow> ProofRequest" where
  "proof_request_new nonce_b64 host path http_method status ctype rq rs claims =
     \<lparr>pr_v = PROTOCOL_VERSION, pr_nonce_b64 = nonce_b64, pr_upstream_host = host, pr_upstream_path = path,
      pr_http_method = http_method, pr_http_status = status, pr_resp_content_type = ctype,
      pr_request_body_sha256 = rq, pr_response_body_sha256 = rs, pr_field_claims = claims\<rparr>"

text \<open>The derived serializer: the fields in the order of the struct, an absent claim left out.\<close>

definition json_member :: "('x) serde_scheme \<Rightarrow> string \<Rightarrow> string \<Rightarrow> string" where
  "json_member X k v = str_json X k @ '':'' @ v"

definition proof_request_json :: "('x) serde_scheme \<Rightarrow> ProofRequest \<Rightarrow> string" where
  "proof_request_json X q =
     ''{'' @ join '',''
       ([json_member X ''v'' (nat_to_string (unat (pr_v q))),
         json_member X ''nonce_b64'' (str_json X (pr_nonce_b64 q)),
         json_member X ''upstream_host'' (str_json X (pr_upstream_host q)),
         json_member X ''upstream_path'' (str_json X (pr_upstream_path q)),
         json_member X ''http_method'' (str_json X (pr_http_method q)),
         json_member X ''http_status'' (nat_to_string (unat (pr_http_status q))),
         json_member X ''resp_content_type'' (str_json X (pr_resp_content_type q)),
         json_member X ''request_body_sha256'' (str_json X (pr_request_body_sha256 q)),
         json_member X ''response_body_sha256'' (str_json X (pr_response_body_sha256 q))]
        @ (case pr_field_claims q of
             Some claims \<Rightarrow> [json_member X ''field_claims'' (value_json X claims)]
           | None \<Rightarrow> []))
     @ ''}''"

definition helper_verdict :: "('x) enclave_scheme \<Rightarrow> u8 list \<Rightarrow> attest_error + u8 list" where
  "helper_verdict X raw =
     (case parse_helper_response X raw of
        None \<Rightarrow> Err HelperJson
      | Some response \<Rightarrow>
          if hr_v response \<noteq> PROTOCOL_VERSION then Err (HelperVersion (hr_v response))
          else if \<not> hr_ok response then
            (case hr_error response of
               Some (code, message) \<Rightarrow> Err (HelperFailure code message)
             | None \<Rightarrow> Err HelperNoDetail)
          else (case hr_proof response of
                  None \<Rightarrow> Err HelperNoProof
                | Some prf \<Rightarrow> Ok (as_bytes prf)))"

definition request_proof ::
  "('x) enclave_scheme \<Rightarrow> (string \<Rightarrow> string + conn) \<Rightarrow> string \<Rightarrow> ProofRequest \<Rightarrow> attest_error + u8 list" where
  "request_proof X connect socket_path request =
     (case connect socket_path of
        Inl e \<Rightarrow> Err (HelperConnect e)
      | Inr c \<Rightarrow>
          (case helper_write_frame (cn_out c) (as_bytes (proof_request_json X request)) MAX_REQUEST_PAYLOAD of
             (Inl e, _) \<Rightarrow> Err (HelperWrite e)
           | (Inr _, _) \<Rightarrow>
               (case helper_read_frame (cn_in c) MAX_RESPONSE_PAYLOAD of
                  (Inl e, _) \<Rightarrow> Err (HelperRead e)
                | (Inr raw, _) \<Rightarrow> helper_verdict X raw)))"

section \<open>Properties\<close>

text \<open>
  C22: Evidence is for this key and this nonce.  Whatever local backend the configuration selects, a
  successful attestation carries the configured profile and a document the device issued for the
  given public key and nonce; the key it is asked for is the 12-byte prefix of an Ed25519 key and the
  public key of the signing seed.
\<close>

theorem main_backend_evidence:
  assumes "main_backend X nsm qtsm fn fq nfd fd seed env = Some (LocalEvidence b)"
    and "lb_attest b spki nonce_bytes = Ok e"
  shows "lb_sk b = seed \<and> lb_spki b = SPKI_PREFIX @ ed_public X seed
    \<and> (ev_profile e = ''nitro'' \<and> configured_tee_profile env \<in> {[], ''nitro''} \<and> nitro_issued (nsm nfd) spki nonce_bytes (ev_attestation e)
       \<or> ev_profile e = ''qingtian'' \<and> configured_tee_profile env = ''qingtian''
         \<and> qingtian_issued (qtsm fd) spki nonce_bytes (ev_attestation e))"
proof -
  consider "lb_attest b = nitro_attest (nsm nfd)" "configured_tee_profile env \<in> {[], ''nitro''}" | "lb_attest b = qingtian_attest (qtsm fd)" "configured_tee_profile env = ''qingtian''"
    using assms(1) by (auto simp: main_backend_def build_local_evidence_backend_def build_evidence_provider_def
        qingtian_new_def nitro_new_def Let_def split: if_splits)
  moreover have "lb_sk b = seed" "lb_spki b = SPKI_PREFIX @ ed_public X seed"
    using assms(1) by (auto simp: main_backend_def build_local_evidence_backend_def Let_def split: if_splits)
  ultimately show ?thesis
    using assms(2) nitro.attest_profile nitro.attest_issued qingtian.attest_profile qingtian.attest_issued
    by (cases; simp)
qed

definition sample_nsm :: "nsm_request \<Rightarrow> nsm_response" where
  "sample_nsm r = NsmAttestation [1]"

definition sample_enclave :: "(u8 list \<Rightarrow> ReqHead option) \<Rightarrow> enclave" where
  "sample_enclave parse = crypto.extend (sample_crypto (\<lambda>_. None))
     \<lparr>ed_public = id, ed_sign = (\<lambda>k s. k @ s), parse_req_head = parse,
      parse_helper_response = (\<lambda>raw. Some \<lparr>hr_v = 1, hr_ok = True, hr_proof = Some ''{}'', hr_error = None\<rparr>),
      attest_error_text = (\<lambda>_. [])\<rparr>"

theorem main_backend_evidence_witness:
  "\<exists>b e. main_backend (sample_enclave (\<lambda>_. None)) (\<lambda>_. sample_nsm) (\<lambda>_ _ _ _. (0, [], 0)) True False 3 0 [7] (\<lambda>_. None)
       = Some (LocalEvidence b)
    \<and> lb_attest b [2] [3] = Ok e \<and> nitro_issued sample_nsm [2] [3] (ev_attestation e)"
proof -
  define b where "b = \<lparr>lb_sk = [7], lb_spki = SPKI_PREFIX @ ed_public (sample_enclave (\<lambda>_. None)) [7],
    lb_attest = nitro_attest sample_nsm\<rparr>"
  have "configured_tee_profile (\<lambda>_. None) = ''nitro''" by code_simp
  then have b: "main_backend (sample_enclave (\<lambda>_. None)) (\<lambda>_. sample_nsm) (\<lambda>_ _ _ _. (0, [], 0)) True False 3 0 [7] (\<lambda>_. None)
      = Some (LocalEvidence b)"
    by (simp add: main_backend_def build_local_evidence_backend_def build_evidence_provider_def nitro_new_def b_def)
  obtain e where e: "lb_attest b [2] [3] = Ok e" "ev_profile e = ''nitro''"
    by (simp add: b_def nitro_attest_def sample_nsm_def)
  from main_backend_evidence [OF b e(1)] e(2) have "nitro_issued sample_nsm [2] [3] (ev_attestation e)" by simp
  with b e show ?thesis by blast
qed

text \<open>
  The helper's answer decides.  When the request fits and the helper answers one frame within the
  limit, delivered in any pieces, the outcome is the verdict on that answer; a request over the limit
  is refused before anything is sent.
\<close>

theorem request_proof_answer:
  assumes "connect path = Ok c" and "wr_budget (cn_out c) = None"
    and "delivers (cn_in c) (helper_frame_bytes raw @ rest)" and "length raw \<le> MAX_RESPONSE_PAYLOAD"
  shows "request_proof X connect path q =
    (if length (proof_request_json X q) \<le> MAX_REQUEST_PAYLOAD then helper_verdict X raw else Err (HelperWrite InvalidData))"
proof -
  have "length raw < 2 ^ 32" using assms(4) by (simp add: MAX_RESPONSE_PAYLOAD_def)
  with helper.read_wire [OF assms(3) _ assms(4)] obtain r' where
    rd: "helper_read_frame (cn_in c) MAX_RESPONSE_PAYLOAD = (Inr raw, r')" by blast
  show ?thesis
  proof (cases "length (proof_request_json X q) \<le> MAX_REQUEST_PAYLOAD")
    case True
    then have "\<exists>w. helper_write_frame (cn_out c) (as_bytes (proof_request_json X q)) MAX_REQUEST_PAYLOAD = (Inr (), w)"
      using assms(2) by (simp add: helper_write_frame_def write_all_unlimited)
    with rd assms(1) True show ?thesis by (auto simp: request_proof_def)
  next
    case False
    with assms(1) show ?thesis by (simp add: request_proof_def helper_write_frame_def)
  qed
qed

lemma delivers_one: "bs \<noteq> [] \<Longrightarrow> delivers [RData bs] bs"
  using delivers_data [OF _ delivers_end] by simp

theorem request_proof_answer_witness:
  "request_proof (sample_enclave (\<lambda>_. None))
     (\<lambda>_. Ok \<lparr>cn_out = \<lparr>wr_out = [], wr_budget = None\<rparr>, cn_in = [RData (helper_frame_bytes [123, 125])]\<rparr>) ''s''
     (proof_request_new ''n'' ''h'' ''/'' ''GET'' 200 ''t'' ''0'' ''1'' None)
   = Ok (as_bytes ''{}'')"
proof -
  let ?X = "sample_enclave (\<lambda>_. None)" and ?q = "proof_request_new ''n'' ''h'' ''/'' ''GET'' 200 ''t'' ''0'' ''1'' None"
  have "length (proof_request_json ?X ?q) \<le> 200" by code_simp
  then have "length (proof_request_json ?X ?q) \<le> MAX_REQUEST_PAYLOAD" by (simp add: MAX_REQUEST_PAYLOAD_def)
  moreover have "helper_verdict ?X [123, 125] = Ok (as_bytes ''{}'')"
    by (simp add: helper_verdict_def sample_enclave_def crypto.defs enclave.defs PROTOCOL_VERSION_def)
  ultimately show ?thesis
    by (subst request_proof_answer [where rest = "[]" and raw = "[123, 125]" and
        c = "\<lparr>cn_out = \<lparr>wr_out = [], wr_budget = None\<rparr>, cn_in = [RData (helper_frame_bytes [123, 125])]\<rparr>"])
      (simp_all add: MAX_RESPONSE_PAYLOAD_def delivers_one helper_frame_bytes_def)
qed

end
