(* ===== verification/Handler.thy ===== *)
theory Handler
  imports Metrics Evidence H2
begin

text \<open>
  One exchange (\<^verbatim>\<open>handle\<close> of \<^verbatim>\<open>main.rs\<close>): the request frames are read and
  checked, the upstream is reached over the stack of the profile, the request is sent, the response is
  forwarded while it is hashed and its field claims are collected, and the trailer with the proof is
  written.  Everything outside the program that takes part in one exchange is the record \<open>world\<close>.
\<close>

record world =
  wd_sockets :: sockets
  wd_btls :: tls_lib
  wd_openssl :: tls_lib
  wd_rustls :: rustls_lib
  wd_h2 :: h2_lib
  wd_unix :: "string \<Rightarrow> string + conn"
  wd_nsm_ns :: u64

definition protocol_env :: "world \<Rightarrow> string option" where
  "protocol_env W = sk_env (wd_sockets W) ''FIELD_PROOF_PROTOCOL_FAMILY''"

definition io_result :: "(io_kind \<Rightarrow> enclave_error) \<Rightarrow> (io_kind + unit) \<times> writer \<Rightarrow> (enclave_error + unit) \<times> writer" where
  "io_result f res = map_prod (map_sum f id) id res"

section \<open>Trailers\<close>

definition json_u16 :: "u16 \<Rightarrow> json" where
  "json_u16 n = JNumber (NInt (uint n))"

definition build_proof_unavailable_payload ::
  "ReqHead \<Rightarrow> string \<Rightarrow> u16 \<Rightarrow> string \<Rightarrow> string \<Rightarrow> string \<Rightarrow> string \<Rightarrow> string \<Rightarrow> json" where
  "build_proof_unavailable_payload head norm_method status ctype rq rs code message =
     json_object
       [(''type'', JString ''tee.proof_unavailable''), (''code'', JString code), (''message'', JString message),
        (''attested'', JBool False),
        (''upstream_host'', JString (to_ascii_lowercase (up_host (upstream head)))),
        (''upstream_path'', JString (path_no_query (up_path (upstream head)))),
        (''http_method'', JString (to_ascii_uppercase norm_method)), (''http_status'', json_u16 status),
        (''resp_content_type'', JString ctype), (''request_body_sha256'', JString rq),
        (''response_body_sha256'', JString rs)]"

definition write_proof_unavailable_trailer ::
  "('x) serde_scheme \<Rightarrow> ReqHead \<Rightarrow> string \<Rightarrow> u16 \<Rightarrow> string \<Rightarrow> string \<Rightarrow> string \<Rightarrow> string \<Rightarrow> string \<Rightarrow> writer
    \<Rightarrow> (enclave_error + unit) \<times> writer" where
  "write_proof_unavailable_trailer X head norm_method status ctype rq rs code message w =
     io_result WriteUnavailable
       (write_frame w RESP_TRAILER
         (as_bytes (value_json X (build_proof_unavailable_payload head norm_method status ctype rq rs code message))))"

definition measurements_json :: "(string, string) btree \<Rightarrow> json" where
  "measurements_json m = JObject (map (map_prod id JString) m)"

definition trailer_extras :: "Evidence \<Rightarrow> json option \<Rightarrow> (string \<times> json) list" where
  "trailer_extras evidence claims =
     (if ev_profile evidence \<noteq> ''nitro'' then [(''profile'', JString (ev_profile evidence))] else [])
     @ (case ev_pcr0 evidence of Some v \<Rightarrow> [(''pcr0'', JString v)] | None \<Rightarrow> [])
     @ (case ev_pcr8 evidence of Some v \<Rightarrow> [(''pcr8'', JString v)] | None \<Rightarrow> [])
     @ (if ev_measurements evidence \<noteq> [] then [(''measurements'', measurements_json (ev_measurements evidence))] else [])
     @ (case claims of Some c \<Rightarrow> [(''field_claims'', c)] | None \<Rightarrow> [])"

definition local_trailer ::
  "('x) enclave_scheme \<Rightarrow> u8 list \<Rightarrow> ReqHead \<Rightarrow> string \<Rightarrow> string \<Rightarrow> string \<Rightarrow> u16 \<Rightarrow> string \<Rightarrow> string \<Rightarrow> string
    \<Rightarrow> u8 list \<Rightarrow> Evidence \<Rightarrow> json option \<Rightarrow> json" where
  "local_trailer X spki head norm_host norm_path norm_method status ctype rq rs signature evidence claims =
     json_object
       ([(''v'', JNumber (NInt 2)), (''alg'', JString ''ed25519''), (''public_key'', JString (b64_encode X spki)),
         (''nonce'', JString (nonce head)), (''upstream_host'', JString norm_host),
         (''upstream_path'', JString norm_path), (''http_method'', JString norm_method),
         (''http_status'', json_u16 status), (''resp_content_type'', JString ctype),
         (''request_body_sha256'', JString rq), (''response_body_sha256'', JString rs),
         (''signature'', JString (b64_encode X signature)),
         (''attestation'', JString (b64_encode X (ev_attestation evidence)))]
        @ trailer_extras evidence claims)"

definition write_local_attested_trailer ::
  "('x) enclave_scheme \<Rightarrow> world \<Rightarrow> LocalEvidenceBackend \<Rightarrow> ReqHead \<Rightarrow> u8 list \<Rightarrow> string \<Rightarrow> u16 \<Rightarrow> string \<Rightarrow> string \<Rightarrow> string
    \<Rightarrow> json option \<Rightarrow> string \<Rightarrow> string \<Rightarrow> Metrics \<Rightarrow> writer \<Rightarrow> (enclave_error + unit) \<times> Metrics \<times> writer" where
  "write_local_attested_trailer X W backend head nonce_bytes norm_method status ctype rq rs claims norm_host norm_path m w =
     (let statement = build_v2_statement X (nonce head) norm_host norm_path norm_method status ctype rq rs claims;
          signature = ed_sign X (lb_sk backend) statement
      in case lb_attest backend (lb_spki backend) nonce_bytes of
           Inl e \<Rightarrow>
             (case write_proof_unavailable_trailer X head norm_method status ctype rq rs ''attestation_failed''
                     (attest_error_text X e) w of
                (res, w) \<Rightarrow> (res, m, w))
         | Inr evidence \<Rightarrow>
             let m = m\<lparr>nsm_ns_total := nsm_ns_total m + wd_nsm_ns W, nsm_calls := nsm_calls m + 1\<rparr>;
                 trailer = local_trailer X (lb_spki backend) head norm_host norm_path norm_method status ctype
                   rq rs signature evidence claims
             in case io_result WriteTrailer (write_frame w RESP_TRAILER (as_bytes (value_json X trailer))) of
                  (res, w) \<Rightarrow> (res, m, w))"

definition write_aliyun_vtpm_trailer ::
  "('x) enclave_scheme \<Rightarrow> world \<Rightarrow> AliyunBackend \<Rightarrow> ReqHead \<Rightarrow> string \<Rightarrow> u16 \<Rightarrow> string \<Rightarrow> string \<Rightarrow> string
    \<Rightarrow> json option \<Rightarrow> string \<Rightarrow> string \<Rightarrow> writer \<Rightarrow> (enclave_error + unit) \<times> writer" where
  "write_aliyun_vtpm_trailer X W backend head norm_method status ctype rq rs claims norm_host norm_path w =
     (let request = proof_request_new (nonce head) norm_host norm_path norm_method status ctype rq rs claims
      in case request_proof X (wd_unix W) (ab_socket_path backend) request of
           Inl e \<Rightarrow>
             write_proof_unavailable_trailer X head norm_method status ctype rq rs ''attestation_failed''
               (attest_error_text X e) w
         | Inr prf \<Rightarrow> io_result WriteTrailer (write_frame w RESP_TRAILER prf))"

text \<open>The message on an invalid content type, in UTF-8.\<close>

definition invalid_content_type_message :: string where
  "invalid_content_type_message =
     map char_of [0xE4, 0xB8, 0x8A, 0xE6, 0xB8, 0xB8 :: nat] @ '' content-type ''
     @ map char_of [0xE5, 0x90, 0xAB, 0xE9, 0x9D, 0x9E, 0xE6, 0xB3, 0x95 :: nat] @ '' CR/LF''"

definition write_attested_trailer ::
  "('x) enclave_scheme \<Rightarrow> world \<Rightarrow> ProofBackend \<Rightarrow> ReqHead \<Rightarrow> u8 list \<Rightarrow> string \<Rightarrow> u16 \<Rightarrow> string \<Rightarrow> string \<Rightarrow> string
    \<Rightarrow> json option \<Rightarrow> Metrics \<Rightarrow> writer \<Rightarrow> (enclave_error + unit) \<times> Metrics \<times> writer" where
  "write_attested_trailer X W backend head nonce_bytes norm_method status ctype rq rs claims m w =
     (if \<not> no_crlf ctype then
        (case write_proof_unavailable_trailer X head norm_method status ctype rq rs ''invalid_content_type''
                invalid_content_type_message w of
           (res, w) \<Rightarrow> (res, m, w))
      else
        let norm_host = to_lowercase X (up_host (upstream head));
            norm_path = path_no_query (up_path (upstream head))
        in case backend of
             LocalEvidence b \<Rightarrow>
               write_local_attested_trailer X W b head nonce_bytes norm_method status ctype rq rs claims
                 norm_host norm_path m w
           | AliyunVtpm b \<Rightarrow>
               (case write_aliyun_vtpm_trailer X W b head norm_method status ctype rq rs claims norm_host norm_path w of
                  (res, w) \<Rightarrow> (res, m, w)))"

section \<open>The request\<close>

definition read_request ::
  "('x) enclave_scheme \<Rightarrow> reader \<Rightarrow> (enclave_error + (ReqHead \<times> u8 list)) \<times> reader" where
  "read_request X r =
     (case read_frame r MAX_REQ_HEAD of
        (Inl e, r) \<Rightarrow> (Err (ReadHead e), r)
      | (Inr (t1, head_buf), r) \<Rightarrow>
          if t1 \<noteq> REQ_HEAD then (Err (ExpectedReqHead t1), r)
          else
            (case parse_req_head X head_buf of
               None \<Rightarrow> (Err HeadJson, r)
             | Some head \<Rightarrow>
                 (case read_frame r MAX_REQ_FRAME of
                    (Inl e, r) \<Rightarrow> (Err (ReadBody e), r)
                  | (Inr (t2, body), r) \<Rightarrow>
                      if t2 \<noteq> REQ_BODY then (Err (ExpectedReqBody t2), r)
                      else (Ok (head, body), r))))"

definition check_request :: "('x) crypto_scheme \<Rightarrow> ReqHead \<Rightarrow> enclave_error + u8 list" where
  "check_request X head =
     (case b64_decode X (nonce head) of
        None \<Rightarrow> Err NonceBase64
      | Some nonce_bytes \<Rightarrow>
          let up = upstream head
          in if \<not> no_crlf (up_host up) \<or> \<not> no_crlf (up_method up) \<or> \<not> no_crlf (up_path up)
             then Err CrlfUpstream
             else if list_ex (\<lambda>(k, v). \<not> no_crlf k \<or> \<not> no_crlf v) (up_headers up) then Err CrlfHeader
             else
               (case token head of
                  Some tok \<Rightarrow> if \<not> no_crlf tok then Err CrlfToken else Ok nonce_bytes
                | None \<Rightarrow> Ok nonce_bytes))"

section \<open>HTTP/1.1 upstreams\<close>

definition connect_h1 ::
  "world \<Rightarrow> TlsProfile option \<Rightarrow> EgressStream \<Rightarrow> string \<Rightarrow> enclave_error + conn" where
  "connect_h1 W profile sock host =
     (case map_option stack profile of
        Some Boring \<Rightarrow> map_sum BoringEgress id (boring_connect (wd_btls W) (the profile) sock host)
      | Some OpenSsl \<Rightarrow> map_sum OpensslEgress id (openssl_connect (wd_openssl W) (the profile) sock host)
      | _ \<Rightarrow> map_sum RingEgress (rl_stream (wd_rustls W)) (ring_connect (wd_rustls W) sock host))"

definition h1_request_head :: "('x) unicode_scheme \<Rightarrow> ReqHead \<Rightarrow> string \<Rightarrow> nat \<Rightarrow> string" where
  "h1_request_head X head norm_method body_len =
     (let up = upstream head
      in case parse_headers_ordered (up_headers_ordered up) of
           Some ordered \<Rightarrow>
             build_request_head_ordered norm_method (up_path up) (up_host up) ordered (token head) body_len
         | None \<Rightarrow>
             build_request_head_map X norm_method (up_path up) (up_host up) (up_headers up) (token head) body_len)"

definition h1_send :: "string \<Rightarrow> u8 list \<Rightarrow> writer \<Rightarrow> (enclave_error + unit) \<times> writer" where
  "h1_send req body w =
     (case write_all w (as_bytes req) of
        (Inl e, w) \<Rightarrow> (Err (WriteRequestHead e), w)
      | (Inr _, w) \<Rightarrow> io_result WriteRequestBody (write_all w body))"

text \<open>The state of the closure the body is forwarded to; the hasher is the bytes it was given.\<close>

record sink_state =
  ss_hasher :: "u8 list"
  ss_collector :: "field_response_collector option"
  ss_streamed :: nat
  ss_control :: writer

definition body_sink :: "('x) crypto_scheme \<Rightarrow> sink_state sink" where
  "body_sink X bytes st =
     (case io_result WriteRespChunk (write_frame (ss_control st) RESP_CHUNK bytes) of
        (res, w) \<Rightarrow>
          (res, st\<lparr>ss_hasher := ss_hasher st @ bytes,
                   ss_collector := map_option (\<lambda>c. collector_push X c bytes) (ss_collector st),
                   ss_streamed := ss_streamed st + length bytes,
                   ss_control := w\<rparr>))"

definition resp_head_json :: "u16 \<Rightarrow> (string \<times> json) list \<Rightarrow> json" where
  "resp_head_json status headers = json_object [(''status'', json_u16 status), (''headers'', JObject headers)]"

definition finish_claims ::
  "('x) crypto_scheme \<Rightarrow> ReqHead \<Rightarrow> string \<Rightarrow> u16 \<Rightarrow> field_response_collector option \<Rightarrow> json option" where
  "finish_claims X head norm_method status collector =
     Option.bind collector (\<lambda>c. collector_finish X c head norm_method status)"

definition h1_respond ::
  "('x) enclave_scheme \<Rightarrow> world \<Rightarrow> ReqHead \<Rightarrow> u8 list \<Rightarrow> reader \<Rightarrow> writer
    \<Rightarrow> (enclave_error + (Headers \<times> sink_state)) \<times> writer" where
  "h1_respond X W head body r w =
     (case read_until_headers r of
        (Inl e, _) \<Rightarrow> (Err e, w)
      | (Inr (head_bytes, leftover), r) \<Rightarrow>
          (case parse_headers X head_bytes of
             Inl e \<Rightarrow> (Err e, w)
           | Inr h \<Rightarrow>
               (case io_result WriteRespHead (write_frame w RESP_HEAD
                       (as_bytes (value_json X (resp_head_json (hd_status h) (map (map_prod id JString) (hd_headers h)))))) of
                  (Inl e, w) \<Rightarrow> (Err e, w)
                | (Inr _, w) \<Rightarrow>
                    let ctype = (case hd_content_type h of Some c \<Rightarrow> c | None \<Rightarrow> []);
                        st = \<lparr>ss_hasher = [], ss_collector = collector_new X (protocol_env W) head body ctype,
                              ss_streamed = 0, ss_control = w\<rparr>
                    in (case (if hd_chunked h then stream_chunked leftover r (body_sink X) st
                              else stream_plain leftover r (hd_content_length h) (body_sink X) st) of
                          (Inl e, st, _) \<Rightarrow> (Err e, ss_control st)
                        | (Inr _, st, _) \<Rightarrow> (Ok (h, st), ss_control st)))))"

definition handle_h1 ::
  "('x) enclave_scheme \<Rightarrow> world \<Rightarrow> ProofBackend \<Rightarrow> ReqHead \<Rightarrow> u8 list \<Rightarrow> u8 list \<Rightarrow> TlsProfile option \<Rightarrow> EgressStream
    \<Rightarrow> Metrics \<Rightarrow> writer \<Rightarrow> (enclave_error + unit) \<times> Metrics \<times> writer" where
  "handle_h1 X W backend head body nonce_bytes profile sock m w =
     (let norm_method = to_uppercase X (up_method (upstream head))
      in case connect_h1 W profile sock (up_host (upstream head)) of
           Inl e \<Rightarrow> (Err e, m, w)
         | Inr tls \<Rightarrow>
             (case h1_send (h1_request_head X head norm_method (length body)) body (cn_out tls) of
                (Inl e, _) \<Rightarrow> (Err e, m, w)
              | (Inr _, _) \<Rightarrow>
                  (case h1_respond X W head body (cn_in tls) w of
                     (Inl e, w) \<Rightarrow> (Err e, m, w)
                   | (Inr (h, st), w) \<Rightarrow>
                       let m = m\<lparr>resp_bytes_total := resp_bytes_total m + of_nat (ss_streamed st)\<rparr>;
                           ctype = (case hd_content_type h of Some c \<Rightarrow> c | None \<Rightarrow> []);
                           claims = finish_claims X head norm_method (hd_status h) (ss_collector st)
                       in write_attested_trailer X W backend head nonce_bytes norm_method (hd_status h) ctype
                            (sha256_hex X body) (sha256_hex X (ss_hasher st)) claims m w)))"

section \<open>HTTP/2 upstreams\<close>

record h2_sink_state =
  h2s_control :: writer
  h2s_hasher :: "u8 list"
  h2s_collector :: "field_response_collector option"
  h2s_content_type :: string

definition h2_on_head ::
  "('x) enclave_scheme \<Rightarrow> world \<Rightarrow> ReqHead \<Rightarrow> u8 list \<Rightarrow> u16 \<Rightarrow> (string \<times> string) list \<Rightarrow> h2_sink_state
    \<Rightarrow> (enclave_error + unit) \<times> h2_sink_state" where
  "h2_on_head X W head req_body status headers st =
     (let ctype = fold (\<lambda>(name, value) c. if eq_ignore_ascii_case name ''content-type'' then value else c)
                    headers (h2s_content_type st);
          response_headers = fold (\<lambda>(name, value). bt_insert name (JString value)) headers bt_empty
      in case io_result WriteRespHead (write_frame (h2s_control st) RESP_HEAD
                (as_bytes (value_json X (resp_head_json status response_headers)))) of
           (res, w) \<Rightarrow>
             (res, st\<lparr>h2s_control := w, h2s_content_type := ctype,
                      h2s_collector := collector_new X (protocol_env W) head req_body ctype\<rparr>))"

definition h2_on_chunk :: "('x) crypto_scheme \<Rightarrow> h2_sink_state sink" where
  "h2_on_chunk X chunk st =
     (case io_result WriteRespChunk (write_frame (h2s_control st) RESP_CHUNK chunk) of
        (res, w) \<Rightarrow>
          (res, st\<lparr>h2s_hasher := h2s_hasher st @ chunk,
                   h2s_collector := map_option (\<lambda>c. collector_push X c chunk) (h2s_collector st),
                   h2s_control := w\<rparr>))"

definition connect_h2 ::
  "world \<Rightarrow> TlsProfile \<Rightarrow> EgressStream \<Rightarrow> string \<Rightarrow> enclave_error + (rustls_session \<times> H2Settings)" where
  "connect_h2 W profile sock host =
     (case aws_lc_connect (wd_rustls W) profile sock host of
        Inl e \<Rightarrow> Err (RustlsEgress e)
      | Inr tls \<Rightarrow>
          (case rl_handshake (wd_rustls W) tls of
             Some e \<Rightarrow> Err (RustlsHandshake e)
           | None \<Rightarrow>
               if rl_alpn_protocol (wd_rustls W) tls \<noteq> Some (as_bytes ''h2'')
               then Err (NotH2 (rl_alpn_protocol (wd_rustls W) tls))
               else (case h2 profile of None \<Rightarrow> Err MissingH2 | Some fp \<Rightarrow> Ok (tls, fp))))"

definition h2_ordered :: "ReqHead \<Rightarrow> (string \<times> string) list" where
  "h2_ordered head =
     (case parse_headers_ordered (up_headers_ordered (upstream head)) of
        Some ordered \<Rightarrow> ordered
      | None \<Rightarrow> up_headers (upstream head))"

definition handle_h2 ::
  "('x) enclave_scheme \<Rightarrow> world \<Rightarrow> ProofBackend \<Rightarrow> ReqHead \<Rightarrow> u8 list \<Rightarrow> u8 list \<Rightarrow> TlsProfile \<Rightarrow> EgressStream
    \<Rightarrow> Metrics \<Rightarrow> writer \<Rightarrow> (enclave_error + unit) \<times> Metrics \<times> writer" where
  "handle_h2 X W backend head body nonce_bytes profile sock m w =
     (let norm_method = to_uppercase X (up_method (upstream head))
      in case connect_h2 W profile sock (up_host (upstream head)) of
           Inl e \<Rightarrow> (Err e, m, w)
         | Inr (tls, fp) \<Rightarrow>
             (case h2_execute (wd_h2 W) tls fp (up_host (upstream head)) norm_method (up_path (upstream head))
                     (h2_ordered head) (token head) body MAX_RESP (h2_on_head X W head body) (h2_on_chunk X)
                     \<lparr>h2s_control = w, h2s_hasher = [], h2s_collector = None, h2s_content_type = []\<rparr> of
                (Inl e, st) \<Rightarrow> (Err e, m, h2s_control st)
              | (Inr response, st) \<Rightarrow>
                  let m = m\<lparr>resp_bytes_total := resp_bytes_total m + of_nat (hs_body_bytes response)\<rparr>;
                      claims = finish_claims X head norm_method (hs_status response) (h2s_collector st)
                  in write_attested_trailer X W backend head nonce_bytes norm_method (hs_status response)
                       (h2s_content_type st) (sha256_hex X body) (sha256_hex X (h2s_hasher st)) claims m
                       (h2s_control st)))"

section \<open>The exchange\<close>

definition handle ::
  "('x) enclave_scheme \<Rightarrow> world \<Rightarrow> ProofBackend \<Rightarrow> Metrics \<Rightarrow> reader \<Rightarrow> writer
    \<Rightarrow> (enclave_error + unit) \<times> Metrics \<times> writer" where
  "handle X W backend m r w =
     (case read_request X r of
        (Inl e, _) \<Rightarrow> (Err e, m, w)
      | (Inr (head, body), _) \<Rightarrow>
          (case check_request X head of
             Inl e \<Rightarrow> (Err e, m, w)
           | Inr nonce_bytes \<Rightarrow>
               let profile = decode_profile X head
               in case connect_egress (wd_sockets W) (egress_port head) of
                    Inl e \<Rightarrow> (Err (EgressFailed e), m, w)
                  | Inr sock \<Rightarrow>
                      (case profile of
                         Some p \<Rightarrow>
                           if stack p = RustlsAwsLc then handle_h2 X W backend head body nonce_bytes p sock m w
                           else handle_h1 X W backend head body nonce_bytes profile sock m w
                       | None \<Rightarrow> handle_h1 X W backend head body nonce_bytes profile sock m w)))"

end
