(* ===== verification/Handler_Props.thy ===== *)
theory Handler_Props
  imports Handler
begin

text \<open>
  What an exchange writes to the control channel.  The two sinks of the program, the closure of
  \<^verbatim>\<open>handle\<close> and \<^verbatim>\<open>AttestedH2Sink\<close>, meet one contract, the locale
  \<open>forwarding_sink\<close>: what is hashed and collected is what is sent.
\<close>

section \<open>Frames on the control channel\<close>

text \<open>
  What was written between two states of the channel: whole frames and a part of one more.  A channel
  that takes every byte stays one, and nothing is cut on it.
\<close>

definition sent :: "writer \<Rightarrow> writer \<Rightarrow> (u8 \<times> u8 list) list \<Rightarrow> u8 list \<Rightarrow> bool" where
  "sent w w' frames partial \<longleftrightarrow>
     wr_out w' = wr_out w @ concat (map frame_bytes frames) @ partial
     \<and> (wr_budget w = None \<longrightarrow> partial = [] \<and> wr_budget w' = None)"

lemma sent_refl [simp]: "sent w w [] []"
  by (simp add: sent_def)

lemma sent_trans: "sent w w1 fs [] \<Longrightarrow> sent w1 w2 gs p \<Longrightarrow> sent w w2 (fs @ gs) p"
  by (simp add: sent_def)

lemma write_all_Err:
  "write_all w bs = (Inl e, w') \<Longrightarrow> \<exists>k<length bs. wr_out w' = wr_out w @ take k bs"
  by (auto simp: write_all_def not_le split: option.splits if_splits)

lemma write_frame_Err:
  assumes "write_frame w t data = (Inl e, w')"
  shows "\<exists>p. sent w w' [] p \<and> strict_prefix p (frame_bytes (t, data))"
proof -
  let ?h = "t # nat_be 4 (length data)"
  have limited: "wr_budget w \<noteq> None" using assms write_frame_unlimited [of w t data] by (cases "wr_budget w") simp_all
  have cut: "strict_prefix (take k ?h) (?h @ data)" if "k < length ?h" for k
    using that by (metis append_take_drop_id drop_eq_Nil not_less prefix_order.less_le_trans prefixI
        strict_prefixI' take_strict_prefix append_Nil2 same_append_eq prefix_order.neq_le_trans append.assoc)
  obtain r1 w1 where h: "write_all w ?h = (r1, w1)" by fastforce
  show ?thesis
  proof (cases r1)
    case (Inl e1)
    with h assms have "w' = w1" by (simp add: write_frame_def)
    with write_all_Err h Inl obtain k where "k < length ?h" "wr_out w' = wr_out w @ take k ?h" by blast
    with cut limited show ?thesis by (intro exI [of _ "take k ?h"]) (auto simp: sent_def)
  next
    case (Inr u)
    with h assms have "write_all w1 data = (Inl e, w')" by (simp add: write_frame_def)
    then obtain k where k: "k < length data" "wr_out w' = wr_out w1 @ take k data" using write_all_Err by blast
    have "strict_prefix (?h @ take k data) (?h @ data)"
      using k(1) by (metis append_eq_conv_conj drop_eq_Nil not_less prefix_order.dual_order.strict_iff_order
          same_append_eq same_prefix_prefix take_is_prefix append_take_drop_id append_Nil2)
    with k limited write_all_Ok [of w ?h u w1] h Inr show ?thesis
      by (intro exI [of _ "?h @ take k data"]) (auto simp: sent_def)
  qed
qed

lemma io_result_Inr: "io_result f res = (Inr u, w) \<longleftrightarrow> res = (Inr u, w)"
  by (cases res; cases "fst res") (auto simp: io_result_def)

lemma io_result_Inl: "io_result f res = (Inl e, w) \<longleftrightarrow> (\<exists>k. res = (Inl k, w) \<and> e = f k)"
  by (cases res; cases "fst res") (auto simp: io_result_def)

lemma io_result_eq: "io_result f res = (v, w) \<Longrightarrow> \<exists>ior. res = (ior, w) \<and> (\<forall>u. ior = Inr u \<longleftrightarrow> v = Inr u)"
  by (cases res; cases "fst res") (auto simp: io_result_def)

lemma write_frame_Ok: "write_frame w t data = (Inr u, w') \<Longrightarrow> sent w w' [(t, data)] []"
  using write_frame_out [of w t data u w'] write_frame_unlimited [of w t data] by (auto simp: sent_def)

text \<open>What a failed exchange leaves: whole frames of the response and at most a part of one frame.\<close>

definition broken :: "writer \<Rightarrow> writer \<Rightarrow> bool" where
  "broken w w' \<longleftrightarrow>
     (\<exists>frames partial. sent w w' frames partial \<and> (\<forall>f\<in>set frames. fst f \<in> {RESP_HEAD, RESP_CHUNK})
        \<and> (partial = [] \<or> (\<exists>f. strict_prefix partial (frame_bytes f))))"

lemma broken_refl [simp]: "broken w w"
  unfolding broken_def by (rule exI [of _ "[]"], rule exI [of _ "[]"]) simp

lemma brokenI:
  "sent w w1 fs [] \<Longrightarrow> \<forall>f\<in>set fs. fst f \<in> {RESP_HEAD, RESP_CHUNK} \<Longrightarrow> sent w1 w2 [] p \<Longrightarrow>
    strict_prefix p (frame_bytes f) \<Longrightarrow> broken w w2"
  unfolding broken_def by (metis sent_trans append_Nil2)

lemma broken_after:
  "sent w w1 fs [] \<Longrightarrow> \<forall>f\<in>set fs. fst f \<in> {RESP_HEAD, RESP_CHUNK} \<Longrightarrow> broken w1 w2 \<Longrightarrow> broken w w2"
  unfolding broken_def by (metis sent_trans Un_iff set_append)

lemma broken_write: "write_frame w t data = (Inl e, w') \<Longrightarrow> broken w w'"
  using write_frame_Err [of w t data e w'] brokenI [of w w "[]"] by auto

section \<open>The contract of a sink\<close>

locale forwarding_sink =
  fixes X :: "('x) crypto_scheme"
    and sink :: "'st sink"
    and hashed :: "'st \<Rightarrow> u8 list"
    and collector :: "'st \<Rightarrow> field_response_collector option"
    and control :: "'st \<Rightarrow> writer"
  assumes sink_hashed: "sink bs st = (res, st') \<Longrightarrow> hashed st' = hashed st @ bs"
    and sink_collected: "sink bs st = (res, st') \<Longrightarrow>
      collector st' = map_option (\<lambda>c. collector_push X c bs) (collector st)"
    and sink_writes: "sink bs st = (res, st') \<Longrightarrow>
      \<exists>ior. write_frame (control st) RESP_CHUNK bs = (ior, control st') \<and> (\<forall>u. ior = Inr u \<longleftrightarrow> res = Inr u)"
begin

lemma feed_Ok:
  "feed sink chunks st = (Inr u, st') \<Longrightarrow>
    hashed st' = hashed st @ concat chunks
    \<and> collector st' = map_option (\<lambda>c. foldl (collector_push X) c chunks) (collector st)
    \<and> sent (control st) (control st') (map (Pair RESP_CHUNK) chunks) []"
proof (induction chunks arbitrary: st)
  case Nil
  then show ?case by (cases "collector st") simp_all
next
  case (Cons c cs)
  obtain v st1 where sk: "sink c st = (v, st1)" by fastforce
  with Cons.prems have v: "v = Inr ()" and fd: "feed sink cs st1 = (Inr u, st')" by (cases v; simp)+
  from sink_writes [OF sk] v have "write_frame (control st) RESP_CHUNK c = (Inr (), control st1)" by auto
  then have "sent (control st) (control st1) [(RESP_CHUNK, c)] []" by (rule write_frame_Ok)
  from sent_trans [OF this] Cons.IH [OF fd] sink_hashed [OF sk] sink_collected [OF sk] show ?case
    by (cases "collector st") auto
qed

lemma feed_Err: "feed sink chunks st = (Inl e, st') \<Longrightarrow> broken (control st) (control st')"
proof (induction chunks arbitrary: st)
  case (Cons c cs)
  obtain v st1 where sk: "sink c st = (v, st1)" by fastforce
  from sink_writes [OF sk] obtain ior
    where w: "write_frame (control st) RESP_CHUNK c = (ior, control st1)" "\<And>u. ior = Inr u \<longleftrightarrow> v = Inr u" by auto
  show ?case
  proof (cases v)
    case (Inl e1)
    with w obtain k where "ior = Inl k" by (cases ior) auto
    with w(1) broken_write have "broken (control st) (control st1)" by blast
    with Cons.prems sk Inl show ?thesis by simp
  next
    case (Inr u)
    with w have "write_frame (control st) RESP_CHUNK c = (Inr u, control st1)" by auto
    from broken_after [OF write_frame_Ok [OF this]] Cons.IH [of st1] Cons.prems sk Inr show ?thesis by simp
  qed
qed simp

lemma feed_broken: "feed sink chunks st = (res, st') \<Longrightarrow> broken (control st) (control st')"
proof (cases res)
  case (Inr u)
  assume "feed sink chunks st = (res, st')"
  with Inr feed_Ok have "sent (control st) (control st') (map (Pair RESP_CHUNK) chunks) []" by blast
  from broken_after [OF this] show ?thesis by auto
qed (use feed_Err in blast)

lemma feed_budget: "feed sink chunks st = (v, st') \<Longrightarrow> wr_budget (control st) = None \<Longrightarrow> wr_budget (control st') = None"
proof (induction chunks arbitrary: st)
  case (Cons c cs)
  obtain v1 st1 where sk: "sink c st = (v1, st1)" by fastforce
  from sink_writes [OF sk] Cons.prems(2)
  have "v1 = Inr ()" "control st1 = (control st)\<lparr>wr_out := wr_out (control st) @ frame_bytes (RESP_CHUNK, c)\<rparr>"
    by (auto simp: write_frame_unlimited)
  with Cons sk show ?case by simp
qed simp

lemma feed_unlimited: "wr_budget (control st) = None \<Longrightarrow> \<exists>st'. feed sink chunks st = (Ok (), st')"
proof (induction chunks arbitrary: st)
  case (Cons c cs)
  obtain v st1 where sk: "sink c st = (v, st1)" by fastforce
  from sink_writes [OF sk] Cons.prems
  have "v = Inr ()" "control st1 = (control st)\<lparr>wr_out := wr_out (control st) @ frame_bytes (RESP_CHUNK, c)\<rparr>"
    by (auto simp: write_frame_unlimited)
  then have "v = Inr ()" "wr_budget (control st1) = None" using Cons.prems by simp_all
  with Cons.IH sk show ?case by simp
qed simp

end

interpretation h1_sink: forwarding_sink X "body_sink X" ss_hasher ss_collector ss_control for X :: "('x) crypto_scheme"
  by unfold_locales (auto simp: body_sink_def split: prod.splits dest!: io_result_eq)

interpretation h2_sink: forwarding_sink X "h2_on_chunk X" h2s_hasher h2s_collector h2s_control
  for X :: "('x) crypto_scheme"
  by unfold_locales (auto simp: h2_on_chunk_def split: prod.splits dest!: io_result_eq)

section \<open>Forwarding a response\<close>

text \<open>The chunks as frames, and what the collector has after them.\<close>

definition response_frames :: "u8 list \<Rightarrow> u8 list list \<Rightarrow> (u8 \<times> u8 list) list" where
  "response_frames hdr chunks = (RESP_HEAD, hdr) # map (Pair RESP_CHUNK) chunks"

lemma response_frames_types: "\<forall>f\<in>set (response_frames hdr chunks). fst f \<in> {RESP_HEAD, RESP_CHUNK}"
  by (auto simp: response_frames_def)

lemma sent_response:
  "sent w w1 [(RESP_HEAD, hdr)] [] \<Longrightarrow> sent w1 w2 (map (Pair RESP_CHUNK) chunks) [] \<Longrightarrow>
    sent w w2 (response_frames hdr chunks) []"
  using sent_trans [of w w1 "[(RESP_HEAD, hdr)]" w2] by (simp add: response_frames_def)

lemma finish_claims_collect:
  "finish_claims X head norm_method status
     (map_option (\<lambda>c. foldl (collector_push X) c chunks) (collector_new X env head body ctype))
   = collect X env head body ctype chunks norm_method status"
  by (simp add: finish_claims_def collect_def split: option.split)

abbreviation content_type_of :: "Headers \<Rightarrow> string" where
  "content_type_of h \<equiv> (case hd_content_type h of Some c \<Rightarrow> c | None \<Rightarrow> [])"

definition h1_stream ::
  "Headers \<Rightarrow> u8 list \<Rightarrow> reader \<Rightarrow> 'st sink \<Rightarrow> 'st \<Rightarrow> (enclave_error + unit) \<times> 'st \<times> reader" where
  "h1_stream h leftover r sink st =
     (if hd_chunked h then stream_chunked leftover r sink st else stream_plain leftover r (hd_content_length h) sink st)"

lemma h1_stream_feed:
  "\<exists>chunks res r'. h1_stream h leftover r rec_sink [] = (res, chunks, r')
     \<and> (\<forall>(sink :: 'st sink) st. fed chunks res r' sink st (h1_stream h leftover r sink st))"
  using stream_chunked_feed [of leftover r, where 'st = 'st]
    stream_plain_feed [of leftover r "hd_content_length h", where 'st = 'st]
  by (simp add: h1_stream_def)

definition h1_head_bytes :: "('x) serde_scheme \<Rightarrow> Headers \<Rightarrow> u8 list" where
  "h1_head_bytes X h =
     as_bytes (value_json X (resp_head_json (hd_status h) (map (map_prod id JString) (hd_headers h))))"

definition h1_sink_start :: "('x) enclave_scheme \<Rightarrow> world \<Rightarrow> ReqHead \<Rightarrow> u8 list \<Rightarrow> Headers \<Rightarrow> writer \<Rightarrow> sink_state" where
  "h1_sink_start X W head body h w =
     \<lparr>ss_hasher = [], ss_collector = collector_new X (protocol_env W) head body (content_type_of h),
      ss_streamed = 0, ss_control = w\<rparr>"

text \<open>
  What the head frame tells the client: the status and, as the end of the text of a content-type header,
  the content type that are signed later.
\<close>

definition announces :: "('x) serde_scheme \<Rightarrow> u8 list \<Rightarrow> u16 \<Rightarrow> string \<Rightarrow> bool" where
  "announces X hdr status ctype \<longleftrightarrow>
     (\<exists>headers. hdr = as_bytes (value_json X (resp_head_json status headers))
        \<and> (ctype = [] \<or> (\<exists>name v. (name, JString v) \<in> set headers \<and> eq_ignore_ascii_case name ''content-type''
                          \<and> suffix ctype v)))"

definition content_type_kept :: "Headers \<Rightarrow> bool" where
  "content_type_kept h \<longleftrightarrow>
     (\<forall>c. hd_content_type h = Some c \<longrightarrow> (\<exists>v. bt_get (hd_headers h) ''content-type'' = Some v \<and> suffix c v))"

lemma parse_header_line_kept: "content_type_kept h \<Longrightarrow> content_type_kept (parse_header_line X h line)"
  by (auto simp: parse_header_line_def content_type_kept_def Let_def bt_simps suffix_def split: option.splits)

lemma parse_headers_kept:
  assumes "parse_headers X head = Inr h"
  shows "content_type_kept h"
proof -
  have "content_type_kept h0 \<Longrightarrow> content_type_kept (foldl (parse_header_line X) h0 ls)" for h0 ls
    by (induction ls arbitrary: h0) (simp_all add: parse_header_line_kept)
  with assms show ?thesis by (auto simp: parse_headers_def content_type_kept_def Let_def split: option.splits)
qed

lemma eq_ignore_ascii_case_refl [simp]: "eq_ignore_ascii_case s s"
  by (simp add: eq_ignore_ascii_case_def)

lemma bt_get_member: "bt_get m k = Some v \<Longrightarrow> (k, v) \<in> set m"
  by (simp add: bt_get_def map_of_SomeD)

lemma h1_announces:
  assumes "parse_headers X head = Inr h"
  shows "announces X (h1_head_bytes X h) (hd_status h) (content_type_of h)"
proof (cases "hd_content_type h")
  case (Some c)
  with parse_headers_kept [OF assms] obtain v where "bt_get (hd_headers h) ''content-type'' = Some v" "suffix c v"
    by (auto simp: content_type_kept_def)
  then have "(''content-type'', JString v) \<in> set (map (map_prod id JString) (hd_headers h))" "suffix c v"
    by (force dest: bt_get_member)+
  with Some show ?thesis unfolding announces_def h1_head_bytes_def using eq_ignore_ascii_case_refl by fastforce
qed (auto simp: announces_def h1_head_bytes_def)

text \<open>The loop over the response headers of HTTP/2 keeps the content type among the headers.\<close>

lemma h2_headers_kept:
  assumes "c0 = [] \<or> (\<exists>name. bt_get m0 name = Some (JString c0) \<and> eq_ignore_ascii_case name ''content-type'')"
    and "c = fold (\<lambda>(name, value) c. if eq_ignore_ascii_case name ''content-type'' then value else c) headers c0"
    and "m = fold (\<lambda>(name, value). bt_insert name (JString value)) headers m0"
  shows "c = [] \<or> (\<exists>name. bt_get m name = Some (JString c) \<and> eq_ignore_ascii_case name ''content-type'')"
  using assms
proof (induction headers arbitrary: c0 m0)
  case (Cons kv headers)
  obtain k v where "kv = (k, v)" by (cases kv)
  with Cons.prems show ?case
    by (intro Cons.IH [of "if eq_ignore_ascii_case k ''content-type'' then v else c0" "bt_insert k (JString v) m0"])
      (auto simp: bt_simps)
qed simp

lemma h1_respond_eq:
  "h1_respond X W head body r w =
     (case read_until_headers r of
        (Inl e, _) \<Rightarrow> (Err e, w)
      | (Inr (head_bytes, leftover), r) \<Rightarrow>
          (case parse_headers X head_bytes of
             Inl e \<Rightarrow> (Err e, w)
           | Inr h \<Rightarrow>
               (case io_result WriteRespHead (write_frame w RESP_HEAD (h1_head_bytes X h)) of
                  (Inl e, w) \<Rightarrow> (Err e, w)
                | (Inr _, w) \<Rightarrow>
                    (case h1_stream h leftover r (body_sink X) (h1_sink_start X W head body h w) of
                       (Inl e, st, _) \<Rightarrow> (Err e, ss_control st)
                     | (Inr _, st, _) \<Rightarrow> (Ok (h, st), ss_control st)))))"
  unfolding h1_respond_def h1_stream_def h1_head_bytes_def h1_sink_start_def Let_def by (rule refl)

lemma h1_respond_Ok:
  assumes "h1_respond X W head body r w = (Inr (h, st), w')"
  obtains chunks where "sent w w' (response_frames (h1_head_bytes X h) chunks) []"
    "announces X (h1_head_bytes X h) (hd_status h) (content_type_of h)"
    "ss_hasher st = concat chunks" "w' = ss_control st"
    "finish_claims X head norm_method status (ss_collector st)
       = collect X (protocol_env W) head body (content_type_of h) chunks norm_method status"
proof -
  obtain head_bytes leftover r1 where r1: "read_until_headers r = (Inr (head_bytes, leftover), r1)"
    using assms by (auto simp: h1_respond_eq split: prod.splits sum.splits)
  obtain w1 r2 where w1: "write_frame w RESP_HEAD (h1_head_bytes X h) = (Inr (), w1)"
      and strm: "h1_stream h leftover r1 (body_sink X) (h1_sink_start X W head body h w1) = (Inr (), st, r2)"
      and "w' = ss_control st" and ann: "announces X (h1_head_bytes X h) (hd_status h) (content_type_of h)"
    using assms r1 by (auto simp: h1_respond_eq io_result_Inr split: prod.splits sum.splits dest: h1_announces)
  obtain chunks res r3 where "h1_stream h leftover r1 rec_sink [] = (res, chunks, r3)"
      and fed: "fed chunks res r3 (body_sink X) (h1_sink_start X W head body h w1)
        (h1_stream h leftover r1 (body_sink X) (h1_sink_start X W head body h w1))"
    using h1_stream_feed [of h leftover r1, where 'st = sink_state] by auto
  have "feed (body_sink X) chunks (h1_sink_start X W head body h w1) = (Inr (), st)"
    using iffD1 [OF fed_Ok [OF fed] strm] by simp
  from h1_sink.feed_Ok [OF this]
  have st: "ss_hasher st = concat chunks" "sent w1 (ss_control st) (map (Pair RESP_CHUNK) chunks) []"
    "ss_collector st = map_option (\<lambda>c. foldl (collector_push X) c chunks)
       (collector_new X (protocol_env W) head body (content_type_of h))"
    by (simp_all add: h1_sink_start_def)
  show ?thesis
  proof (rule that [of chunks])
    show "sent w w' (response_frames (h1_head_bytes X h) chunks) []"
      using sent_response [OF write_frame_Ok [OF w1] st(2)] \<open>w' = ss_control st\<close> by simp
  qed (simp_all add: ann st \<open>w' = ss_control st\<close> finish_claims_collect)
qed

lemma h1_respond_Err:
  assumes "h1_respond X W head body r w = (Inl e, w')"
  shows "broken w w'"
proof -
  obtain rd r1 where r1: "read_until_headers r = (rd, r1)" by fastforce
  consider (quiet) "w' = w"
    | (head) h k where "write_frame w RESP_HEAD (h1_head_bytes X h) = (Inl k, w')"
    | (body) h leftover w1 r2 e1 st where "write_frame w RESP_HEAD (h1_head_bytes X h) = (Inr (), w1)"
        "h1_stream h leftover r1 (body_sink X) (h1_sink_start X W head body h w1) = (Inl e1, st, r2)" "w' = ss_control st"
    using assms r1 by (auto simp: h1_respond_eq io_result_Inr io_result_Inl split: prod.splits sum.splits)
  then show ?thesis
  proof cases
    case (body h leftover w1 r2 e1 st)
    let ?st = "h1_sink_start X W head body h w1"
    obtain chunks res r3 where fed: "fed chunks res r3 (body_sink X) ?st (Inl e1, st, r2)"
      using h1_stream_feed [of h leftover r1, where 'st = sink_state] body(2) by metis
    obtain v where "feed (body_sink X) chunks ?st = (v, st)"
      using fed by (cases "feed (body_sink X) chunks ?st"; cases "fst (feed (body_sink X) chunks ?st)") (auto simp: fed_def)
    from h1_sink.feed_broken [OF this] have "broken w1 w'" using body(3) by (simp add: h1_sink_start_def)
    from broken_after [OF write_frame_Ok [OF body(1)] _ this] show ?thesis by simp
  qed (simp_all add: broken_write)
qed

section \<open>The HTTP/2 path\<close>

lemma h2_recv_loop_feed:
  assumes "h2_recv_loop L limit sink tot st frames = (res, st')"
  shows "\<exists>chunks v. feed sink chunks st = (v, st')
    \<and> (\<forall>t. res = Inr t \<longrightarrow> v = Inr () \<and> frames = map Inr chunks \<and> t = tot + length (concat chunks) \<and> t \<le> max limit tot)"
  using assms
proof (induction L limit sink tot st frames rule: h2_recv_loop.induct)
  case (1 L limit sink tot st)
  then show ?case by (intro exI [of _ "[]"]) auto
next
  case (2 L limit sink tot st e frames)
  then show ?case by (intro exI [of _ "[]"]) auto
next
  case (3 L limit sink tot st chunk frames)
  obtain v st1 where sk: "sink chunk st = (v, st1)" by fastforce
  show ?case
  proof (cases "2 ^ 64 \<le> tot + length chunk \<or> limit < tot + length chunk")
    case True
    with 3(2) show ?thesis by (intro exI [of _ "[]"]) (auto split: if_splits)
  next
    case False
    note small = this
    show ?thesis
    proof (cases "v = Inr () \<and> h2_release L (length chunk) = None")
      case True
      with 3(2) sk small have "h2_recv_loop L limit sink (tot + length chunk) st1 frames = (res, st')" by simp
      with 3(1) [OF _ _ sk [symmetric] _ _] True small obtain chunks w
        where IH: "feed sink chunks st1 = (w, st')"
          "\<And>t. res = Inr t \<Longrightarrow> w = Inr () \<and> frames = map Inr chunks \<and> t = tot + length chunk + length (concat chunks)
             \<and> t \<le> max limit (tot + length chunk)" by auto
      have "feed sink (chunk # chunks) st = (w, st')" using sk True IH(1) by simp
      moreover have "w = Inr () \<and> Inr chunk # frames = map Inr (chunk # chunks)
          \<and> t = tot + length (concat (chunk # chunks)) \<and> t \<le> max limit tot" if t: "res = Inr t" for t
        using IH(2) [OF t] small by auto
      ultimately show ?thesis by blast
    next
      case False
      with 3(2) sk small have "st' = st1" "\<exists>e. res = Inl e" by (auto split: sum.splits option.splits)
      then show ?thesis using sk by (intro exI [of _ "[chunk]"] exI [of _ v]) (cases v; auto)
    qed
  qed
qed

lemma map_sum_Inr: "map_sum f g r = Inr y \<longleftrightarrow> (\<exists>x. r = Inr x \<and> y = g x)"
  by (cases r) auto

lemma h2_join_Inr: "h2_join d res = Inr x \<longleftrightarrow> res = Inr x \<and> d = DriverOk"
  by (cases res; cases d) (simp_all add: h2_join_def)

lemma h2_execute_result:
  assumes "h2_execute L io fp host meth path ordered tok body limit on_head on_chunk st = (res, st')"
  shows "(\<exists>e. res = Inl e \<and> st' = st)
    \<or> (\<exists>res'. h2_exchange L body limit on_head on_chunk st = (res', st') \<and> res = h2_join (h2_driver L) res')"
  using assms by (auto simp: h2_execute_def split: sum.splits option.splits prod.splits)

lemma h2_exchange_result:
  assumes "h2_exchange L body limit on_head on_chunk st = (res, st')"
  shows "(\<exists>e. res = Inl e \<and> st' = st)
    \<or> (\<exists>status headers v st1. on_head status headers st = (v, st1)
        \<and> (v \<noteq> Inr () \<longrightarrow> st' = st1 \<and> (\<exists>e. res = Inl e))
        \<and> (v = Inr () \<longrightarrow> (\<exists>r. h2_recv_loop L limit on_chunk 0 st1 (h2_data L) = (r, st')
             \<and> map_sum id (\<lambda>t. \<lparr>hs_status = status, hs_body_bytes = t\<rparr>) r = res)))"
proof -
  consider (early) e where "res = Inl e" "st' = st"
    | (head) status raw where "h2_response L = Inr (status, raw)" "\<exists>sb. h2_send_body L body 0 [] (h2_capacity L) = Inr sb"
    using assms by (auto simp: h2_exchange_def split: sum.splits)
  then show ?thesis
  proof cases
    case (head status raw)
    let ?hs = "map (\<lambda>(k, v). (k, from_utf8_lossy v)) raw"
    obtain v st1 where oh: "on_head status ?hs st = (v, st1)" by fastforce
    obtain r st2 where rl: "h2_recv_loop L limit on_chunk 0 st1 (h2_data L) = (r, st2)" by fastforce
    have "v \<noteq> Inr () \<longrightarrow> st' = st1 \<and> (\<exists>e. res = Inl e)"
      using assms head oh by (cases v) (auto simp: h2_exchange_def)
    moreover have "v = Inr () \<longrightarrow> st2 = st' \<and> map_sum id (\<lambda>t. \<lparr>hs_status = status, hs_body_bytes = t\<rparr>) r = res"
      using assms head oh rl by (cases r) (auto simp: h2_exchange_def)
    ultimately show ?thesis using oh rl by blast
  qed simp
qed

definition h2_sink_start :: "writer \<Rightarrow> h2_sink_state" where
  "h2_sink_start w = \<lparr>h2s_control = w, h2s_hasher = [], h2s_collector = None, h2s_content_type = []\<rparr>"

lemma h2_on_head_result:
  assumes "h2_on_head X W head body status headers st = (v, st1)"
  obtains hdr ior where "write_frame (h2s_control st) RESP_HEAD hdr = (ior, h2s_control st1)" "\<And>u. ior = Inr u \<longleftrightarrow> v = Inr u"
    "h2s_hasher st1 = h2s_hasher st"
    "h2s_collector st1 = collector_new X (protocol_env W) head body (h2s_content_type st1)"
    "h2s_content_type st = [] \<Longrightarrow> announces X hdr status (h2s_content_type st1)"
proof -
  define c where "c = fold (\<lambda>(name, value) c. if eq_ignore_ascii_case name ''content-type'' then value else c) headers
    (h2s_content_type st)"
  define m where "m = fold (\<lambda>(name, value). bt_insert name (JString value)) headers bt_empty"
  let ?hdr = "as_bytes (value_json X (resp_head_json status m))"
  obtain w where io: "io_result WriteRespHead (write_frame (h2s_control st) RESP_HEAD ?hdr) = (v, w)"
      and st1: "st1 = st\<lparr>h2s_control := w, h2s_content_type := c, h2s_collector := collector_new X (protocol_env W) head body c\<rparr>"
    using assms by (auto simp: h2_on_head_def Let_def c_def m_def split: prod.splits)
  from io_result_eq [OF io] obtain ior where "write_frame (h2s_control st) RESP_HEAD ?hdr = (ior, w)" "\<forall>u. ior = Inr u \<longleftrightarrow> v = Inr u"
    by blast
  moreover have "announces X ?hdr status c" if "h2s_content_type st = []"
    using h2_headers_kept [OF _ c_def m_def] that unfolding announces_def
    by (metis bt_get_member suffix_order.order_refl)
  ultimately show ?thesis using that [of ?hdr ior] by (simp add: st1)
qed

lemma h2_on_chunk_content_type: "h2_on_chunk X bs st = (v, st') \<Longrightarrow> h2s_content_type st' = h2s_content_type st"
  by (auto simp: h2_on_chunk_def split: prod.splits)

lemma feed_h2_content_type: "feed (h2_on_chunk X) chunks st = (v, st') \<Longrightarrow> h2s_content_type st' = h2s_content_type st"
proof (induction chunks arbitrary: st)
  case (Cons c cs)
  obtain v1 st1 where sk: "h2_on_chunk X c st = (v1, st1)" by fastforce
  with Cons show ?case by (cases v1) (auto dest: h2_on_chunk_content_type)
qed simp

lemma h2_respond_Ok:
  assumes "h2_execute L io fp host meth path ordered tok body limit (h2_on_head X W head body) (h2_on_chunk X)
    (h2_sink_start w) = (Inr resp, st)"
  obtains hdr chunks where "sent w (h2s_control st) (response_frames hdr chunks) []"
    "announces X hdr (hs_status resp) (h2s_content_type st)" "h2_data L = map Inr chunks"
    "h2s_hasher st = concat chunks" "hs_body_bytes resp = length (concat chunks)" "length (concat chunks) \<le> limit"
    "finish_claims X head norm_method (hs_status resp) (h2s_collector st)
       = collect X (protocol_env W) head body (h2s_content_type st) chunks norm_method (hs_status resp)"
proof -
  have "h2_exchange L body limit (h2_on_head X W head body) (h2_on_chunk X) (h2_sink_start w) = (Inr resp, st)"
    using h2_execute_result [OF assms] by (auto simp: h2_join_Inr dest: sym)
  from h2_exchange_result [OF this] obtain status headers st1 t
    where oh: "h2_on_head X W head body status headers (h2_sink_start w) = (Inr (), st1)"
      and rl: "h2_recv_loop L limit (h2_on_chunk X) 0 st1 (h2_data L) = (Inr t, st)" and t: "hs_body_bytes resp = t"
      and status: "hs_status resp = status"
    by (auto simp: map_sum_Inr)
  obtain hdr where hdr: "write_frame w RESP_HEAD hdr = (Inr (), h2s_control st1)" "h2s_hasher st1 = []"
      "h2s_collector st1 = collector_new X (protocol_env W) head body (h2s_content_type st1)"
      "announces X hdr status (h2s_content_type st1)"
    by (rule h2_on_head_result [OF oh]) (simp add: h2_sink_start_def)
  obtain chunks where fd: "feed (h2_on_chunk X) chunks st1 = (Inr (), st)" and tot: "t = length (concat chunks)" "t \<le> limit"
      "h2_data L = map Inr chunks"
    using h2_recv_loop_feed [OF rl] by auto
  note st = h2_sink.feed_Ok [OF fd] and ct = feed_h2_content_type [OF fd]
  show ?thesis
  proof (rule that [of hdr chunks])
    show "sent w (h2s_control st) (response_frames hdr chunks) []"
      using sent_response [OF write_frame_Ok [OF hdr(1)]] st by blast
  qed (use st ct hdr t tot status in \<open>simp_all add: finish_claims_collect\<close>)
qed

lemma h2_respond_Err:
  assumes "h2_execute L io fp host meth path ordered tok body limit (h2_on_head X W head body) (h2_on_chunk X)
    (h2_sink_start w) = (Inl e, st)"
  shows "broken w (h2s_control st)"
proof -
  have w: "h2s_control (h2_sink_start w) = w" by (simp add: h2_sink_start_def)
  show ?thesis
  proof (cases "st = h2_sink_start w")
    case True
    with w show ?thesis by simp
  next
    case False
    with h2_execute_result [OF assms] obtain res
      where "h2_exchange L body limit (h2_on_head X W head body) (h2_on_chunk X) (h2_sink_start w) = (res, st)" by auto
    from h2_exchange_result [OF this] False obtain status headers v st1
      where oh: "h2_on_head X W head body status headers (h2_sink_start w) = (v, st1)"
        and bad: "v \<noteq> Inr () \<Longrightarrow> st = st1"
        and rl: "v = Inr () \<Longrightarrow> \<exists>r. h2_recv_loop L limit (h2_on_chunk X) 0 st1 (h2_data L) = (r, st)"
      by blast
    obtain hdr ior
      where hdr: "write_frame w RESP_HEAD hdr = (ior, h2s_control st1)" "\<And>u. ior = Inr u \<longleftrightarrow> v = Inr u"
      using w by (metis h2_on_head_result [OF oh])
    show ?thesis
    proof (cases "v = Inr ()")
      case True
      with rl obtain r where "h2_recv_loop L limit (h2_on_chunk X) 0 st1 (h2_data L) = (r, st)" by blast
      from h2_recv_loop_feed [OF this] obtain chunks x where "feed (h2_on_chunk X) chunks st1 = (x, st)" by blast
      from h2_sink.feed_broken [OF this] hdr True show ?thesis
        using broken_after [OF write_frame_Ok] by fastforce
    next
      case False
      with hdr obtain k where "ior = Inl k" by (cases ior) auto
      with hdr(1) bad [OF False] broken_write show ?thesis by blast
    qed
  qed
qed

section \<open>The trailer\<close>

text \<open>The payload of the trailer, as a function of the exchange.\<close>

definition unavailable_payload ::
  "('x) serde_scheme \<Rightarrow> ReqHead \<Rightarrow> string \<Rightarrow> u16 \<Rightarrow> string \<Rightarrow> string \<Rightarrow> string \<Rightarrow> string \<Rightarrow> string \<Rightarrow> u8 list" where
  "unavailable_payload X head norm_method status ctype rq rs code message =
     as_bytes (value_json X (build_proof_unavailable_payload head norm_method status ctype rq rs code message))"

definition trailer_payload ::
  "('x) enclave_scheme \<Rightarrow> world \<Rightarrow> ProofBackend \<Rightarrow> ReqHead \<Rightarrow> u8 list \<Rightarrow> string \<Rightarrow> u16 \<Rightarrow> string \<Rightarrow> string \<Rightarrow> string
    \<Rightarrow> json option \<Rightarrow> u8 list" where
  "trailer_payload X W backend head nonce_bytes norm_method status ctype rq rs claims =
     (let norm_host = to_lowercase X (up_host (upstream head));
          norm_path = path_no_query (up_path (upstream head))
      in if \<not> no_crlf ctype
         then unavailable_payload X head norm_method status ctype rq rs ''invalid_content_type'' invalid_content_type_message
         else
           (case backend of
              LocalEvidence b \<Rightarrow>
                (case lb_attest b (lb_spki b) nonce_bytes of
                   Inl e \<Rightarrow>
                     unavailable_payload X head norm_method status ctype rq rs ''attestation_failed'' (attest_error_text X e)
                 | Inr evidence \<Rightarrow>
                     as_bytes (value_json X (local_trailer X (lb_spki b) head norm_host norm_path norm_method status ctype rq rs
                       (ed_sign X (lb_sk b)
                         (build_v2_statement X (nonce head) norm_host norm_path norm_method status ctype rq rs claims))
                       evidence claims)))
            | AliyunVtpm b \<Rightarrow>
                (case request_proof X (wd_unix W) (ab_socket_path b)
                        (proof_request_new (nonce head) norm_host norm_path norm_method status ctype rq rs claims) of
                   Inl e \<Rightarrow>
                     unavailable_payload X head norm_method status ctype rq rs ''attestation_failed'' (attest_error_text X e)
                 | Inr prf \<Rightarrow> prf)))"

lemma write_attested_trailer_writes:
  assumes "write_attested_trailer X W backend head nb meth status ctype rq rs claims m w = (res, m', w')"
  shows "\<exists>ior. write_frame w RESP_TRAILER (trailer_payload X W backend head nb meth status ctype rq rs claims) = (ior, w')
    \<and> (\<forall>u. ior = Inr u \<longleftrightarrow> res = Inr u)"
proof -
  let ?p = "trailer_payload X W backend head nb meth status ctype rq rs claims"
  obtain f where "io_result f (write_frame w RESP_TRAILER ?p) = (res, w')"
    using assms
    by (cases "no_crlf ctype"; cases backend)
      (auto simp: write_attested_trailer_def trailer_payload_def write_local_attested_trailer_def
        write_aliyun_vtpm_trailer_def write_proof_unavailable_trailer_def unavailable_payload_def Let_def
        split: sum.splits prod.splits)
  then show ?thesis by (rule io_result_eq)
qed

section \<open>The whole exchange\<close>

definition exchange_frames ::
  "('x) enclave_scheme \<Rightarrow> world \<Rightarrow> ProofBackend \<Rightarrow> ReqHead \<Rightarrow> u8 list \<Rightarrow> u8 list \<Rightarrow> u8 list \<Rightarrow> u16 \<Rightarrow> string
    \<Rightarrow> u8 list list \<Rightarrow> (u8 \<times> u8 list) list" where
  "exchange_frames X W backend head body nonce_bytes hdr status ctype chunks =
     (let norm_method = to_uppercase X (up_method (upstream head))
      in response_frames hdr chunks
         @ [(RESP_TRAILER,
             trailer_payload X W backend head nonce_bytes norm_method status ctype (sha256_hex X body)
               (sha256_hex X (concat chunks))
               (collect X (protocol_env W) head body ctype chunks norm_method status))])"

lemma trailer_after_response:
  assumes "sent w w1 (response_frames hdr chunks) []"
    and "write_attested_trailer X W backend head nb (to_uppercase X (up_method (upstream head))) status ctype
      (sha256_hex X body) (sha256_hex X (concat chunks))
      (collect X (protocol_env W) head body ctype chunks (to_uppercase X (up_method (upstream head))) status) m w1
      = (res, m', w')"
  shows "(\<exists>u. res = Inr u \<and> sent w w' (exchange_frames X W backend head body nb hdr status ctype chunks) [])
    \<or> (\<exists>e. res = Inl e \<and> broken w w')"
proof -
  obtain ior where io: "write_frame w1 RESP_TRAILER (trailer_payload X W backend head nb
      (to_uppercase X (up_method (upstream head))) status ctype (sha256_hex X body) (sha256_hex X (concat chunks))
      (collect X (protocol_env W) head body ctype chunks (to_uppercase X (up_method (upstream head))) status)) = (ior, w')"
      "\<And>u. ior = Inr u \<longleftrightarrow> res = Inr u"
    using write_attested_trailer_writes [OF assms(2)] by blast
  show ?thesis
  proof (cases res)
    case (Inr u)
    with io have "write_frame w1 RESP_TRAILER (trailer_payload X W backend head nb
      (to_uppercase X (up_method (upstream head))) status ctype (sha256_hex X body) (sha256_hex X (concat chunks))
      (collect X (protocol_env W) head body ctype chunks (to_uppercase X (up_method (upstream head))) status)) = (Inr u, w')"
      by auto
    from sent_trans [OF assms(1) write_frame_Ok [OF this]] Inr show ?thesis by (simp add: exchange_frames_def Let_def)
  next
    case (Inl e)
    with io obtain k where "ior = Inl k" by (cases ior) auto
    with io(1) have "broken w1 w'" by (simp add: broken_write)
    with broken_after [OF assms(1) response_frames_types] Inl show ?thesis by blast
  qed
qed

lemma handle_h1_result:
  assumes "handle_h1 X W backend head body nb profile sock m w = (res, m', w')"
  shows "(\<exists>u hdr status ctype chunks. res = Inr u \<and> announces X hdr status ctype
      \<and> sent w w' (exchange_frames X W backend head body nb hdr status ctype chunks) [])
    \<or> (\<exists>e. res = Inl e \<and> broken w w')"
proof -
  consider (quiet) e where "res = Inl e" "w' = w"
    | (resp) e r where "h1_respond X W head body r w = (Inl e, w')" "res = Inl e"
    | (ok) h st r w1 m1 where "h1_respond X W head body r w = (Inr (h, st), w1)"
      "write_attested_trailer X W backend head nb (to_uppercase X (up_method (upstream head))) (hd_status h)
        (content_type_of h) (sha256_hex X body) (sha256_hex X (ss_hasher st))
        (finish_claims X head (to_uppercase X (up_method (upstream head))) (hd_status h) (ss_collector st)) m1 w1 = (res, m', w')"
    using assms by (auto simp: handle_h1_def Let_def split: sum.splits prod.splits)
  then show ?thesis
  proof cases
    case (ok h st r w1 m1)
    obtain chunks where ann: "announces X (h1_head_bytes X h) (hd_status h) (content_type_of h)"
      and c: "sent w w1 (response_frames (h1_head_bytes X h) chunks) []" "ss_hasher st = concat chunks"
        "finish_claims X head (to_uppercase X (up_method (upstream head))) (hd_status h) (ss_collector st)
           = collect X (protocol_env W) head body (content_type_of h) chunks
               (to_uppercase X (up_method (upstream head))) (hd_status h)"
      using h1_respond_Ok [OF ok(1)] by metis
    from trailer_after_response [OF c(1) ok(2) [unfolded c(2,3)]] ann show ?thesis by blast
  qed (auto simp: h1_respond_Err)
qed

lemma handle_h2_result:
  assumes "handle_h2 X W backend head body nb profile sock m w = (res, m', w')"
  shows "(\<exists>u hdr status ctype chunks. res = Inr u \<and> announces X hdr status ctype
      \<and> sent w w' (exchange_frames X W backend head body nb hdr status ctype chunks) [])
    \<or> (\<exists>e. res = Inl e \<and> broken w w')"
proof (cases "connect_h2 W profile sock (up_host (upstream head))")
  case (Inl e)
  with assms show ?thesis by (auto simp: handle_h2_def)
next
  case (Inr tfp)
  obtain tls fp where tfp: "tfp = (tls, fp)" by (cases tfp)
  let ?m = "to_uppercase X (up_method (upstream head))"
  obtain x st where ex: "h2_execute (wd_h2 W) tls fp (up_host (upstream head)) ?m (up_path (upstream head))
      (h2_ordered head) (token head) body MAX_RESP (h2_on_head X W head body) (h2_on_chunk X) (h2_sink_start w) = (x, st)"
    by fastforce
  note start = h2_sink_start_def [symmetric]
  show ?thesis
  proof (cases x)
    case (Inl e)
    with assms Inr tfp ex have "res = Inl e" "w' = h2s_control st" by (auto simp: handle_h2_def start)
    with h2_respond_Err [OF ex [unfolded Inl]] show ?thesis by simp
  next
    case (Inr resp)
    obtain hdr chunks where ann: "announces X hdr (hs_status resp) (h2s_content_type st)"
      and c: "sent w (h2s_control st) (response_frames hdr chunks) []" "h2s_hasher st = concat chunks"
        "finish_claims X head ?m (hs_status resp) (h2s_collector st)
           = collect X (protocol_env W) head body (h2s_content_type st) chunks ?m (hs_status resp)"
      using h2_respond_Ok [OF ex [unfolded Inr]] by metis
    have "\<exists>m1. write_attested_trailer X W backend head nb ?m (hs_status resp) (h2s_content_type st) (sha256_hex X body)
        (sha256_hex X (h2s_hasher st)) (finish_claims X head ?m (hs_status resp) (h2s_collector st)) m1 (h2s_control st)
        = (res, m', w')"
      using assms \<open>connect_h2 W profile sock (up_host (upstream head)) = Inr tfp\<close> tfp ex Inr
      by (auto simp: handle_h2_def start Let_def)
    then obtain m1 where "write_attested_trailer X W backend head nb ?m (hs_status resp) (h2s_content_type st)
        (sha256_hex X body) (sha256_hex X (concat chunks))
        (collect X (protocol_env W) head body (h2s_content_type st) chunks ?m (hs_status resp)) m1 (h2s_control st)
        = (res, m', w')"
      unfolding c(2,3) by blast
    from trailer_after_response [OF c(1) this] ann show ?thesis by blast
  qed
qed

lemma handle_result:
  assumes "handle X W backend m r w = (res, m', w')"
  shows "(\<exists>u head body r' nb hdr status ctype chunks. res = Inr u \<and> read_request X r = (Ok (head, body), r')
      \<and> check_request X head = Ok nb \<and> announces X hdr status ctype
      \<and> sent w w' (exchange_frames X W backend head body nb hdr status ctype chunks) [])
    \<or> (\<exists>e. res = Inl e \<and> broken w w')"
proof -
  consider (quiet) e where "res = Inl e" "w' = w"
    | (h1) head body r' nb profile sock where "read_request X r = (Inr (head, body), r')" "check_request X head = Inr nb"
        "handle_h1 X W backend head body nb profile sock m w = (res, m', w')"
    | (h2) head body r' nb profile sock where "read_request X r = (Inr (head, body), r')" "check_request X head = Inr nb"
        "handle_h2 X W backend head body nb profile sock m w = (res, m', w')"
    using assms by (auto simp: handle_def Let_def split: sum.splits prod.splits option.splits if_splits)
  then show ?thesis
  proof cases
    case quiet
    then show ?thesis by simp
  next
    case h1
    with handle_h1_result [OF h1(3)] show ?thesis by blast
  next
    case h2
    with handle_h2_result [OF h2(3)] show ?thesis by blast
  qed
qed

section \<open>Exchanges that complete\<close>

text \<open>The payload of a well-formed response body, as the head of the response announces it.\<close>

definition body_of :: "Headers \<Rightarrow> u8 list \<Rightarrow> u8 list \<Rightarrow> bool" where
  "body_of h data payload \<longleftrightarrow>
     length payload \<le> MAX_RESP
     \<and> (if hd_chunked h then \<exists>wire ps rest. chunked wire ps \<and> data = wire @ rest \<and> payload = concat ps
        else (case hd_content_length h of
                Some cl \<Rightarrow> cl \<le> length data \<and> payload = take cl data
              | None \<Rightarrow> payload = data))"

lemma stream_plain_length_ok:
  assumes "[] \<notin> set cs" and "cl \<le> MAX_RESP" and "cl \<le> length (initial @ concat cs)"
  shows "\<exists>chunks r'. stream_plain initial (map RData cs) (Some cl) rec_sink [] = (Ok (), chunks, r')
    \<and> concat chunks = take cl (initial @ concat cs)"
proof -
  obtain pre where pre: "stream_plain initial (map RData cs) (Some cl) rec_sink []
      = plain_length_loop cl rec_sink (min (length initial) cl) pre (map RData cs)" "concat pre = take cl initial"
    using stream_plain_initial [OF assms(2)] by blast
  moreover have "min (length initial) cl \<le> cl" "cl - min (length initial) cl \<le> length (concat cs)"
    using assms(3) by (auto simp: min_def)
  from plain_length_loop_ok [OF assms(1) this, of pre] obtain chunks r'
    where "plain_length_loop cl rec_sink (min (length initial) cl) pre (map RData cs) = (Ok (), pre @ chunks, r')"
      "concat chunks = take (cl - min (length initial) cl) (concat cs)" by blast
  moreover have "take cl initial @ take (cl - min (length initial) cl) (concat cs) = take cl (initial @ concat cs)"
    by (simp add: min_def)
  ultimately show ?thesis by (intro exI [of _ "pre @ chunks"] exI [of _ r']) simp
qed

lemma stream_plain_eof_ok:
  assumes "[] \<notin> set cs" and "length (initial @ concat cs) \<le> MAX_RESP"
  shows "\<exists>chunks r'. stream_plain initial (map RData cs) None rec_sink [] = (Ok (), chunks, r')
    \<and> concat chunks = initial @ concat cs"
proof (cases "initial = []")
  case True
  with plain_eof_loop_ok [OF assms(1), of 0 "[]"] assms(2) show ?thesis by (simp add: stream_plain_def)
next
  case False
  from plain_eof_loop_ok [OF assms(1), of "length initial" "[initial]"] assms(2) obtain chunks r'
    where "plain_eof_loop rec_sink (length initial) [initial] (map RData cs) = (Ok (), initial # chunks, r')"
      "concat chunks = concat cs" by auto
  with False assms(2) show ?thesis
    by (intro exI [of _ "initial # chunks"] exI [of _ r']) (simp add: stream_plain_def rec_sink_simp)
qed

lemma h1_stream_ok:
  assumes "body_of h (initial @ concat cs) payload" and "[] \<notin> set cs"
  shows "\<exists>chunks r'. h1_stream h initial (map RData cs) rec_sink [] = (Ok (), chunks, r') \<and> concat chunks = payload"
proof (cases "hd_chunked h")
  case True
  with assms(1) obtain wire ps rest where c: "chunked wire ps" "initial @ concat cs = wire @ rest"
      "payload = concat ps" "length (concat ps) \<le> MAX_RESP"
    by (auto simp: body_of_def)
  from chunk_loop_chunked [OF c(1,2) assms(2), of 0 "[]"] c(3,4) True show ?thesis
    by (auto simp: h1_stream_def stream_chunked_def)
next
  case plain: False
  show ?thesis
  proof (cases "hd_content_length h")
    case None
    with plain assms stream_plain_eof_ok [of cs initial] show ?thesis by (auto simp: body_of_def h1_stream_def)
  next
    case (Some cl)
    with plain assms have "cl \<le> length (initial @ concat cs)" "payload = take cl (initial @ concat cs)" "cl \<le> MAX_RESP"
      by (auto simp: body_of_def)
    with plain Some stream_plain_length_ok [OF assms(2)] show ?thesis by (simp add: h1_stream_def)
  qed
qed

lemma h1_respond_completes:
  assumes "[] \<notin> set cs" and "find (concat cs) head_end = Some pos" and "pos + 4 \<le> MAX_HEAD"
    and "parse_headers X (take pos (concat cs)) = Ok h" and "body_of h (drop (pos + 4) (concat cs)) payload"
    and "wr_budget w = None"
  shows "\<exists>st w' chunks. h1_respond X W head body (map RData cs) w = (Ok (h, st), w')
    \<and> sent w w' (response_frames (h1_head_bytes X h) chunks) [] \<and> concat chunks = payload \<and> wr_budget w' = None
    \<and> ss_hasher st = concat chunks
    \<and> (\<forall>meth status. finish_claims X head meth status (ss_collector st)
         = collect X (protocol_env W) head body (content_type_of h) chunks meth status)"
proof -
  obtain left cs' where rd: "read_until_headers (map RData cs) = (Inr (take pos (concat cs), left), map RData cs')"
      and left: "left @ concat cs' = drop (pos + 4) (concat cs)" "[] \<notin> set cs'"
    using read_head_loop_finds [of "[]" cs pos] assms(1-3) by (auto simp: read_until_headers_def)
  define w1 where "w1 = w\<lparr>wr_out := wr_out w @ frame_bytes (RESP_HEAD, h1_head_bytes X h)\<rparr>"
  have w1: "write_frame w RESP_HEAD (h1_head_bytes X h) = (Inr (), w1)" "wr_budget w1 = None"
    using assms(6) write_frame_unlimited [OF assms(6)] by (simp_all add: w1_def)
  let ?st = "h1_sink_start X W head body h w1"
  obtain chunks r' where rc: "h1_stream h left (map RData cs') rec_sink [] = (Inr (), chunks, r')"
      and payload: "concat chunks = payload"
    using h1_stream_ok [of h left cs' payload] assms(5) left by auto
  obtain chunks' res r2 where "h1_stream h left (map RData cs') rec_sink [] = (res, chunks', r2)"
      and fed: "fed chunks' res r2 (body_sink X) ?st (h1_stream h left (map RData cs') (body_sink X) ?st)"
    using h1_stream_feed [of h left "map RData cs'", where 'st = sink_state] by auto
  with rc have eq: "res = Inr ()" "chunks' = chunks" by auto
  obtain st where fd: "feed (body_sink X) chunks ?st = (Inr (), st)"
    using h1_sink.feed_unlimited [of ?st X chunks] w1(2) by (auto simp: h1_sink_start_def)
  then have "h1_stream h left (map RData cs') (body_sink X) ?st = (Inr (), st, r2)"
    using fed_Ok [OF fed, of "()" st r2] eq by simp
  with rd assms(4) w1 have ok: "h1_respond X W head body (map RData cs) w = (Inr (h, st), ss_control st)"
    by (simp add: h1_respond_eq io_result_def)
  have "wr_budget (ss_control st) = None"
    using h1_sink.feed_budget [OF fd] w1(2) by (simp add: h1_sink_start_def)
  moreover have "sent w (ss_control st) (response_frames (h1_head_bytes X h) chunks) []"
    using sent_response [OF write_frame_Ok [OF w1(1)]] h1_sink.feed_Ok [OF fd] by (simp add: h1_sink_start_def)
  moreover have "ss_hasher st = concat chunks" "ss_collector st = map_option (\<lambda>c. foldl (collector_push X) c chunks)
      (collector_new X (protocol_env W) head body (content_type_of h))"
    using h1_sink.feed_Ok [OF fd] by (simp_all add: h1_sink_start_def)
  ultimately show ?thesis using ok payload by (metis finish_claims_collect)
qed

lemma handle_h1_path:
  assumes "read_request X r = (Ok (head, body), r')" and "check_request X head = Ok nb"
    and "connect_egress (wd_sockets W) (egress_port head) = Ok sock"
    and "\<forall>p. decode_profile X head = Some p \<longrightarrow> stack p \<noteq> RustlsAwsLc"
  shows "handle X W backend m r w = handle_h1 X W backend head body nb (decode_profile X head) sock m w"
  using assms by (simp add: handle_def Let_def split: option.split)

lemma write_attested_trailer_unlimited:
  assumes "wr_budget w = None"
  shows "\<exists>m' w'. write_attested_trailer X W backend head nb meth status ctype rq rs claims m w = (Ok (), m', w')"
proof -
  obtain res m' w' where r: "write_attested_trailer X W backend head nb meth status ctype rq rs claims m w = (res, m', w')"
    by (metis prod.exhaust)
  from write_attested_trailer_writes [OF r] assms have "res = Inr ()" by (auto simp: write_frame_unlimited)
  with r show ?thesis by blast
qed

lemma handle_h1_completes:
  assumes "connect_h1 W profile sock (up_host (upstream head)) = Ok tls"
    and "wr_budget (cn_out tls) = None" and "wr_budget w = None"
    and "cn_in tls = map RData cs" and "[] \<notin> set cs" and "find (concat cs) head_end = Some pos"
    and "pos + 4 \<le> MAX_HEAD" and "parse_headers X (take pos (concat cs)) = Ok h"
    and "body_of h (drop (pos + 4) (concat cs)) payload"
  shows "\<exists>m' w' chunks. handle_h1 X W backend head body nb profile sock m w = (Ok (), m', w') \<and> concat chunks = payload
    \<and> sent w w' (exchange_frames X W backend head body nb (h1_head_bytes X h) (hd_status h) (content_type_of h) chunks) []"
proof -
  let ?m = "to_uppercase X (up_method (upstream head))"
  obtain st w1 chunks where rsp: "h1_respond X W head body (cn_in tls) w = (Inr (h, st), w1)"
      and w1: "wr_budget w1 = None" and payload: "concat chunks = payload" and hsh: "ss_hasher st = concat chunks"
      and snt: "sent w w1 (response_frames (h1_head_bytes X h) chunks) []"
      and clm: "\<And>meth status. finish_claims X head meth status (ss_collector st)
         = collect X (protocol_env W) head body (content_type_of h) chunks meth status"
    using h1_respond_completes [OF assms(5-9,3), of W head body] assms(4) by metis
  have snd_ok: "\<exists>w2. h1_send (h1_request_head X head ?m (length body)) body (cn_out tls) = (Inr (), w2)"
    using assms(2) by (simp add: h1_send_def write_all_unlimited io_result_def)
  obtain m1 where "handle_h1 X W backend head body nb profile sock m w
      = write_attested_trailer X W backend head nb ?m (hd_status h) (content_type_of h) (sha256_hex X body)
          (sha256_hex X (concat chunks)) (collect X (protocol_env W) head body (content_type_of h) chunks ?m (hd_status h)) m1 w1"
    using assms(1) snd_ok rsp by (auto simp: handle_h1_def Let_def hsh clm)
  moreover obtain m' w' where tr: "write_attested_trailer X W backend head nb ?m (hd_status h) (content_type_of h)
      (sha256_hex X body) (sha256_hex X (concat chunks))
      (collect X (protocol_env W) head body (content_type_of h) chunks ?m (hd_status h)) m1 w1 = (Inr (), m', w')"
    using write_attested_trailer_unlimited [OF w1] by blast
  moreover have "sent w w' (exchange_frames X W backend head body nb (h1_head_bytes X h) (hd_status h) (content_type_of h) chunks) []"
    using trailer_after_response [OF snt tr] by simp
  ultimately show ?thesis using payload by metis
qed

section \<open>A complete run\<close>

text \<open>
  A small world in which an exchange succeeds: the parent answers, the fallback stack connects, and the
  upstream sends a short response in three pieces.
\<close>

definition sample_response :: "u8 list list" where
  "sample_response = [as_bytes ''HTTP/1.1 '', as_bytes ''200 OK'' @ [13, 10, 13], [10] @ as_bytes ''hi'']"

definition idle_conn :: conn where
  "idle_conn = \<lparr>cn_out = \<lparr>wr_out = [], wr_budget = None\<rparr>, cn_in = []\<rparr>"

definition sample_world :: world where
  "sample_world =
     \<lparr>wd_sockets = \<lparr>sk_env = (\<lambda>_. None), sk_vsock = (\<lambda>_ _. Ok idle_conn), sk_tcp = (\<lambda>_ _. Err ''refused'')\<rparr>,
      wd_btls = \<lparr>tl_builder = None, tl_call = (\<lambda>_ _. None), tl_configure = (\<lambda>_. None), tl_connect = (\<lambda>_ _ _. Inl HandshakeWouldBlock)\<rparr>,
      wd_openssl = \<lparr>tl_builder = None, tl_call = (\<lambda>_ _. None), tl_configure = (\<lambda>_. None), tl_connect = (\<lambda>_ _ _. Inl HandshakeWouldBlock)\<rparr>,
      wd_rustls = \<lparr>rl_sig_mapping = [], rl_versions = (\<lambda>_. None), rl_server_name = (\<lambda>_. True), rl_client = (\<lambda>_ _. None),
        rl_handshake = (\<lambda>_. None), rl_alpn_protocol = (\<lambda>_. None),
        rl_stream = (\<lambda>_. \<lparr>cn_out = \<lparr>wr_out = [], wr_budget = None\<rparr>, cn_in = map RData sample_response\<rparr>)\<rparr>,
      wd_h2 = \<lparr>h2_op_panics = (\<lambda>_. False), h2_runtime = None, h2_handshake = (\<lambda>_ _. None), h2_uri = (\<lambda>_. None),
        h2_method = (\<lambda>_. None), h2_request_error = None, h2_header_name = (\<lambda>_. None), h2_header_value = (\<lambda>_. None),
        h2_send_request = (\<lambda>_ _. None), h2_capacity = [], h2_send_data = (\<lambda>_ _. None), h2_response = Inl ''none'',
        h2_data = [], h2_release = (\<lambda>_. None), h2_driver = DriverOk\<rparr>,
      wd_unix = (\<lambda>_. Err ''refused''), wd_nsm_ns = 1\<rparr>"

definition sample_backend :: LocalEvidenceBackend where
  "sample_backend = \<lparr>lb_sk = [7], lb_spki = [8], lb_attest = nitro_attest sample_nsm\<rparr>"

definition sample_request :: reader where
  "sample_request = [RData (frame_bytes (REQ_HEAD, [123, 125])), RErr Interrupted, RData (frame_bytes (REQ_BODY, [1]))]"

definition fresh_writer :: writer where
  "fresh_writer = \<lparr>wr_out = [], wr_budget = None\<rparr>"

abbreviation sample_X :: enclave where
  "sample_X \<equiv> sample_enclave (\<lambda>_. Some sample_head)"

lemma sample_read_request: "\<exists>r'. read_request (sample_enclave (\<lambda>_. Some h)) sample_request = (Ok (h, [1]), r')"
proof -
  have d: "delivers sample_request (frame_bytes (REQ_HEAD, [123, 125]) @ (frame_bytes (REQ_BODY, [1]) @ []))"
    unfolding sample_request_def by (intro delivers.intros) (simp_all add: delivers.intros)
  obtain r1 where r1: "read_frame sample_request MAX_REQ_HEAD = (Ok (REQ_HEAD, [123, 125]), r1)"
      "delivers r1 (frame_bytes (REQ_BODY, [1]) @ [])"
    using control.read_wire [OF d, of MAX_REQ_HEAD] by (auto simp: MAX_REQ_HEAD_def)
  obtain r2 where "read_frame r1 MAX_REQ_FRAME = (Ok (REQ_BODY, [1]), r2)"
    using control.read_wire [OF r1(2), of MAX_REQ_FRAME] by (auto simp: MAX_REQ_FRAME_def)
  with r1(1) show ?thesis by (simp add: read_request_def sample_enclave_def crypto.defs)
qed

lemma sample_check_request: "check_request sample_X sample_head = Ok (as_bytes (nonce sample_head))"
  by (simp add: check_request_def sample_head_def sample_enclave_def sample_crypto_def crypto.defs)

lemma sample_connect:
  "connect_egress (wd_sockets sample_world) p = Ok (VsockEgress idle_conn)"
  "decode_profile sample_X sample_head = None"
  "connect_h1 sample_world None sock host = Ok \<lparr>cn_out = \<lparr>wr_out = [], wr_budget = None\<rparr>, cn_in = map RData sample_response\<rparr>"
proof -
  have "parse_egress_mode None = Ok DirectVsock" by code_simp
  then show "connect_egress (wd_sockets sample_world) p = Ok (VsockEgress idle_conn)"
    by (simp add: connect_egress_def egress_mode_def sample_world_def connect_parent_vsock_def parent_cid_candidates_def
        parse_parent_cid_candidates_def)
  show "decode_profile sample_X sample_head = None" by (simp add: decode_profile_def sample_head_def)
  show "connect_h1 sample_world None sock host = Ok \<lparr>cn_out = \<lparr>wr_out = [], wr_budget = None\<rparr>, cn_in = map RData sample_response\<rparr>"
    by (simp add: connect_h1_def ring_connect_def rustls_session_new_def sample_world_def)
qed

definition sample_headers :: Headers where
  "sample_headers = \<lparr>hd_status = 200, hd_content_type = None, hd_chunked = False, hd_content_length = None, hd_headers = bt_empty\<rparr>"

lemma sample_parse:
  "find (concat sample_response) head_end = Some 15"
  "parse_headers sample_X (take 15 (concat sample_response)) = Ok sample_headers"
  "body_of sample_headers (drop (15 + 4) (concat sample_response)) (as_bytes ''hi'')"
proof -
  show "find (concat sample_response) head_end = Some 15" by code_simp
  have l: "split_crlf (from_utf8_lossy (take 15 (concat sample_response))) = [''HTTP/1.1 200 OK'']" by code_simp
  have "split_whitespace ''HTTP/1.1 200 OK'' = [''HTTP/1.1'', ''200'', ''OK'']" by code_simp
  moreover have "digits_value 10 0 ''200'' = Some 200" by code_simp
  ultimately show "parse_headers sample_X (take 15 (concat sample_response)) = Ok sample_headers"
    by (simp add: parse_headers_def l parse_status_line_def parse_uint_def sample_headers_def)
  have "drop 19 (concat sample_response) = as_bytes ''hi''" by code_simp
  then show "body_of sample_headers (drop (15 + 4) (concat sample_response)) (as_bytes ''hi'')"
    by (simp add: body_of_def sample_headers_def MAX_RESP_def)
qed

lemma sample_handle:
  "\<exists>m' w'. handle sample_X sample_world (LocalEvidence sample_backend) metrics_default sample_request fresh_writer = (Ok (), m', w')"
proof -
  obtain r' where rq: "read_request sample_X sample_request = (Ok (sample_head, [1]), r')" using sample_read_request by blast
  have path: "handle sample_X sample_world (LocalEvidence sample_backend) metrics_default sample_request fresh_writer
      = handle_h1 sample_X sample_world (LocalEvidence sample_backend) sample_head [1] (as_bytes (nonce sample_head)) None
          (VsockEgress idle_conn) metrics_default fresh_writer"
    using handle_h1_path [OF rq sample_check_request sample_connect(1)] sample_connect(2) by simp
  have "[] \<notin> set sample_response" by (simp add: sample_response_def)
  then have "\<exists>m' w' chunks. handle_h1 sample_X sample_world (LocalEvidence sample_backend) sample_head [1]
      (as_bytes (nonce sample_head)) None (VsockEgress idle_conn) metrics_default fresh_writer = (Ok (), m', w')
    \<and> concat chunks = as_bytes ''hi'' \<and> sent fresh_writer w' (exchange_frames sample_X sample_world (LocalEvidence sample_backend)
        sample_head [1] (as_bytes (nonce sample_head)) (h1_head_bytes sample_X sample_headers) (hd_status sample_headers)
        (content_type_of sample_headers) chunks) []"
    by (intro handle_h1_completes [OF sample_connect(3) _ _ _ _ sample_parse(1) _ sample_parse(2,3)])
      (simp_all add: fresh_writer_def MAX_HEAD_def)
  then show ?thesis unfolding path by blast
qed

end
