(* ===== verification/Handler_H2.thy ===== *)
theory Handler_H2
  imports Handler_Props H2_Props
begin

text \<open>
  Exchanges over HTTP/2 that complete: what the library has to grant, and that the handler then ends
  with the head, the data frames and the trailer on the control channel.
\<close>

section \<open>What the library grants\<close>

text \<open>Capacity for a body of the given length: every event is a grant until the body is sent.\<close>

fun granted :: "capacity_event list \<Rightarrow> nat \<Rightarrow> bool" where
  "granted [] n \<longleftrightarrow> n = 0"
| "granted (Cap c # caps) n \<longleftrightarrow> n = 0 \<or> granted caps (n - min c 16384)"
| "granted (_ # caps) n \<longleftrightarrow> n = 0"

text \<open>The connection is set up and the request is taken.\<close>

definition h2_accepts ::
  "h2_lib \<Rightarrow> rustls_session \<Rightarrow> H2Settings \<Rightarrow> string \<Rightarrow> string \<Rightarrow> string \<Rightarrow> (string \<times> string) list \<Rightarrow> string option \<Rightarrow> u8 list \<Rightarrow> bool" where
  "h2_accepts L io fp host meth path ordered tok body \<longleftrightarrow>
     (\<exists>ops request. h2_builder L fp = Ok ops \<and> h2_runtime L = None \<and> h2_handshake L ops io = None
        \<and> h2_new_request L host meth path ordered tok (length body) = Ok request
        \<and> h2_send_request L request (body = []) = None)
     \<and> (\<forall>data end_stream. h2_send_data L data end_stream = None) \<and> granted (h2_capacity L) (length body)"

text \<open>The response arrives: a head and data frames within the limit, and the driver ends well.\<close>

definition h2_answers :: "h2_lib \<Rightarrow> nat \<Rightarrow> u16 \<Rightarrow> u8 list list \<Rightarrow> bool" where
  "h2_answers L limit status chunks \<longleftrightarrow>
     (\<exists>headers. h2_response L = Inr (status, headers)) \<and> h2_data L = map Inr chunks
     \<and> (\<forall>n. h2_release L n = None) \<and> length (concat chunks) \<le> limit \<and> limit < 2 ^ 64 \<and> h2_driver L = DriverOk"

section \<open>The client completes\<close>

lemma h2_send_body_granted:
  assumes "\<forall>data end_stream. h2_send_data L data end_stream = None"
  shows "granted caps (length body - offset) \<Longrightarrow> offset \<le> length body \<Longrightarrow> \<exists>out. h2_send_body L body offset frames caps = Ok out"
proof (induction caps arbitrary: offset frames)
  case (Cons cap caps)
  show ?case
  proof (cases "offset = length body")
    case False
    with Cons.prems obtain c where cap: "cap = Cap c" and g: "granted caps (length body - offset - min c 16384)"
      by (cases cap) auto
    let ?n = "min (min (length body - offset) 16384) c"
    have "length body - (offset + ?n) = length body - offset - min c 16384" by auto
    with g have "granted caps (length body - (offset + ?n))" by simp
    with Cons.IH [of "offset + ?n"] Cons.IH [of offset] g False Cons.prems(2) cap assms show ?thesis
      by (auto simp: Let_def)
  qed simp
qed simp

lemma h2_recv_loop_ok:
  assumes "\<forall>n. h2_release L n = None" and "limit < 2 ^ 64"
  shows "feed on_chunk chunks st = (Inr (), st') \<Longrightarrow> tot + length (concat chunks) \<le> limit \<Longrightarrow>
    h2_recv_loop L limit on_chunk tot st (map Inr chunks) = (Ok (tot + length (concat chunks)), st')"
proof (induction chunks arbitrary: tot st)
  case (Cons c cs)
  obtain v st1 where "on_chunk c st = (v, st1)" by fastforce
  with Cons assms show ?case by (cases v) (auto simp: add.assoc)
qed simp

lemma h2_execute_completes:
  assumes "h2_accepts L io fp host meth path ordered tok body" and "h2_answers L limit status chunks"
    and "\<And>headers. \<exists>st1. on_head status headers st = (Inr (), st1) \<and> (\<exists>st2. feed on_chunk chunks st1 = (Inr (), st2))"
  shows "\<exists>headers st1 st'. on_head status headers st = (Inr (), st1) \<and> feed on_chunk chunks st1 = (Inr (), st')
    \<and> h2_execute L io fp host meth path ordered tok body limit on_head on_chunk st
      = (Ok \<lparr>hs_status = status, hs_body_bytes = length (concat chunks)\<rparr>, st')"
proof -
  obtain headers where rsp: "h2_response L = Inr (status, headers)" using assms(2) by (auto simp: h2_answers_def)
  obtain out where snd: "h2_send_body L body 0 [] (h2_capacity L) = Ok out"
    using h2_send_body_granted [of L "h2_capacity L" body 0 "[]"] assms(1) by (auto simp: h2_accepts_def)
  obtain st1 st2 where oh: "on_head status (map (\<lambda>(k, v). (k, from_utf8_lossy v)) headers) st = (Inr (), st1)"
      and fd: "feed on_chunk chunks st1 = (Inr (), st2)"
    using assms(3) by meson
  have "h2_recv_loop L limit on_chunk 0 st1 (h2_data L) = (Ok (length (concat chunks)), st2)"
    using h2_recv_loop_ok [OF _ _ fd, of L limit 0] assms(2) by (simp add: h2_answers_def)
  with rsp snd oh have "h2_exchange L body limit on_head on_chunk st
      = (Ok \<lparr>hs_status = status, hs_body_bytes = length (concat chunks)\<rparr>, st2)"
    by (simp add: h2_exchange_def)
  with assms(1,2) have "h2_execute L io fp host meth path ordered tok body limit on_head on_chunk st
      = (Ok \<lparr>hs_status = status, hs_body_bytes = length (concat chunks)\<rparr>, st2)"
    by (auto simp: h2_execute_def h2_accepts_def h2_answers_def h2_join_def)
  with oh fd show ?thesis by blast
qed

section \<open>The handler completes\<close>

lemma h2_on_head_unlimited:
  assumes "wr_budget (h2s_control st) = None"
  shows "\<exists>st1. h2_on_head X W head body status headers st = (Inr (), st1) \<and> wr_budget (h2s_control st1) = None"
  using assms by (simp add: h2_on_head_def Let_def io_result_def write_frame_unlimited)

lemma h2_respond_completes:
  assumes "h2_accepts L io fp host meth path ordered tok body" and "h2_answers L limit status chunks" and "wr_budget w = None"
  obtains st hdr where "h2_execute L io fp host meth path ordered tok body limit (h2_on_head X W head body) (h2_on_chunk X)
      (h2_sink_start w) = (Ok \<lparr>hs_status = status, hs_body_bytes = length (concat chunks)\<rparr>, st)"
    "sent w (h2s_control st) (response_frames hdr chunks) []" "announces X hdr status (h2s_content_type st)"
    "h2s_hasher st = concat chunks" "wr_budget (h2s_control st) = None"
    "finish_claims X head norm_method status (h2s_collector st)
       = collect X (protocol_env W) head body (h2s_content_type st) chunks norm_method status"
proof -
  let ?resp = "\<lparr>hs_status = status, hs_body_bytes = length (concat chunks)\<rparr>"
  have "\<exists>st1. h2_on_head X W head body status headers (h2_sink_start w) = (Inr (), st1)
      \<and> (\<exists>st2. feed (h2_on_chunk X) chunks st1 = (Inr (), st2))" for headers
    using h2_on_head_unlimited [of "h2_sink_start w" X W head body status headers] h2_sink.feed_unlimited assms(3)
    by (fastforce simp: h2_sink_start_def)
  from h2_execute_completes [where on_head = "h2_on_head X W head body" and on_chunk = "h2_on_chunk X"
      and st = "h2_sink_start w", OF assms(1,2) this] obtain headers st1 st
    where oh: "h2_on_head X W head body status headers (h2_sink_start w) = (Inr (), st1)"
      and fd: "feed (h2_on_chunk X) chunks st1 = (Inr (), st)" and ex: "h2_execute L io fp host meth path ordered tok body limit (h2_on_head X W head body) (h2_on_chunk X)
      (h2_sink_start w) = (Ok ?resp, st)" by blast
  show ?thesis
  proof (rule h2_respond_Ok [OF ex, of norm_method], goal_cases)
    case (1 hdr cs)
    have "cs = chunks" using 1(3) assms(2) by (simp add: h2_answers_def inj_map_eq_map inj_on_def)
    moreover have "wr_budget (h2s_control st) = None"
      using h2_sink.feed_budget [OF fd] h2_on_head_unlimited [of "h2_sink_start w" X W head body status headers] oh assms(3)
      by (simp add: h2_sink_start_def)
    ultimately show ?thesis using that [OF ex, of hdr] 1 by simp
  qed
qed

lemma handle_h2_path:
  assumes "read_request X r = (Ok (head, body), r')" and "check_request X head = Ok nb"
    and "connect_egress (wd_sockets W) (egress_port head) = Ok sock"
    and "decode_profile X head = Some p" and "stack p = RustlsAwsLc"
  shows "handle X W backend m r w = handle_h2 X W backend head body nb p sock m w"
  using assms by (simp add: handle_def Let_def)

lemma handle_h2_completes:
  assumes "connect_h2 W p sock (up_host (upstream head)) = Ok (tls, fp)"
    and "h2_accepts (wd_h2 W) tls fp (up_host (upstream head)) (to_uppercase X (up_method (upstream head)))
      (up_path (upstream head)) (h2_ordered head) (token head) body"
    and "h2_answers (wd_h2 W) MAX_RESP status chunks" and "wr_budget w = None"
  shows "\<exists>m' w' hdr ctype. handle_h2 X W backend head body nb p sock m w = (Ok (), m', w') \<and> announces X hdr status ctype
    \<and> sent w w' (exchange_frames X W backend head body nb hdr status ctype chunks) []"
proof -
  let ?m = "to_uppercase X (up_method (upstream head))"
  obtain st hdr where ex: "h2_execute (wd_h2 W) tls fp (up_host (upstream head)) ?m (up_path (upstream head))
      (h2_ordered head) (token head) body MAX_RESP (h2_on_head X W head body) (h2_on_chunk X) (h2_sink_start w)
      = (Ok \<lparr>hs_status = status, hs_body_bytes = length (concat chunks)\<rparr>, st)"
    and snt: "sent w (h2s_control st) (response_frames hdr chunks) []" and ann: "announces X hdr status (h2s_content_type st)"
    and hsh: "h2s_hasher st = concat chunks" and bud: "wr_budget (h2s_control st) = None"
    and clm: "finish_claims X head ?m status (h2s_collector st)
       = collect X (protocol_env W) head body (h2s_content_type st) chunks ?m status"
    by (rule h2_respond_completes [OF assms(2-4)])
  note start = h2_sink_start_def [symmetric]
  obtain m1 where h: "handle_h2 X W backend head body nb p sock m w
      = write_attested_trailer X W backend head nb ?m status (h2s_content_type st) (sha256_hex X body)
          (sha256_hex X (concat chunks)) (collect X (protocol_env W) head body (h2s_content_type st) chunks ?m status) m1
          (h2s_control st)"
    using assms(1) ex hsh clm by (simp add: handle_h2_def start Let_def)
  obtain m' w' where tr: "write_attested_trailer X W backend head nb ?m status (h2s_content_type st) (sha256_hex X body)
      (sha256_hex X (concat chunks)) (collect X (protocol_env W) head body (h2s_content_type st) chunks ?m status) m1
      (h2s_control st) = (Inr (), m', w')"
    using write_attested_trailer_unlimited [OF bud] by blast
  have "sent w w' (exchange_frames X W backend head body nb hdr status (h2s_content_type st) chunks) []"
    using trailer_after_response [OF snt tr] by simp
  with h tr ann show ?thesis by auto
qed

text \<open>
  C7: A good exchange over HTTP/2 completes.  When the request is accepted and its profile selects the
  HTTP/2 stack, the connection negotiates, the library takes the request and grants capacity for the body
  in any portions, and the response comes in data frames within the size limit, the exchange ends with
  success; the chunks on the control channel are the data frames, and the head before them announces the
  status and content type that are signed.
\<close>

theorem handle_completes_h2:
  assumes "read_request X r = (Ok (head, body), r')" and "check_request X head = Ok nb"
    and "connect_egress (wd_sockets W) (egress_port head) = Ok sock"
    and "decode_profile X head = Some p" and "stack p = RustlsAwsLc"
    and "connect_h2 W p sock (up_host (upstream head)) = Ok (tls, fp)"
    and "h2_accepts (wd_h2 W) tls fp (up_host (upstream head)) (to_uppercase X (up_method (upstream head)))
      (up_path (upstream head)) (h2_ordered head) (token head) body"
    and "h2_answers (wd_h2 W) MAX_RESP status chunks" and "wr_budget w = None"
  shows "\<exists>m' w' hdr ctype. handle X W backend m r w = (Ok (), m', w') \<and> announces X hdr status ctype
    \<and> wr_out w' = wr_out w @ concat (map frame_bytes (exchange_frames X W backend head body nb hdr status ctype chunks))"
  using handle_h2_completes [OF assms(6-9), of backend nb m] handle_h2_path [OF assms(1-5), of backend m w]
  by (auto simp: sent_def)

section \<open>A complete run\<close>

definition grok_profile :: TlsProfile where
  "grok_profile = \<lparr>spec_id = 4, issued_at = 0, label = ''p'', stack = RustlsAwsLc, cipher_list = [], sigalgs = [], groups = [],
     alpn = [''h2''], grease = GreaseDisabled, ext_order = PermutePerSession, min_negotiated = Tls13, cert_policy = WebpkiRoots,
     h2 = Some \<lparr>settings = [(4, 100)], window_update = 1, pseudo_header_order = ['':method'', '':scheme'', '':authority'', '':path'']\<rparr>\<rparr>"

definition grok_head :: ReqHead where
  "grok_head = sample_head\<lparr>tls_spec := Some (from_bytes (canonical_encode grok_profile))\<rparr>"

definition grok_world :: world where
  "grok_world = sample_world\<lparr>wd_h2 := sample_h2,
     wd_rustls := (wd_rustls sample_world)\<lparr>rl_alpn_protocol := \<lambda>_. Some (as_bytes ''h2'')\<rparr>\<rparr>"

abbreviation grok_X :: enclave where
  "grok_X \<equiv> (sample_enclave (\<lambda>_. Some grok_head))\<lparr>b64_decode := \<lambda>s. Some (as_bytes s)\<rparr>"

lemma grok_decode: "decode_profile grok_X grok_head = Some grok_profile"
proof -
  have "profile_ok grok_profile"
    by (simp add: grok_profile_def profile_ok_def str_ok_def strs_ok_def is_ascii_rust_string)
  moreover have "length (canonical_encode grok_profile) < 200" by code_simp
  then have "length (canonical_encode grok_profile) < 2 ^ 64" by (rule order.strict_trans) simp
  ultimately have "decode (canonical_encode grok_profile) = Ok grok_profile" by (rule decode_encode)
  then show ?thesis by (simp add: decode_profile_def grok_head_def)
qed

lemma grok_check: "check_request grok_X grok_head = Ok (as_bytes (nonce sample_head))"
  by (simp add: check_request_def grok_head_def sample_head_def)

lemma grok_connect:
  "connect_egress (wd_sockets grok_world) port = Ok (VsockEgress idle_conn)"
  "connect_h2 grok_world grok_profile sock host
    = Ok ((aws_lc_config (wd_rustls grok_world) grok_profile, host, sock), the (h2 grok_profile))"
proof -
  show "connect_egress (wd_sockets grok_world) port = Ok (VsockEgress idle_conn)"
    using sample_connect(1) by (simp add: grok_world_def)
  have "validate_shape grok_profile = Ok ()" by (simp add: validate_shape_def grok_profile_def)
  then show "connect_h2 grok_world grok_profile sock host
      = Ok ((aws_lc_config (wd_rustls grok_world) grok_profile, host, sock), the (h2 grok_profile))"
    by (simp add: connect_h2_def aws_lc_connect_def rustls_session_new_def grok_world_def sample_world_def grok_profile_def)
qed

lemma grok_library:
  "h2_accepts (wd_h2 grok_world) tls (the (h2 grok_profile)) host meth path [] None [1]"
  "h2_answers (wd_h2 grok_world) MAX_RESP 200 [[65]]"
proof -
  have "\<exists>ops. h2_builder sample_h2 (the (h2 grok_profile)) = Ok ops"
    by (simp add: h2_builder_def grok_profile_def h2_call_def sample_h2_def)
  moreover have "\<exists>request. h2_new_request sample_h2 host meth path [] None 1 = Ok request"
    by (simp add: h2_new_request_def h2_request_headers_def h2_add_authorization_def h2_add_content_length_def sample_h2_def Let_def)
  ultimately show "h2_accepts (wd_h2 grok_world) tls (the (h2 grok_profile)) host meth path [] None [1]"
    by (auto simp: h2_accepts_def grok_world_def sample_h2_def)
  show "h2_answers (wd_h2 grok_world) MAX_RESP 200 [[65]]"
    by (simp add: h2_answers_def grok_world_def sample_h2_def MAX_RESP_def)
qed

theorem handle_completes_h2_witness:
  "\<exists>m' w' hdr ctype. handle grok_X grok_world (LocalEvidence sample_backend) metrics_default sample_request fresh_writer
      = (Ok (), m', w') \<and> announces grok_X hdr 200 ctype
    \<and> wr_out w' = wr_out fresh_writer @ concat (map frame_bytes (exchange_frames grok_X grok_world (LocalEvidence sample_backend)
         grok_head [1] (as_bytes (nonce sample_head)) hdr 200 ctype [[65]]))"
proof -
  have "parse_req_head grok_X = parse_req_head (sample_enclave (\<lambda>_. Some grok_head))"
    by (simp add: sample_enclave_def sample_crypto_def crypto.defs)
  then have "read_request grok_X sample_request = read_request (sample_enclave (\<lambda>_. Some grok_head)) sample_request"
    unfolding read_request_def by (simp only:)
  then obtain r' where rq: "read_request grok_X sample_request = (Ok (grok_head, [1]), r')"
    using sample_read_request [of grok_head] by auto
  have aws: "stack grok_profile = RustlsAwsLc" by (simp add: grok_profile_def)
  have req: "h2_ordered grok_head = []" "token grok_head = None"
    by (simp_all add: h2_ordered_def grok_head_def sample_head_def parse_headers_ordered_def)
  have "wr_budget fresh_writer = None" by (simp add: fresh_writer_def)
  from handle_completes_h2 [OF rq grok_check grok_connect(1) grok_decode aws grok_connect(2)
      grok_library(1) [folded req] grok_library(2) this]
  show ?thesis .
qed

end
