(* ===== verification/Pool.thy ===== *)
theory Pool
  imports Handler
begin

text \<open>
  The process around the handler (\<^verbatim>\<open>main\<close>, \<^verbatim>\<open>worker\<close>,
  \<^verbatim>\<open>bump_max\<close>): one thread accepts connections and puts them into a bounded queue or
  sheds them, \<^verbatim>\<open>N_WORKERS\<close> threads take them out and run the handler, and all of them update
  the shared counters.  Each atomic operation on a counter, each operation on the queue and each run of
  the handler is one step; the threads interleave arbitrarily.  A thread is at the point its
  \<open>pc\<close> names, which is the next operation it will do.

  \<^verbatim>\<open>main\<close> holds its own reference to the receiver and the only sender, so the queue is never
  disconnected and the branches for that case are not steps.
\<close>

section \<open>State\<close>

definition N_WORKERS :: nat where "N_WORKERS = 64"
definition QUEUE_CAP :: nat where "QUEUE_CAP = 256"

type_synonym job = nat

datatype outcome = Completed | Failed | Panic

datatype acceptor_pc =
    Accepting
  | Counted job u64
  | BumpQueue job u64 u64
  | Sending job
  | Queued
  | QueueFull job
  | Shedding job
  | Busy job

datatype worker_pc =
    Receiving
  | Received job
  | Entering job
  | Entered job u64
  | BumpFlight job u64 u64
  | Handling job
  | Handled job outcome
  | Leaving job outcome
  | Counting job outcome
  | Reporting job

text \<open>
  The last four fields are history: the jobs that entered the queue, left it and found it full, and the
  results of the handler, in the order of the steps.  No step depends on them.
\<close>

record pool =
  pl_m :: Metrics
  pl_queue :: "job list"
  pl_acceptor :: acceptor_pc
  pl_workers :: "worker_pc list"
  pl_sent :: "job list"
  pl_received :: "job list"
  pl_refused :: "job list"
  pl_verdicts :: "(job \<times> outcome) list"

definition pool_start :: "nat \<Rightarrow> pool" where
  "pool_start spawned =
     \<lparr>pl_m = metrics_default, pl_queue = [], pl_acceptor = Accepting, pl_workers = replicate spawned Receiving,
      pl_sent = [], pl_received = [], pl_refused = [], pl_verdicts = []\<rparr>"

section \<open>Steps\<close>

text \<open>
  \<^verbatim>\<open>bump_max\<close>: the loop at a point where it has read \<open>seen\<close> and the maximum now is
  \<open>now\<close>.  It leaves when \<open>cur\<close> is not greater, swaps when the maximum is still \<open>seen\<close>, and
  reads again otherwise.
\<close>

datatype bump_result = BumpDone u64 | BumpRetry u64

definition bump_max :: "u64 \<Rightarrow> u64 \<Rightarrow> u64 \<Rightarrow> bump_result" where
  "bump_max cur seen now =
     (if \<not> seen < cur then BumpDone now
      else if now = seen then BumpDone cur
      else BumpRetry now)"

fun count_outcome :: "outcome \<Rightarrow> Metrics \<Rightarrow> Metrics" where
  "count_outcome Completed m = m\<lparr>completed := completed m + 1\<rparr>"
| "count_outcome Failed m = m\<lparr>failed := failed m + 1\<rparr>"
| "count_outcome Panic m = m\<lparr>panicked := panicked m + 1\<rparr>"

inductive acceptor_step ::
  "acceptor_pc \<Rightarrow> Metrics \<Rightarrow> job list \<Rightarrow> acceptor_pc \<Rightarrow> Metrics \<Rightarrow> job list \<Rightarrow> job list \<Rightarrow> bool" where
  accept: "acceptor_step Accepting m q (Counted j (queue_depth m + 1)) (m\<lparr>queue_depth := queue_depth m + 1\<rparr>) q []"
| load_queue_max: "acceptor_step (Counted j cur) m q (BumpQueue j cur (queue_depth_max m)) m q []"
| bump_queue_done: "bump_max cur seen (queue_depth_max m) = BumpDone v \<Longrightarrow>
    acceptor_step (BumpQueue j cur seen) m q (Sending j) (m\<lparr>queue_depth_max := v\<rparr>) q []"
| bump_queue_retry: "bump_max cur seen (queue_depth_max m) = BumpRetry v \<Longrightarrow>
    acceptor_step (BumpQueue j cur seen) m q (BumpQueue j cur v) m q []"
| bump_queue_spurious: "seen < cur \<Longrightarrow> acceptor_step (BumpQueue j cur seen) m q (BumpQueue j cur (queue_depth_max m)) m q []"
| send: "length q < QUEUE_CAP \<Longrightarrow> acceptor_step (Sending j) m q Queued m (q @ [j]) [j]"
| count_accepted: "acceptor_step Queued m q Accepting (m\<lparr>accepted := accepted m + 1\<rparr>) q []"
| full: "\<not> length q < QUEUE_CAP \<Longrightarrow> acceptor_step (Sending j) m q (QueueFull j) m q []"
| uncount: "acceptor_step (QueueFull j) m q (Shedding j) (m\<lparr>queue_depth := queue_depth m - 1\<rparr>) q []"
| count_shed: "acceptor_step (Shedding j) m q (Busy j) (m\<lparr>shed := shed m + 1\<rparr>) q []"
| write_busy: "acceptor_step (Busy j) m q Accepting m q []"

inductive worker_step ::
  "worker_pc \<Rightarrow> Metrics \<Rightarrow> job list \<Rightarrow> worker_pc \<Rightarrow> Metrics \<Rightarrow> job list \<Rightarrow> job list \<Rightarrow> bool" where
  recv: "worker_step Receiving m (j # q) (Received j) m q [j]"
| dequeue: "worker_step (Received j) m q (Entering j) (m\<lparr>queue_depth := queue_depth m - 1\<rparr>) q []"
| enter: "worker_step (Entering j) m q (Entered j (in_flight m + 1)) (m\<lparr>in_flight := in_flight m + 1\<rparr>) q []"
| load_flight_max: "worker_step (Entered j cur) m q (BumpFlight j cur (in_flight_max m)) m q []"
| bump_flight_done: "bump_max cur seen (in_flight_max m) = BumpDone v \<Longrightarrow>
    worker_step (BumpFlight j cur seen) m q (Handling j) (m\<lparr>in_flight_max := v\<rparr>) q []"
| bump_flight_retry: "bump_max cur seen (in_flight_max m) = BumpRetry v \<Longrightarrow>
    worker_step (BumpFlight j cur seen) m q (BumpFlight j cur v) m q []"
| run_handler: "worker_step (Handling j) m q (Handled j res)
    (m\<lparr>nsm_ns_total := ns, nsm_calls := calls, resp_bytes_total := bytes\<rparr>) q []"
| count_time: "worker_step (Handled j res) m q (Leaving j res) (m\<lparr>handle_ns_total := handle_ns_total m + ns\<rparr>) q []"
| leave: "worker_step (Leaving j res) m q (Counting j res) (m\<lparr>in_flight := in_flight m - 1\<rparr>) q []"
| count_result: "worker_step (Counting j res) m q (if res = Failed then Reporting j else Receiving) (count_outcome res m) q []"
| report: "worker_step (Reporting j) m q Receiving m q []"

text \<open>A weak compare-and-exchange may fail although the value is the expected one.\<close>

inductive spurious_step :: "worker_pc \<Rightarrow> Metrics \<Rightarrow> worker_pc \<Rightarrow> bool" where
  bump_flight_spurious: "seen < cur \<Longrightarrow> spurious_step (BumpFlight j cur seen) m (BumpFlight j cur (in_flight_max m))"

text \<open>What a step adds to the history.\<close>

fun refusal :: "acceptor_pc \<Rightarrow> acceptor_pc \<Rightarrow> job list" where
  "refusal (Sending j) (QueueFull j') = [j]"
| "refusal _ _ = []"

fun verdict :: "worker_pc \<Rightarrow> worker_pc \<Rightarrow> (job \<times> outcome) list" where
  "verdict (Handling j) (Handled j' res) = [(j, res)]"
| "verdict _ _ = []"

inductive pool_worker_step :: "pool \<Rightarrow> pool \<Rightarrow> bool" where
  pool_worker: "i < length (pl_workers p) \<Longrightarrow>
    worker_step (pl_workers p ! i) (pl_m p) (pl_queue p) pc' m' q' got \<Longrightarrow>
    pool_worker_step p (p\<lparr>pl_m := m', pl_queue := q', pl_workers := (pl_workers p)[i := pc'],
      pl_received := pl_received p @ got, pl_verdicts := pl_verdicts p @ verdict (pl_workers p ! i) pc'\<rparr>)"

inductive pool_step :: "pool \<Rightarrow> pool \<Rightarrow> bool" where
  pool_acceptor: "acceptor_step (pl_acceptor p) (pl_m p) (pl_queue p) pc' m' q' put \<Longrightarrow>
    pool_step p (p\<lparr>pl_m := m', pl_queue := q', pl_acceptor := pc', pl_sent := pl_sent p @ put,
      pl_refused := pl_refused p @ refusal (pl_acceptor p) pc'\<rparr>)"
| pool_work: "pool_worker_step p p' \<Longrightarrow> pool_step p p'"
| pool_spurious: "i < length (pl_workers p) \<Longrightarrow> spurious_step (pl_workers p ! i) (pl_m p) pc' \<Longrightarrow>
    pool_step p (p\<lparr>pl_workers := (pl_workers p)[i := pc']\<rparr>)"

inductive pool_reachable :: "nat \<Rightarrow> pool \<Rightarrow> bool" where
  pool_init: "spawned \<le> N_WORKERS \<Longrightarrow> pool_reachable spawned (pool_start spawned)"
| pool_next: "pool_reachable spawned p \<Longrightarrow> pool_step p p' \<Longrightarrow> pool_reachable spawned p'"

section \<open>What the worker answers\<close>

text \<open>The handler's result as the worker classifies it, and the error frame it writes.\<close>

fun outcome_of :: "enclave_error + unit \<Rightarrow> outcome" where
  "outcome_of (Inr _) = Completed"
| "outcome_of (Inl (Panicked _)) = Panic"
| "outcome_of (Inl _) = Failed"

definition worker_report ::
  "('x) serde_scheme \<Rightarrow> (enclave_error \<Rightarrow> string) \<Rightarrow> enclave_error + unit \<Rightarrow> writer \<Rightarrow> writer" where
  "worker_report X error_text res w =
     (case res of
        Inl e \<Rightarrow>
          if outcome_of res = Failed
          then snd (write_frame w ERR (as_bytes (value_json X
                 (json_object [(''code'', JString ''enclave''), (''message'', JString (error_text e))]))))
          else w
      | Inr _ \<Rightarrow> w)"

definition busy_frame :: "('x) serde_scheme \<Rightarrow> u8 \<times> u8 list" where
  "busy_frame X =
     (ERR, as_bytes (value_json X
        (json_object [(''code'', JString ''busy''), (''message'', JString ''enclave at capacity, retry'')])))"

definition serve_job ::
  "('x) enclave_scheme \<Rightarrow> (enclave_error \<Rightarrow> string) \<Rightarrow> world \<Rightarrow> ProofBackend \<Rightarrow> Metrics \<Rightarrow> reader \<Rightarrow> writer
    \<Rightarrow> outcome \<times> Metrics \<times> writer" where
  "serve_job X error_text W backend m r w =
     (case handle X W backend m r w of (res, m, w) \<Rightarrow> (outcome_of res, m, worker_report X error_text res w))"

end
