(* ===== verification/Pool_Props.thy ===== *)
theory Pool_Props
  imports Pool "HOL-Library.Multiset"
begin

text \<open>
  The invariant of the pool under every interleaving: the counters agree with the queue and with the
  points the threads are at, so nothing wraps around, and what the counters say when the pool is at
  rest.  The second part bounds the work: every run of worker steps ends, and it can be driven to rest.
\<close>

section \<open>Counting threads\<close>

fun pending :: "worker_pc \<Rightarrow> u64" where
  "pending (Received j) = 1" | "pending _ = 0"

fun flying :: "worker_pc \<Rightarrow> u64" where
  "flying (Entered j c) = 1" | "flying (BumpFlight j c s) = 1" | "flying (Handling j) = 1"
| "flying (Handled j r) = 1" | "flying (Leaving j r) = 1" | "flying _ = 0"

fun busy :: "worker_pc \<Rightarrow> u64" where
  "busy Receiving = 0" | "busy (Reporting j) = 0" | "busy _ = 1"

fun counted :: "acceptor_pc \<Rightarrow> u64" where
  "counted (Counted j c) = 1" | "counted (BumpQueue j c s) = 1" | "counted (Sending j) = 1"
| "counted (QueueFull j) = 1" | "counted _ = 0"

fun unaccepted :: "acceptor_pc \<Rightarrow> u64" where
  "unaccepted Queued = 1" | "unaccepted _ = 0"

fun unshed :: "acceptor_pc \<Rightarrow> u64" where
  "unshed (QueueFull j) = 1" | "unshed (Shedding j) = 1" | "unshed _ = 0"

text \<open>A result that is not counted yet, the counter it goes to, and a job that has no result yet.\<close>

fun uncounted :: "outcome \<Rightarrow> worker_pc \<Rightarrow> u64" where
  "uncounted r (Handled j res) = of_bool (res = r)"
| "uncounted r (Leaving j res) = of_bool (res = r)"
| "uncounted r (Counting j res) = of_bool (res = r)"
| "uncounted r _ = 0"

fun counter_of :: "outcome \<Rightarrow> Metrics \<Rightarrow> u64" where
  "counter_of Completed m = completed m" | "counter_of Failed m = failed m" | "counter_of Panic m = panicked m"

fun unserved :: "worker_pc \<Rightarrow> job list" where
  "unserved (Received j) = [j]" | "unserved (Entering j) = [j]" | "unserved (Entered j c) = [j]"
| "unserved (BumpFlight j c s) = [j]" | "unserved (Handling j) = [j]" | "unserved _ = []"

definition held_jobs :: "worker_pc list \<Rightarrow> job multiset" where
  "held_jobs ws = sum_list (map (\<lambda>w. mset (unserved w)) ws)"

text \<open>The value a worker is about to record as a maximum.\<close>

fun recording :: "worker_pc \<Rightarrow> u64 option" where
  "recording (Entered j c) = Some c" | "recording (BumpFlight j c s) = Some c" | "recording _ = None"

fun seen_ok :: "u64 \<Rightarrow> worker_pc \<Rightarrow> bool" where
  "seen_ok mx (BumpFlight j c s) = (s \<le> mx)" | "seen_ok mx _ = True"

definition total_of :: "(worker_pc \<Rightarrow> u64) \<Rightarrow> worker_pc list \<Rightarrow> u64" where
  "total_of f ws = sum_list (map f ws)"

lemma sum_list_update_add:
  fixes f :: "'a \<Rightarrow> 'b :: comm_monoid_add"
  shows "i < length ws \<Longrightarrow> sum_list (map f (ws[i := x])) + f (ws ! i) = sum_list (map f ws) + f x"
proof (induction ws arbitrary: i)
  case (Cons w ws)
  then show ?case by (cases i) (simp_all add: ac_simps)
qed simp

lemma total_of_update:
  assumes "i < length ws"
  shows "total_of f (ws[i := x]) = total_of f ws - f (ws ! i) + f x"
  using sum_list_update_add [OF assms, of f x] by (simp add: total_of_def algebra_simps)

lemma total_of_zero: "\<forall>w\<in>set ws. f w = 0 \<Longrightarrow> total_of f ws = 0"
  by (induction ws) (simp_all add: total_of_def)

lemma total_of_nat:
  assumes "\<And>w. f w = 0 \<or> f w = 1" and "length ws \<le> 2 ^ 32"
  shows "total_of f ws = of_nat (length (filter (\<lambda>w. f w = 1) ws))"
  using assms(2)
proof (induction ws)
  case (Cons w ws)
  then show ?case using assms(1) [of w] by (auto simp: total_of_def)
qed (simp add: total_of_def)

lemma weight_cases: "pending w = 0 \<or> pending w = 1" "flying w = 0 \<or> flying w = 1" "busy w = 0 \<or> busy w = 1"
  by (cases w; simp)+

lemma total_of_bound:
  assumes "\<And>w. f w = 0 \<or> f w = 1" and "length ws \<le> N_WORKERS"
  shows "unat (total_of f ws) = length (filter (\<lambda>w. f w = 1) ws)" and "unat (total_of f ws) \<le> length ws"
proof -
  let ?n = "length (filter (\<lambda>w. f w = 1) ws)"
  have le: "?n \<le> length ws" "length ws \<le> 64" using assms(2) by (simp_all add: N_WORKERS_def)
  have "total_of f ws = of_nat ?n" using total_of_nat [of f ws] assms(1) le by simp
  moreover have "?n < 2 ^ 64" using order_trans [OF le] by (rule le_less_trans) simp
  then have "unat (of_nat ?n :: u64) = ?n" by (simp add: unsigned_of_nat take_bit_nat_eq_self)
  ultimately show "unat (total_of f ws) = ?n" "unat (total_of f ws) \<le> length ws" using le by simp_all
qed

section \<open>The invariant\<close>

text \<open>The counters against the queue and the threads.\<close>

definition counts_inv :: "pool \<Rightarrow> bool" where
  "counts_inv p \<longleftrightarrow>
     (let m = pl_m p; ws = pl_workers p; a = pl_acceptor p; q = pl_queue p
      in queue_depth m = of_nat (length q) + counted a + total_of pending ws
         \<and> in_flight m = total_of flying ws
         \<and> accepted m + unaccepted a = completed m + failed m + panicked m + of_nat (length q) + total_of busy ws
         \<and> length q \<le> QUEUE_CAP \<and> length ws \<le> N_WORKERS
         \<and> pl_sent p = pl_received p @ q)"

text \<open>The high-water mark of the workers.\<close>

definition max_inv :: "Metrics \<Rightarrow> worker_pc list \<Rightarrow> bool" where
  "max_inv m ws \<longleftrightarrow>
     unat (in_flight_max m) \<le> N_WORKERS
     \<and> (\<forall>k<length ws. \<forall>c. recording (ws ! k) = Some c \<longrightarrow> unat c \<le> N_WORKERS)
     \<and> (\<forall>k<length ws. seen_ok (in_flight_max m) (ws ! k))
     \<and> (in_flight m \<le> in_flight_max m \<or> (\<exists>k<length ws. \<exists>c. recording (ws ! k) = Some c \<and> in_flight m \<le> c))"

definition pool_inv :: "pool \<Rightarrow> bool" where
  "pool_inv p \<longleftrightarrow> counts_inv p \<and> max_inv (pl_m p) (pl_workers p)"

lemma history_not_counted [simp]:
  "counts_inv (p\<lparr>pl_verdicts := vs\<rparr>) = counts_inv p" "counts_inv (p\<lparr>pl_refused := js\<rparr>) = counts_inv p"
  "pool_inv (p\<lparr>pl_refused := js\<rparr>) = pool_inv p"
  by (simp_all add: counts_inv_def pool_inv_def)

lemma pool_inv_start: "spawned \<le> N_WORKERS \<Longrightarrow> pool_inv (pool_start spawned)"
proof -
  assume "spawned \<le> N_WORKERS"
  moreover have "total_of f (replicate n Receiving) = 0" if "f Receiving = 0" for f n
    using that by (induction n) (simp_all add: total_of_def)
  ultimately show ?thesis
    by (auto simp: pool_inv_def counts_inv_def max_inv_def pool_start_def metrics_default_def Let_def)
qed

lemma pool_inv_acceptor:
  assumes "pool_inv p" and "acceptor_step (pl_acceptor p) (pl_m p) (pl_queue p) pc' m' q' put"
  shows "pool_inv (p\<lparr>pl_m := m', pl_queue := q', pl_acceptor := pc', pl_sent := pl_sent p @ put\<rparr>)"
  using assms(2,1) by cases (auto simp: pool_inv_def counts_inv_def max_inv_def Let_def algebra_simps)

lemma counts_inv_worker:
  assumes "counts_inv p" and "i < length (pl_workers p)"
    and "worker_step (pl_workers p ! i) (pl_m p) (pl_queue p) pc' m' q' got"
  shows "counts_inv (p\<lparr>pl_m := m', pl_queue := q', pl_workers := (pl_workers p)[i := pc'],
      pl_received := pl_received p @ got\<rparr>)"
  using assms(3,1,2)
proof cases
  case (count_result j res)
  with assms(1,2) show ?thesis
    by (cases res) (auto simp: counts_inv_def Let_def total_of_update algebra_simps)
qed (auto simp: counts_inv_def Let_def total_of_update algebra_simps)

lemma flying_bound: "in_flight m = total_of flying ws \<Longrightarrow> length ws \<le> N_WORKERS \<Longrightarrow> unat (in_flight m) \<le> N_WORKERS"
  using total_of_bound(2) [of flying ws, OF weight_cases(2)] by simp

lemma word_dec_le: "(x :: u64) \<noteq> 0 \<Longrightarrow> x - 1 \<le> x"
  by (simp add: word_le_nat_alt unat_minus_one)

lemma flying_pos:
  assumes "in_flight m = total_of flying ws" "length ws \<le> N_WORKERS" "i < length ws" "flying (ws ! i) = 1"
  shows "in_flight m \<noteq> 0"
proof -
  have "ws ! i \<in> set (filter (\<lambda>w. flying w = 1) ws)" using assms(3,4) by simp
  then have "length (filter (\<lambda>w. flying w = 1) ws) \<noteq> 0" by (metis length_0_conv empty_iff list.set(1))
  with total_of_bound(1) [of flying ws, OF weight_cases(2) assms(2)] assms(1) show ?thesis by auto
qed

lemma max_inv_quiet:
  assumes "max_inv m ws" and "i < length ws" and "recording (ws ! i) = None" and "recording pc' = None"
    and "in_flight m' \<le> in_flight m" and "in_flight_max m' = in_flight_max m"
  shows "max_inv m' (ws[i := pc'])"
proof -
  have "seen_ok x pc'" for x using assms(4) by (cases pc') simp_all
  with assms show ?thesis by (auto simp: max_inv_def nth_list_update) (metis option.distinct(1) order_trans)+
qed

lemma max_inv_worker:
  assumes "pool_inv p" and "i < length (pl_workers p)"
    and "worker_step (pl_workers p ! i) (pl_m p) (pl_queue p) pc' m' q' got"
  shows "max_inv m' ((pl_workers p)[i := pc'])"
proof -
  let ?m = "pl_m p" and ?ws = "pl_workers p"
  have mx: "max_inv ?m ?ws" and fl: "in_flight ?m = total_of flying ?ws" "length ?ws \<le> N_WORKERS"
    using assms(1) by (simp_all add: pool_inv_def counts_inv_def Let_def)
  note quiet = max_inv_quiet [OF mx assms(2)]
  show ?thesis
    using assms(3)
  proof cases
    case (enter j)
    let ?p' = "p\<lparr>pl_m := m', pl_queue := q', pl_workers := ?ws[i := pc'], pl_received := pl_received p @ got\<rparr>"
    have "counts_inv ?p'" using assms by (intro counts_inv_worker) (simp_all add: pool_inv_def)
    then have "unat (in_flight m') \<le> N_WORKERS"
      by (intro flying_bound [of m' "?ws[i := pc']"]) (simp_all add: counts_inv_def Let_def)
    with enter mx assms(2) show ?thesis
      by (auto simp: max_inv_def nth_list_update intro!: exI [of _ i])
  next
    case (load_flight_max j cur)
    with mx assms(2) show ?thesis
      by (auto simp: max_inv_def nth_list_update) (metis recording.simps(1) recording.simps(2) option.inject)+
  next
    case (bump_flight_done cur seen v j)
    have c: "unat cur \<le> N_WORKERS" "seen \<le> in_flight_max ?m"
      using mx assms(2) bump_flight_done(1) by (auto simp: max_inv_def dest!: spec [of _ i])
    have v: "cur \<le> v" "in_flight_max ?m \<le> v" "unat v \<le> N_WORKERS"
      using bump_flight_done(6) c mx by (auto simp: bump_max_def max_inv_def split: if_splits)
    have "in_flight ?m \<le> v \<or> (\<exists>k<length ?ws. k \<noteq> i \<and> (\<exists>c. recording (?ws ! k) = Some c \<and> in_flight ?m \<le> c))"
      using mx v(1,2) bump_flight_done(1) by (auto simp: max_inv_def)
    moreover have "seen_ok v (?ws ! k)" if "k < length ?ws" for k
      using mx that v(2) by (cases "?ws ! k") (auto simp: max_inv_def dest: spec [of _ k])
    moreover have "in_flight m' \<le> in_flight_max m' \<or> (\<exists>k<length (?ws[i := pc']). \<exists>c.
        recording (?ws[i := pc'] ! k) = Some c \<and> in_flight m' \<le> c)"
      using calculation(1) bump_flight_done(3) by (elim disjE exE conjE) (auto simp: nth_list_update)
    moreover have "recording pc' = None" "seen_ok v pc'" "in_flight_max m' = v" using bump_flight_done by simp_all
    ultimately show ?thesis using mx v(3) assms(2) unfolding max_inv_def by (simp add: nth_list_update)
  next
    case (bump_flight_retry cur seen v j)
    with mx assms(2) have "v = in_flight_max ?m" by (auto simp: bump_max_def split: if_splits)
    with bump_flight_retry mx assms(2) show ?thesis
      by (auto simp: max_inv_def nth_list_update) (metis recording.simps(2) option.inject)+
  next
    case (leave j res)
    with flying_pos [OF fl assms(2)] have "in_flight m' \<le> in_flight ?m" by (simp add: word_dec_le)
    with leave quiet show ?thesis by simp
  next
    case (count_result j res)
    with quiet show ?thesis by (cases res) simp_all
  qed (use quiet in simp_all)
qed

lemma pool_inv_worker:
  assumes "pool_inv p" and "pool_worker_step p p'"
  shows "pool_inv p'"
  using assms(2)
proof cases
  case (pool_worker i pc' m' q' got)
  with assms(1) counts_inv_worker [of p i pc' m' q' got] max_inv_worker [of p i pc' m' q' got]
  show ?thesis by (simp add: pool_inv_def)
qed

lemma pool_inv_step:
  assumes "pool_inv p" and "pool_step p p'"
  shows "pool_inv p'"
  using assms(2)
proof cases
  case (pool_acceptor pc' m' q' put)
  with assms(1) pool_inv_acceptor show ?thesis by simp
next
  case pool_work
  with assms(1) show ?thesis by (rule pool_inv_worker)
next
  case (pool_spurious i pc')
  then obtain j cur seen where pc: "pl_workers p ! i = BumpFlight j cur seen"
      "pc' = BumpFlight j cur (in_flight_max (pl_m p))"
    by (auto elim: spurious_step.cases)
  have "max_inv (pl_m p) ((pl_workers p)[i := pc'])"
    using assms(1) pool_spurious(2) pc
    by (auto simp: pool_inv_def max_inv_def nth_list_update) (metis recording.simps(2) option.inject)+
  moreover have "counts_inv (p\<lparr>pl_workers := (pl_workers p)[i := pc']\<rparr>)"
    using assms(1) pool_spurious(2) pc by (auto simp: pool_inv_def counts_inv_def Let_def total_of_update)
  ultimately show ?thesis using pool_spurious(1) by (simp add: pool_inv_def)
qed

lemma pool_reachable_inv: "pool_reachable n p \<Longrightarrow> pool_inv p \<and> length (pl_workers p) = n"
proof (induction rule: pool_reachable.induct)
  case (pool_init spawned)
  then show ?case by (simp add: pool_inv_start) (simp add: pool_start_def)
next
  case (pool_next spawned p p')
  then have "length (pl_workers p') = length (pl_workers p)"
    by (auto elim!: pool_step.cases pool_worker_step.cases)
  with pool_next pool_inv_step show ?case by auto
qed

text \<open>
  The counters against the history.  Each counter of a verdict is the number of such verdicts of the
  handler, but for those a worker has yet to count; a job that left the queue is held by a worker without
  a verdict or has its one verdict.
\<close>

definition history_inv :: "pool \<Rightarrow> bool" where
  "history_inv p \<longleftrightarrow>
     (let m = pl_m p; ws = pl_workers p; a = pl_acceptor p
      in accepted m + unaccepted a = of_nat (length (pl_sent p))
         \<and> shed m + unshed a = of_nat (length (pl_refused p))
         \<and> (\<forall>r. counter_of r m + total_of (uncounted r) ws = of_nat (length (filter (\<lambda>v. snd v = r) (pl_verdicts p))))
         \<and> mset (pl_received p) = mset (map fst (pl_verdicts p)) + held_jobs ws)"

lemma history_inv_start: "history_inv (pool_start n)"
proof -
  have "held_jobs (replicate n Receiving) = {#}" by (induction n) (simp_all add: held_jobs_def)
  moreover have "total_of (uncounted r) (replicate n Receiving) = 0" for r by (rule total_of_zero) auto
  moreover have "counter_of r metrics_default = 0" for r by (cases r) (simp_all add: metrics_default_def)
  ultimately show ?thesis by (simp add: history_inv_def pool_start_def) (simp add: metrics_default_def)
qed

lemma counter_of_unchanged:
  "completed m' = completed m \<Longrightarrow> failed m' = failed m \<Longrightarrow> panicked m' = panicked m \<Longrightarrow> counter_of r m' = counter_of r m"
  by (cases r) simp_all

lemma acceptor_step_history:
  assumes "acceptor_step pc m q pc' m' q' put"
  shows "accepted m' + unaccepted pc' = accepted m + unaccepted pc + of_nat (length put)"
    and "shed m' + unshed pc' = shed m + unshed pc + of_nat (length (refusal pc pc'))"
    and "counter_of r m' = counter_of r m"
  using assms by (cases; auto intro: counter_of_unchanged)+

lemma history_inv_acceptor:
  assumes "history_inv p" and "acceptor_step (pl_acceptor p) (pl_m p) (pl_queue p) pc' m' q' put"
  shows "history_inv (p\<lparr>pl_m := m', pl_queue := q', pl_acceptor := pc', pl_sent := pl_sent p @ put,
      pl_refused := pl_refused p @ refusal (pl_acceptor p) pc'\<rparr>)"
  using assms(1) acceptor_step_history [OF assms(2)] by (simp add: history_inv_def Let_def)

lemma count_outcome_other [simp]:
  "accepted (count_outcome res m) = accepted m" "shed (count_outcome res m) = shed m"
  by (cases res; simp)+

lemma held_jobs_update:
  "i < length ws \<Longrightarrow> held_jobs (ws[i := x]) + mset (unserved (ws ! i)) = held_jobs ws + mset (unserved x)"
  using sum_list_update_add [of i ws "\<lambda>w. mset (unserved w)" x] by (simp add: held_jobs_def)

text \<open>What a worker's step does to each summand of the invariant.\<close>

lemma worker_step_history:
  assumes "worker_step pc m q pc' m' q' got"
  shows "accepted m' = accepted m \<and> shed m' = shed m
    \<and> counter_of r m' + uncounted r pc' = counter_of r m + uncounted r pc + of_nat (length (filter (\<lambda>v. snd v = r) (verdict pc pc')))
    \<and> mset got + mset (unserved pc) = mset (map fst (verdict pc pc')) + mset (unserved pc')"
  using assms
proof cases
  case (count_result j res)
  then show ?thesis by (cases res; cases r) simp_all
qed (auto intro: counter_of_unchanged)

lemma exchange_mset:
  fixes g h v h' u u' :: "'a multiset"
  assumes "g + u = v + u'" and "h' + u = h + u'"
  shows "g + h = v + h'"
proof -
  have "(g + h) + u = (g + u) + h" by (simp only: ac_simps)
  also have "\<dots> = v + (h + u')" by (simp only: assms(1) ac_simps)
  also have "\<dots> = (v + h') + u" by (simp only: assms(2) [symmetric] ac_simps)
  finally show ?thesis by simp
qed

lemma history_inv_worker:
  assumes "history_inv p" and "i < length (pl_workers p)"
    and "worker_step (pl_workers p ! i) (pl_m p) (pl_queue p) pc' m' q' got"
  shows "history_inv (p\<lparr>pl_m := m', pl_queue := q', pl_workers := (pl_workers p)[i := pc'],
      pl_received := pl_received p @ got, pl_verdicts := pl_verdicts p @ verdict (pl_workers p ! i) pc'\<rparr>)"
proof -
  let ?v = "verdict (pl_workers p ! i) pc'" and ?ws = "(pl_workers p)[i := pc']"
  note step = worker_step_history [OF assms(3)]
  have count: "counter_of r m' + total_of (uncounted r) ?ws
      = of_nat (length (filter (\<lambda>v. snd v = r) (pl_verdicts p @ ?v)))" for r
  proof -
    have "counter_of r m' = counter_of r (pl_m p) + uncounted r (pl_workers p ! i) + of_nat (length (filter (\<lambda>v. snd v = r) ?v))
        - uncounted r pc'"
      using step [of r] by (simp add: eq_diff_eq)
    moreover have "of_nat (length (filter (\<lambda>v. snd v = r) (pl_verdicts p))) = counter_of r (pl_m p) + total_of (uncounted r) (pl_workers p)"
      using assms(1) by (simp add: history_inv_def Let_def)
    ultimately show ?thesis by (simp add: total_of_update [OF assms(2)])
  qed
  have "mset got + held_jobs (pl_workers p) = mset (map fst ?v) + held_jobs ?ws"
    by (rule exchange_mset [OF _ held_jobs_update [OF assms(2)]]) (use step in blast)
  then have jobs: "mset (pl_received p @ got) = mset (map fst (pl_verdicts p @ ?v)) + held_jobs ?ws"
    using assms(1) by (simp add: history_inv_def Let_def ac_simps)
  have "accepted m' = accepted (pl_m p)" "shed m' = shed (pl_m p)" using step by blast+
  then have "accepted m' + unaccepted (pl_acceptor p) = of_nat (length (pl_sent p))"
    "shed m' + unshed (pl_acceptor p) = of_nat (length (pl_refused p))"
    using assms(1) by (simp_all add: history_inv_def Let_def)
  with count jobs show ?thesis unfolding history_inv_def Let_def by simp
qed

lemma history_inv_step:
  assumes "history_inv p" and "pool_step p p'"
  shows "history_inv p'"
  using assms(2)
proof cases
  case (pool_acceptor pc' m' q' put)
  with assms(1) history_inv_acceptor show ?thesis by simp
next
  case pool_work
  with assms(1) history_inv_worker show ?thesis by (auto elim!: pool_worker_step.cases)
next
  case (pool_spurious i pc')
  then obtain j cur seen where pc: "pl_workers p ! i = BumpFlight j cur seen"
      "pc' = BumpFlight j cur (in_flight_max (pl_m p))"
    by (auto elim: spurious_step.cases)
  with pool_spurious assms(1) held_jobs_update [of i "pl_workers p" pc'] show ?thesis
    by (simp add: history_inv_def Let_def total_of_update)
qed

lemma pool_reachable_history: "pool_reachable n p \<Longrightarrow> history_inv p"
  by (induction rule: pool_reachable.induct) (auto intro: history_inv_start history_inv_step)

lemma unat_of_nat_u64: "n < 2 ^ 64 \<Longrightarrow> unat (of_nat n :: u64) = n"
  by (simp add: unsigned_of_nat take_bit_nat_eq_self)

section \<open>Bounded work\<close>

fun rank :: "worker_pc \<Rightarrow> nat" where
  "rank Receiving = 0"
| "rank (Reporting j) = 1"
| "rank (Counting j r) = 2"
| "rank (Leaving j r) = 3"
| "rank (Handled j r) = 4"
| "rank (Handling j) = 5"
| "rank (BumpFlight j c s) = 6 + (unat c - unat s)"
| "rank (Entered j c) = 7 + unat c"
| "rank (Entering j) = 8 + N_WORKERS"
| "rank (Received j) = 9 + N_WORKERS"

definition work :: "pool \<Rightarrow> nat" where
  "work p = (10 + N_WORKERS) * length (pl_queue p) + sum_list (map rank (pl_workers p))"

lemma worker_step_rank:
  assumes "worker_step pc m q pc' m' q' got" and "seen_ok (in_flight_max m) pc"
    and "\<forall>c. recording pc' = Some c \<longrightarrow> unat c \<le> N_WORKERS"
  shows "(10 + N_WORKERS) * length q' + rank pc' < (10 + N_WORKERS) * length q + rank pc"
  using assms
proof cases
  case (bump_flight_retry cur seen v j)
  then have "seen < v" "seen < cur" using assms(2) by (auto simp: bump_max_def split: if_splits)
  then have "unat seen < unat v" "unat seen < unat cur" by (simp_all add: word_less_nat_alt)
  with bump_flight_retry show ?thesis by simp
qed (auto simp: algebra_simps)

lemma pool_worker_step_work:
  assumes "pool_inv p" and "pool_worker_step p p'"
  shows "work p' < work p"
  using assms(2)
proof cases
  case (pool_worker i pc' m' q' got)
  let ?ws = "pl_workers p"
  have "pool_inv p'" using pool_inv_worker assms by blast
  then have "max_inv m' (?ws[i := pc'])" using pool_worker(1) by (simp add: pool_inv_def)
  then have "\<forall>c. recording pc' = Some c \<longrightarrow> unat c \<le> N_WORKERS"
    using pool_worker(2) by (auto simp: max_inv_def dest: spec [of _ i])
  moreover have "seen_ok (in_flight_max (pl_m p)) (?ws ! i)"
    using assms(1) pool_worker(2) by (simp add: pool_inv_def max_inv_def)
  ultimately have "(10 + N_WORKERS) * length q' + rank pc' < (10 + N_WORKERS) * length (pl_queue p) + rank (?ws ! i)"
    using worker_step_rank [OF pool_worker(3)] by simp
  with sum_list_update_add [OF pool_worker(2), of rank pc'] pool_worker(1) show ?thesis by (simp add: work_def)
qed

lemma worker_run_bound: "(pool_worker_step ^^ k) p p' \<Longrightarrow> pool_inv p \<Longrightarrow> pool_inv p' \<and> k + work p' \<le> work p"
proof (induction k arbitrary: p')
  case (Suc k)
  then obtain p1 where "(pool_worker_step ^^ k) p p1" "pool_worker_step p1 p'" by auto
  with Suc.IH Suc.prems(2) pool_inv_worker pool_worker_step_work show ?case by fastforce
qed simp

lemma rank_bound:
  assumes "max_inv m ws" and "k < length ws"
  shows "rank (ws ! k) \<le> 9 + N_WORKERS"
  using assms by (cases "ws ! k") (auto simp: max_inv_def dest!: spec [of _ k])

lemma rank_sum: "\<forall>w\<in>set ws. rank w \<le> b \<Longrightarrow> sum_list (map rank ws) \<le> b * length ws"
  by (induction ws) (auto simp: add_mono)

lemma work_bound:
  assumes "pool_inv p"
  shows "work p \<le> (10 + N_WORKERS) * QUEUE_CAP + (9 + N_WORKERS) * N_WORKERS"
proof -
  have "\<forall>w\<in>set (pl_workers p). rank w \<le> 9 + N_WORKERS"
    using assms rank_bound by (fastforce simp: pool_inv_def in_set_conv_nth)
  then have "sum_list (map rank (pl_workers p)) \<le> (9 + N_WORKERS) * length (pl_workers p)"
    by (rule rank_sum)
  also have "\<dots> \<le> (9 + N_WORKERS) * N_WORKERS"
    using assms by (intro mult_left_mono) (simp_all add: pool_inv_def counts_inv_def Let_def)
  finally show ?thesis
    using assms by (simp add: work_def pool_inv_def counts_inv_def Let_def add_mono mult_left_mono)
qed

text \<open>A pool at rest: nothing is queued and every worker waits.\<close>

definition at_rest :: "pool \<Rightarrow> bool" where
  "at_rest p \<longleftrightarrow> pl_queue p = [] \<and> set (pl_workers p) \<subseteq> {Receiving}"

lemma worker_progress: "pc \<noteq> Receiving \<Longrightarrow> \<exists>pc' m' q' got. worker_step pc m q pc' m' q' got"
proof (cases pc)
  case (BumpFlight j cur seen)
  then show ?thesis
    using bump_flight_done [of cur seen m _ j q] bump_flight_retry [of cur seen m _ j q]
    by (cases "bump_max cur seen (in_flight_max m)") blast+
qed (metis worker_step.intros)+

lemma pool_progress:
  assumes "\<not> at_rest p" and "pl_workers p \<noteq> []"
  shows "\<exists>p'. pool_worker_step p p'"
proof (cases "\<exists>i<length (pl_workers p). pl_workers p ! i \<noteq> Receiving")
  case True
  then obtain i where "i < length (pl_workers p)" "pl_workers p ! i \<noteq> Receiving" by blast
  with worker_progress [of "pl_workers p ! i" "pl_m p" "pl_queue p"] pool_worker show ?thesis by blast
next
  case False
  then have "set (pl_workers p) \<subseteq> {Receiving}" by (auto simp: in_set_conv_nth)
  with assms(1) obtain j q where "pl_queue p = j # q" by (cases "pl_queue p") (auto simp: at_rest_def)
  moreover have "pl_workers p ! 0 = Receiving" "0 < length (pl_workers p)" using False assms(2) by auto
  ultimately show ?thesis using pool_worker [of 0 p] recv by metis
qed

lemma pool_rests: "pool_inv p \<Longrightarrow> pl_workers p \<noteq> [] \<Longrightarrow> \<exists>p'. pool_worker_step\<^sup>*\<^sup>* p p' \<and> at_rest p'"
proof (induction "work p" arbitrary: p rule: less_induct)
  case less
  show ?case
  proof (cases "at_rest p")
    case False
    with less.prems(2) pool_progress obtain p1 where p1: "pool_worker_step p p1" by blast
    then have "pl_workers p1 \<noteq> []" using less.prems(2) by (auto elim: pool_worker_step.cases)
    with less.hyps [OF pool_worker_step_work] less.prems(1) p1 pool_inv_worker obtain p'
      where "pool_worker_step\<^sup>*\<^sup>* p1 p'" "at_rest p'" by blast
    with p1 show ?thesis by (meson converse_rtranclp_into_rtranclp)
  qed blast
qed

lemma pool_start_acceptor: "pl_acceptor (pool_start n) = Accepting"
  by (simp add: pool_start_def)

section \<open>Properties\<close>

text \<open>Steps from one explicit state to the next, for the examples.\<close>

lemma reach_acceptor:
  assumes "pool_reachable n \<lparr>pl_m = m, pl_queue = q, pl_acceptor = pc, pl_workers = ws, pl_sent = snt, pl_received = rcv,
      pl_refused = rfd, pl_verdicts = vs\<rparr>" and "acceptor_step pc m q pc' m' q' put"
  shows "pool_reachable n \<lparr>pl_m = m', pl_queue = q', pl_acceptor = pc', pl_workers = ws, pl_sent = snt @ put,
      pl_received = rcv, pl_refused = rfd @ refusal pc pc', pl_verdicts = vs\<rparr>"
  using pool_next [OF assms(1) pool_acceptor, of pc' m' q' put] assms(2) by simp

lemma reach_worker:
  assumes "pool_reachable n p" and "pool_worker_step p p'"
  shows "pool_reachable n p'"
  using assms by (blast intro: pool_next pool_work)

lemma first_worker:
  assumes "worker_step pc m q pc' m' q' got"
  shows "pool_worker_step \<lparr>pl_m = m, pl_queue = q, pl_acceptor = a, pl_workers = pc # ws, pl_sent = snt, pl_received = rcv,
      pl_refused = rfd, pl_verdicts = vs\<rparr>
    \<lparr>pl_m = m', pl_queue = q', pl_acceptor = a, pl_workers = pc' # ws, pl_sent = snt, pl_received = rcv @ got,
      pl_refused = rfd, pl_verdicts = vs @ verdict pc pc'\<rparr>"
  using pool_worker [of 0 "\<lparr>pl_m = m, pl_queue = q, pl_acceptor = a, pl_workers = pc # ws, pl_sent = snt, pl_received = rcv,
      pl_refused = rfd, pl_verdicts = vs\<rparr>" pc' m' q' got] assms by simp

definition queued_metrics :: Metrics where
  "queued_metrics = metrics_default\<lparr>queue_depth := 1, queue_depth_max := 1, accepted := 1\<rparr>"

text \<open>Two workers and one accepted job in the queue.\<close>

definition queued_pool :: pool where
  "queued_pool = \<lparr>pl_m = queued_metrics, pl_queue = [5], pl_acceptor = Accepting, pl_workers = [Receiving, Receiving],
     pl_sent = [5], pl_received = [], pl_refused = [], pl_verdicts = []\<rparr>"

lemma queued_reachable: "pool_reachable 2 queued_pool"
proof -
  let ?m1 = "metrics_default\<lparr>queue_depth := 1\<rparr>"
  let ?m2 = "metrics_default\<lparr>queue_depth := 1, queue_depth_max := 1\<rparr>"
  have "pool_reachable 2 (pool_start 2)" by (rule pool_init) (simp add: N_WORKERS_def)
  from reach_acceptor [OF this [unfolded pool_start_def] accept [of metrics_default "[]" 5]]
  have "pool_reachable 2 \<lparr>pl_m = ?m1, pl_queue = [], pl_acceptor = Counted 5 1, pl_workers = replicate 2 Receiving,
      pl_sent = [], pl_received = [], pl_refused = [], pl_verdicts = []\<rparr>" by (simp add: metrics_default_def)
  from reach_acceptor [OF this load_queue_max]
  have "pool_reachable 2 \<lparr>pl_m = ?m1, pl_queue = [], pl_acceptor = BumpQueue 5 1 0, pl_workers = replicate 2 Receiving,
      pl_sent = [], pl_received = [], pl_refused = [], pl_verdicts = []\<rparr>" by (simp add: metrics_default_def)
  from reach_acceptor [OF this bump_queue_done [of _ _ _ 1]]
  have "pool_reachable 2 \<lparr>pl_m = ?m2, pl_queue = [], pl_acceptor = Sending 5, pl_workers = replicate 2 Receiving,
      pl_sent = [], pl_received = [], pl_refused = [], pl_verdicts = []\<rparr>" by (simp add: metrics_default_def bump_max_def)
  from reach_acceptor [OF this send]
  have "pool_reachable 2 \<lparr>pl_m = ?m2, pl_queue = [5], pl_acceptor = Queued, pl_workers = replicate 2 Receiving,
      pl_sent = [5], pl_received = [], pl_refused = [], pl_verdicts = []\<rparr>" by (simp add: QUEUE_CAP_def)
  from reach_acceptor [OF this count_accepted] show ?thesis
    by (simp add: queued_pool_def queued_metrics_def metrics_default_def numeral_2_eq_2)
qed

text \<open>The first worker has taken the job and is about to count a failure.\<close>

definition failing_pool :: pool where
  "failing_pool = \<lparr>pl_m = queued_metrics\<lparr>queue_depth := 0, in_flight_max := 1, handle_ns_total := 7\<rparr>, pl_queue = [],
     pl_acceptor = Accepting, pl_workers = [Counting 5 Failed, Receiving], pl_sent = [5], pl_received = [5],
     pl_refused = [], pl_verdicts = [(5, Failed)]\<rparr>"

text \<open>The first worker runs the handler.\<close>

definition flying_pool :: pool where
  "flying_pool = \<lparr>pl_m = queued_metrics\<lparr>queue_depth := 0, in_flight := 1, in_flight_max := 1\<rparr>, pl_queue = [],
     pl_acceptor = Accepting, pl_workers = [Handling 5, Receiving], pl_sent = [5], pl_received = [5],
     pl_refused = [], pl_verdicts = []\<rparr>"

lemma five_steps: "R a b \<Longrightarrow> R b c \<Longrightarrow> R c d \<Longrightarrow> R d e \<Longrightarrow> R e f \<Longrightarrow> (R ^^ 5) a f"
  by (auto simp: eval_nat_numeral OO_def)

lemma flying_run: "(pool_worker_step ^^ 5) queued_pool flying_pool"
proof -
  let ?P = "\<lambda>m q pc rcv. \<lparr>pl_m = m, pl_queue = q, pl_acceptor = Accepting, pl_workers = [pc, Receiving],
     pl_sent = [5], pl_received = rcv, pl_refused = [], pl_verdicts = []\<rparr>"
  let ?m1 = "queued_metrics\<lparr>queue_depth := 0\<rparr>"
  let ?m2 = "queued_metrics\<lparr>queue_depth := 0, in_flight := 1\<rparr>"
  have "pool_worker_step queued_pool (?P queued_metrics [] (Received 5) [5])"
    using first_worker [OF recv [of queued_metrics 5 "[]"], of Accepting "[Receiving]" "[5]" "[]" "[]" "[]"]
    by (simp add: queued_pool_def)
  moreover have "pool_worker_step (?P queued_metrics [] (Received 5) [5]) (?P ?m1 [] (Entering 5) [5])"
    using first_worker [OF dequeue [of 5 queued_metrics "[]"], of Accepting "[Receiving]" "[5]" "[5]" "[]" "[]"]
    by (simp add: queued_metrics_def)
  moreover have "pool_worker_step (?P ?m1 [] (Entering 5) [5]) (?P ?m2 [] (Entered 5 1) [5])"
    using first_worker [OF enter [of 5 ?m1 "[]"], of Accepting "[Receiving]" "[5]" "[5]" "[]" "[]"]
    by (simp add: queued_metrics_def metrics_default_def)
  moreover have "pool_worker_step (?P ?m2 [] (Entered 5 1) [5]) (?P ?m2 [] (BumpFlight 5 1 0) [5])"
    using first_worker [OF load_flight_max [of 5 1 ?m2 "[]"], of Accepting "[Receiving]" "[5]" "[5]" "[]" "[]"]
    by (simp add: queued_metrics_def metrics_default_def)
  moreover have "pool_worker_step (?P ?m2 [] (BumpFlight 5 1 0) [5]) flying_pool"
    using first_worker [OF bump_flight_done [of 1 0 ?m2 1 5 "[]"], of Accepting "[Receiving]" "[5]" "[5]" "[]" "[]"]
    by (simp add: flying_pool_def queued_metrics_def metrics_default_def bump_max_def)
  ultimately show ?thesis by (rule five_steps)
qed

lemma flying_reachable: "pool_reachable 2 flying_pool"
proof -
  have "pool_reachable n p \<Longrightarrow> (pool_worker_step ^^ k) p p' \<Longrightarrow> pool_reachable n p'" for n k p p'
    by (induction k arbitrary: p') (auto intro: reach_worker)
  with queued_reachable flying_run show ?thesis by blast
qed

lemma failing_reachable: "pool_reachable 2 failing_pool"
proof -
  let ?P = "\<lambda>m pc. \<lparr>pl_m = m, pl_queue = [], pl_acceptor = Accepting, pl_workers = [pc, Receiving],
     pl_sent = [5], pl_received = [5], pl_refused = [], pl_verdicts = [(5, Failed)]\<rparr>"
  let ?m = "pl_m flying_pool"
  have "pool_worker_step flying_pool (?P ?m (Handled 5 Failed))"
    using first_worker [OF run_handler [of 5 ?m "[]" Failed 0 0 0], of Accepting "[Receiving]" "[5]" "[5]" "[]" "[]"]
    by (simp add: flying_pool_def queued_metrics_def metrics_default_def)
  moreover have "pool_worker_step (?P ?m (Handled 5 Failed)) (?P (?m\<lparr>handle_ns_total := 7\<rparr>) (Leaving 5 Failed))"
    using first_worker [OF count_time [of 5 Failed ?m "[]" 7], of Accepting "[Receiving]" "[5]" "[5]" "[]" "[(5, Failed)]"]
    by (simp add: flying_pool_def queued_metrics_def metrics_default_def)
  moreover have "pool_worker_step (?P (?m\<lparr>handle_ns_total := 7\<rparr>) (Leaving 5 Failed)) failing_pool"
    using first_worker [OF leave [of 5 Failed "?m\<lparr>handle_ns_total := 7\<rparr>" "[]"], of Accepting "[Receiving]" "[5]" "[5]" "[]" "[(5, Failed)]"]
    by (simp add: failing_pool_def flying_pool_def queued_metrics_def metrics_default_def)
  ultimately show ?thesis using flying_reachable by (blast intro: reach_worker)
qed

text \<open>
  C14: The counters are exact.  In every reachable state of the pool, under every interleaving of the
  acceptor and the workers and with spurious failures of the compare-and-exchange:
  jobs leave the queue in the order they entered it, the queue is within its capacity, and every job that
  left the queue is held by one worker or has one verdict of the handler;
  the gauge of the queue is the queued jobs, the job the acceptor has counted and the jobs workers have yet
  to uncount; the gauge of running jobs is the number of workers inside a job, and its high-water mark is at
  most the number of workers;
  the counters of accepted and of shed connections are those that entered the queue and those that found
  it full, but for the one the acceptor has yet to count; each of the counters of completed, failed and
  panicked jobs is the number of such verdicts, but for those a worker has yet to count; and together they
  balance with the accepted jobs.
\<close>

theorem pool_counters:
  assumes "pool_reachable n p"
  shows "pl_sent p = pl_received p @ pl_queue p \<and> length (pl_queue p) \<le> QUEUE_CAP
    \<and> mset (pl_received p) = mset (map fst (pl_verdicts p)) + held_jobs (pl_workers p)
    \<and> unat (queue_depth (pl_m p)) = length (pl_queue p) + unat (counted (pl_acceptor p))
        + length (filter (\<lambda>w. pending w = 1) (pl_workers p))
    \<and> unat (in_flight (pl_m p)) = length (filter (\<lambda>w. flying w = 1) (pl_workers p))
    \<and> unat (in_flight (pl_m p)) \<le> n \<and> unat (in_flight_max (pl_m p)) \<le> N_WORKERS
    \<and> accepted (pl_m p) + unaccepted (pl_acceptor p) = of_nat (length (pl_sent p))
    \<and> shed (pl_m p) + unshed (pl_acceptor p) = of_nat (length (pl_refused p))
    \<and> (\<forall>r. counter_of r (pl_m p) + total_of (uncounted r) (pl_workers p)
          = of_nat (length (filter (\<lambda>v. snd v = r) (pl_verdicts p))))
    \<and> accepted (pl_m p) + unaccepted (pl_acceptor p)
        = completed (pl_m p) + failed (pl_m p) + panicked (pl_m p) + of_nat (length (pl_queue p)) + total_of busy (pl_workers p)"
proof -
  have inv: "counts_inv p" "max_inv (pl_m p) (pl_workers p)" and n: "length (pl_workers p) = n"
    using pool_reachable_inv [OF assms] by (simp_all add: pool_inv_def)
  then have w: "length (pl_workers p) \<le> N_WORKERS" by (simp add: counts_inv_def Let_def)
  let ?q = "length (pl_queue p)" and ?c = "unat (counted (pl_acceptor p))"
    and ?k = "length (filter (\<lambda>w. pending w = 1) (pl_workers p))"
  have small: "?q \<le> 256" "?c \<le> 1" "?k \<le> 64"
    using inv(1) w order_trans [OF length_filter_le w]
    by (auto simp: counts_inv_def Let_def QUEUE_CAP_def N_WORKERS_def) (cases "pl_acceptor p"; simp)
  have "total_of pending (pl_workers p) = of_nat ?k"
    using total_of_nat [of pending "pl_workers p", OF weight_cases(1)] w by (simp add: N_WORKERS_def)
  then have "queue_depth (pl_m p) = of_nat (?q + ?c + ?k)"
    using inv(1) by (simp add: counts_inv_def Let_def)
  moreover have "unat (of_nat (?q + ?c + ?k) :: u64) = ?q + ?c + ?k"
    by (rule unat_of_nat_u64) (use small in simp)
  ultimately have "unat (queue_depth (pl_m p)) = ?q + ?c + ?k" by (simp only:)
  with inv n total_of_bound [of flying, OF weight_cases(2) w] pool_reachable_history [OF assms] show ?thesis
    by (simp add: counts_inv_def max_inv_def history_inv_def Let_def)
qed

theorem pool_counters_witness:
  "pool_reachable 2 failing_pool \<and> pl_verdicts failing_pool = [(5, Failed)]
   \<and> failed (pl_m failing_pool) + total_of (uncounted Failed) (pl_workers failing_pool) = 1
   \<and> completed (pl_m failing_pool) + total_of (uncounted Completed) (pl_workers failing_pool) = 0
   \<and> accepted (pl_m failing_pool) = 1 \<and> unat (queue_depth (pl_m failing_pool)) = 0"
proof -
  have v: "pl_verdicts failing_pool = [(5, Failed)]" "pl_sent failing_pool = [5]" "pl_acceptor failing_pool = Accepting"
    "pl_queue failing_pool = []" "filter (\<lambda>w. pending w = 1) (pl_workers failing_pool) = []"
    by (simp_all add: failing_pool_def)
  note exact = pool_counters [OF failing_reachable, unfolded v]
  then have "counter_of Failed (pl_m failing_pool) + total_of (uncounted Failed) (pl_workers failing_pool) = 1"
    "counter_of Completed (pl_m failing_pool) + total_of (uncounted Completed) (pl_workers failing_pool) = 0"
    by (auto dest: spec [of _ Failed] spec [of _ Completed])
  with exact failing_reachable v show ?thesis by simp
qed

text \<open>
  C23: The high-water mark is never behind for long.  In every reachable state in which no worker is
  recording a maximum, the recorded high-water mark is at least the number of running jobs, although
  it is raised by concurrent compare-and-exchange loops.
\<close>

theorem pool_high_water:
  assumes "pool_reachable n p" and "\<forall>w\<in>set (pl_workers p). recording w = None"
  shows "in_flight (pl_m p) \<le> in_flight_max (pl_m p)"
  using pool_reachable_inv [OF assms(1)] assms(2) by (auto simp: pool_inv_def max_inv_def)

theorem pool_high_water_witness:
  "in_flight (pl_m flying_pool) = 1 \<and> 1 \<le> in_flight_max (pl_m flying_pool)"
proof -
  have "in_flight (pl_m flying_pool) = 1" "\<forall>w\<in>set (pl_workers flying_pool). recording w = None"
    by (simp_all add: flying_pool_def)
  with pool_high_water [OF flying_reachable] show ?thesis by simp
qed



text \<open>
  C25: Accepted jobs can always be finished.  From every reachable state with a worker, worker steps alone
  reach a state at rest, in which every job ever queued was taken out in order, no job is counted as
  running, and the accepted jobs are the completed, failed and panicked ones together.
\<close>

theorem pool_drains:
  assumes "pool_reachable n p" and "0 < n"
  shows "\<exists>p'. pool_worker_step\<^sup>*\<^sup>* p p' \<and> at_rest p' \<and> pl_received p' = pl_sent p' \<and> in_flight (pl_m p') = 0
    \<and> accepted (pl_m p') + unaccepted (pl_acceptor p') = completed (pl_m p') + failed (pl_m p') + panicked (pl_m p')"
proof -
  have inv: "pool_inv p" "pl_workers p \<noteq> []" using pool_reachable_inv [OF assms(1)] assms(2) by auto
  from pool_rests [OF this] obtain p' where p': "pool_worker_step\<^sup>*\<^sup>* p p'" "at_rest p'" by blast
  from p'(1) inv(1) have "pool_inv p'" by (induction) (auto intro: pool_inv_worker)
  moreover have "total_of f (pl_workers p') = 0" if "f Receiving = 0" for f
  proof -
    have "\<forall>w\<in>set (pl_workers p'). f w = 0" using p'(2) that by (auto simp: at_rest_def)
    then show ?thesis by (rule total_of_zero)
  qed
  ultimately have "pl_received p' = pl_sent p'" "in_flight (pl_m p') = 0"
      "accepted (pl_m p') + unaccepted (pl_acceptor p') = completed (pl_m p') + failed (pl_m p') + panicked (pl_m p')"
    using p'(2) by (auto simp: pool_inv_def counts_inv_def at_rest_def Let_def)
  with p' show ?thesis by blast
qed

theorem pool_drains_witness:
  "\<exists>p'. pool_worker_step\<^sup>*\<^sup>* queued_pool p' \<and> at_rest p' \<and> pl_received p' = pl_sent p'
     \<and> accepted (pl_m p') + unaccepted (pl_acceptor p') = completed (pl_m p') + failed (pl_m p') + panicked (pl_m p')"
  using pool_drains [OF queued_reachable] by auto

end
