(* ===== verification/Snapshot.thy ===== *)
theory Snapshot
  imports Pool "HOL-Library.Log_Nat"
begin

text \<open>
  The metrics port (\<^verbatim>\<open>Metrics::snapshot\<close> and \<^verbatim>\<open>serve_metrics\<close>): a JSON object of the
  counters with two averages in milliseconds, written as one frame to every client.

  The averages are computed in \<^verbatim>\<open>f64\<close>.  Their operands are non-negative, at most \<open>2 ^ 64\<close> and, when
  not zero, at least \<open>2 ^ - 90\<close>, where a double is a number with 53 significant bits and every operation
  is the exact one rounded to the nearest such number, ties to even (IEEE 754): \<open>f64_round\<close> on
  rationals.
\<close>

section \<open>Doubles\<close>

text \<open>The largest power of two not above a positive rational.\<close>

definition ilog2 :: "rat \<Rightarrow> int" where
  "ilog2 q =
     (case quotient_of q of (a, b) \<Rightarrow>
        let k = bitlen a - bitlen b
        in if 2 powi k \<le> q then k else k - 1)"

definition round_half_even :: "rat \<Rightarrow> int" where
  "round_half_even q =
     (let n = \<lfloor>q\<rfloor>; f = q - of_int n
      in if f < 1 / 2 \<or> (f = 1 / 2 \<and> even n) then n else n + 1)"

definition f64_round :: "rat \<Rightarrow> rat" where
  "f64_round q =
     (if q \<le> 0 then 0
      else let e = ilog2 q - 52 in of_int (round_half_even (q / 2 powi e)) * 2 powi e)"

text \<open>The bits of a double: exponent with bias 1023 and the mantissa without its leading one.\<close>

definition f64_bits :: "rat \<Rightarrow> u64" where
  "f64_bits q =
     (if q = 0 then 0
      else of_int ((ilog2 q + 1023) * 2 ^ 52 + (\<lfloor>q / 2 powi (ilog2 q - 52)\<rfloor> - 2 ^ 52)))"

section \<open>The snapshot\<close>

text \<open>The closure \<^verbatim>\<open>round2\<close>; \<^verbatim>\<open>f64::round\<close> of a non-negative number rounds half up.\<close>

definition round2 :: "rat \<Rightarrow> rat" where
  "round2 x = f64_round (of_int \<lfloor>f64_round (x * 100) + 1 / 2\<rfloor> / 100)"

definition avg_ms :: "u64 \<Rightarrow> u64 \<Rightarrow> rat" where
  "avg_ms ns n =
     (if 0 < n
      then round2 (f64_round (f64_round (f64_round (of_int (uint ns)) / f64_round (of_int (uint n))) / 1000000))
      else 0)"

definition json_u64 :: "u64 \<Rightarrow> json" where
  "json_u64 n = JNumber (NInt (uint n))"

definition snapshot_json :: "Metrics \<Rightarrow> json" where
  "snapshot_json m =
     (let done_jobs = completed m + failed m + panicked m;
          nc = nsm_calls m
      in json_object
           [(''n_workers'', JNumber (NInt (int N_WORKERS))), (''queue_cap'', JNumber (NInt (int QUEUE_CAP))),
            (''accepted'', json_u64 (accepted m)), (''shed'', json_u64 (shed m)),
            (''completed'', json_u64 (completed m)), (''failed'', json_u64 (failed m)),
            (''panicked'', json_u64 (panicked m)), (''in_flight'', json_u64 (in_flight m)),
            (''in_flight_max'', json_u64 (in_flight_max m)), (''queue_depth'', json_u64 (queue_depth m)),
            (''queue_depth_max'', json_u64 (queue_depth_max m)),
            (''avg_handle_ms'', JNumber (NFloat (f64_bits (avg_ms (handle_ns_total m) done_jobs)))),
            (''avg_nsm_ms'', JNumber (NFloat (f64_bits (avg_ms (nsm_ns_total m) nc)))),
            (''nsm_calls'', json_u64 nc), (''resp_bytes_total'', json_u64 (resp_bytes_total m))])"

definition snapshot :: "('x) serde_scheme \<Rightarrow> Metrics \<Rightarrow> string" where
  "snapshot X m = value_json X (snapshot_json m)"

text \<open>
  The metrics thread: without the port it ends; otherwise it loops over the incoming connections.  An
  accepted one comes with the counters at that moment and gets their snapshot; the result of writing
  is ignored, and so is a connection that failed.
\<close>

fun serve_clients :: "('x) serde_scheme \<Rightarrow> (writer \<times> Metrics) option list \<Rightarrow> writer option list" where
  "serve_clients X [] = []"
| "serve_clients X (None # streams) = None # serve_clients X streams"
| "serve_clients X (Some (w, m) # streams) =
     Some (snd (write_frame w STATS (as_bytes (snapshot X m)))) # serve_clients X streams"

definition serve_metrics :: "('x) serde_scheme \<Rightarrow> bool \<Rightarrow> (writer \<times> Metrics) option list \<Rightarrow> writer option list" where
  "serve_metrics X bound streams = (if bound then serve_clients X streams else [])"

lemma serve_metrics_each:
  "serve_metrics X True streams =
    map (map_option (\<lambda>(w, m). snd (write_frame w STATS (as_bytes (snapshot X m))))) streams"
  unfolding serve_metrics_def by (induction X streams rule: serve_clients.induct) simp_all

section \<open>Rounding errors\<close>

lemma floorlog_pow:
  assumes "0 < n"
  shows "(2 :: rat) ^ floorlog 2 n \<le> 2 * of_nat n" and "of_nat n < (2 :: rat) ^ floorlog 2 n"
proof -
  have b: "2 ^ (floorlog 2 n - 1) \<le> n" "n < 2 ^ floorlog 2 n" using floorlog_bounds [of n 2] assms by simp_all
  moreover have "floorlog 2 n \<noteq> 0" using assms by (simp add: floorlog_eq_zero_iff)
  ultimately have "2 ^ floorlog 2 n \<le> 2 * n" by (cases "floorlog 2 n") auto
  then show "(2 :: rat) ^ floorlog 2 n \<le> 2 * of_nat n" using of_nat_mono by fastforce
  show "of_nat n < (2 :: rat) ^ floorlog 2 n" using b(2) by (metis of_nat_less_iff of_nat_numeral of_nat_power)
qed

lemma quotient_between:
  fixes P Q x y :: rat
  assumes "0 < x" "0 < y" "P \<le> 2 * x" "x < P" "Q \<le> 2 * y" "y < Q"
  shows "P / Q / 2 \<le> x / y" and "x / y < P / Q * 2"
proof -
  have "P / 2 / Q \<le> x / y" using assms by (intro frac_le) auto
  then show "P / Q / 2 \<le> x / y" by (simp add: field_simps)
  have "x / y < P / (Q / 2)" using assms by (intro frac_less) auto
  then show "x / y < P / Q * 2" by (simp add: field_simps)
qed

lemma ilog2_bounds:
  assumes "0 < q"
  shows "2 powi ilog2 q \<le> q \<and> q < 2 powi (ilog2 q + 1)"
proof -
  obtain a b where ab: "quotient_of q = (a, b)" by (cases "quotient_of q")
  then have b: "0 < b" and q: "q = of_int a / of_int b"
    using quotient_of_denom_pos quotient_of_div by auto
  with assms have a: "0 < a" by (simp add: zero_less_divide_iff)
  define A B where AB: "A = floorlog 2 (nat a)" "B = floorlog 2 (nat b)"
  define k where "k = int A - int B"
  have nat: "of_nat (nat a) = (of_int a :: rat)" "of_nat (nat b) = (of_int b :: rat)" using a b by simp_all
  have "2 powi k = (2 :: rat) ^ A / 2 ^ B" by (simp add: k_def power_int_diff)
  then have "2 powi k / 2 \<le> q \<and> q < 2 powi k * 2"
    using quotient_between [of "of_int a" "of_int b" "2 ^ A" "2 ^ B"] floorlog_pow [of "nat a"] floorlog_pow [of "nat b"] a b
    by (simp add: AB nat q)
  then have "2 powi (k - 1) \<le> q" "q < 2 powi (k + 1)" by (simp_all add: power_int_diff power_int_add)
  then show ?thesis using ab by (auto simp: ilog2_def Let_def bitlen_def AB [symmetric] k_def [symmetric])
qed

lemma round_half_even_error: "\<bar>of_int (round_half_even q) - q\<bar> \<le> 1 / 2"
  unfolding round_half_even_def Let_def by (auto simp: abs_if) linarith+

lemma f64_round_error:
  assumes "0 \<le> q"
  shows "\<bar>f64_round q - q\<bar> \<le> q / 2 ^ 53"
proof (cases "q = 0")
  case False
  with assms have q: "0 < q" by simp
  define p :: rat where "p = 2 powi (ilog2 q - 52)"
  have p: "0 < p" by (simp add: p_def)
  have "f64_round q - q = (of_int (round_half_even (q / p)) - q / p) * p"
    using q p by (simp add: f64_round_def Let_def p_def left_diff_distrib)
  then have "\<bar>f64_round q - q\<bar> \<le> 1 / 2 * p"
    using p round_half_even_error [of "q / p"] by (simp add: abs_mult mult_right_mono del: mult.commute)
  also have "\<dots> \<le> q / 2 ^ 53"
    using ilog2_bounds [OF q] by (simp add: p_def power_int_diff)
  finally show ?thesis .
qed (simp add: f64_round_def)

lemma f64_round_nonneg: "0 \<le> f64_round q"
proof -
  have "0 \<le> round_half_even x" if "0 \<le> x" for x using that by (simp add: round_half_even_def Let_def)
  then show ?thesis by (auto simp: f64_round_def Let_def intro!: mult_nonneg_nonneg)
qed

text \<open>A computed value within a relative error of the exact one, and how the error grows.\<close>

definition near :: "rat \<Rightarrow> rat \<Rightarrow> rat \<Rightarrow> bool" where
  "near d x y \<longleftrightarrow> 0 \<le> x \<and> 0 \<le> y \<and> \<bar>x - y\<bar> \<le> d * y"

lemma near_f64: "0 \<le> q \<Longrightarrow> near (1 / 2 ^ 53) (f64_round q) q"
  using f64_round_error [of q] by (simp add: near_def f64_round_nonneg)

lemma near_round:
  assumes "near d x y" and "d \<le> 1"
  shows "near (d + 2 / 2 ^ 53) (f64_round x) y"
proof -
  have "d * y \<le> 1 * y" using assms by (intro mult_right_mono) (auto simp: near_def)
  with assms have "x \<le> 2 * y" by (auto simp: near_def)
  then have "\<bar>f64_round x - x\<bar> \<le> 2 * y / 2 ^ 53"
    using f64_round_error [of x] assms(1) by (simp add: near_def)
  moreover have "\<bar>f64_round x - y\<bar> \<le> \<bar>f64_round x - x\<bar> + \<bar>x - y\<bar>" by linarith
  moreover have "\<bar>x - y\<bar> \<le> d * y" using assms(1) by (simp add: near_def)
  ultimately have "\<bar>f64_round x - y\<bar> \<le> 2 * y / 2 ^ 53 + d * y" by linarith
  then have "\<bar>f64_round x - y\<bar> \<le> (d + 2 / 2 ^ 53) * y" by (simp add: algebra_simps)
  with assms(1) show ?thesis by (simp add: near_def f64_round_nonneg)
qed

lemma near_scale: "near d x y \<Longrightarrow> 0 < c \<Longrightarrow> near d (x * c) (y * c)"
  by (simp add: near_def abs_mult flip: left_diff_distrib mult.assoc)

lemma near_div:
  assumes a: "near u a A" and b: "near u b B" and u: "0 \<le> u" "u \<le> 1 / 4" and B: "0 < B"
  shows "near (4 * u) (a / b) (A / B)"
proof -
  have A0: "0 \<le> A" "a \<le> A * (1 + u)" "A * (1 - u) \<le> a" and B0: "b \<le> B * (1 + u)" "B * (1 - u) \<le> b"
    using a b by (auto simp: near_def abs_le_iff algebra_simps)
  have "0 < B * (1 - u)" using u B by (simp add: mult_pos_pos)
  with B0 have b0: "0 < b" by linarith
  have uu: "u * u \<le> u * (1 / 4)" using u by (intro mult_left_mono) auto
  have "a \<le> A * ((1 + 4 * u) * (1 - u))"
    using A0(2) mult_left_mono [OF _ A0(1), of "1 + u" "(1 + 4 * u) * (1 - u)"] uu u by (simp add: algebra_simps)
  also have "\<dots> = (1 + 4 * u) * A / B * (B * (1 - u))" using B by (simp add: field_simps)
  also have "\<dots> \<le> (1 + 4 * u) * A / B * b" using A0(1) B u by (intro mult_left_mono B0(2)) auto
  finally have up: "a / b \<le> (1 + 4 * u) * (A / B)" using b0 by (simp add: divide_le_eq)
  have "(1 - 4 * u) * A / B * b \<le> (1 - 4 * u) * A / B * (B * (1 + u))"
    using A0(1) B u by (intro mult_left_mono B0(1)) auto
  also have "\<dots> = A * ((1 - 4 * u) * (1 + u))" using B by (simp add: field_simps)
  also have "\<dots> \<le> A * (1 - u)" using A0(1) uu u by (intro mult_left_mono) (simp_all add: algebra_simps)
  also have "\<dots> \<le> a" by (rule A0(3))
  finally have "(1 - 4 * u) * (A / B) \<le> a / b" using b0 by (simp add: le_divide_eq)
  with up show ?thesis using a b0 A0 B by (auto simp: near_def abs_le_iff algebra_simps)
qed

lemma error_sum:
  fixes e e1 e2 t y :: rat
  assumes "e1 \<le> t / 2 ^ 53" and "t \<le> y + (1 / 200 + 10 / 2 ^ 53 * y)" and "e \<le> e1 + e2"
    and "e2 \<le> 1 / 200 + 10 / 2 ^ 53 * y" and "0 \<le> y"
  shows "e \<le> 1 / 200 + (y + 1) / 2 ^ 49"
proof -
  have p: "(2 :: rat) ^ 53 = 9007199254740992" "(2 :: rat) ^ 49 = 562949953421312" by simp_all
  show ?thesis using assms unfolding p by (simp add: field_simps)
qed

lemma round2_error:
  assumes "near (8 / 2 ^ 53) x y"
  shows "\<bar>round2 x - y\<bar> \<le> 1 / 200 + (y + 1) / 2 ^ 49"
proof -
  define p where "p = f64_round (x * 100)"
  define r :: rat where "r = of_int \<lfloor>p + 1 / 2\<rfloor>"
  have p: "\<bar>p - y * 100\<bar> \<le> 10 / 2 ^ 53 * (y * 100)" "0 \<le> p" "0 \<le> y"
    using near_round [OF near_scale [OF assms, of 100]] assms by (auto simp: near_def p_def)
  have "\<bar>r - p\<bar> \<le> 1 / 2" unfolding r_def by linarith
  moreover have "\<bar>r - y * 100\<bar> \<le> \<bar>r - p\<bar> + \<bar>p - y * 100\<bar>" by linarith
  ultimately have "\<bar>r - y * 100\<bar> \<le> 1 / 2 + 10 / 2 ^ 53 * (y * 100)" using p(1) by linarith
  then have ry: "\<bar>r / 100 - y\<bar> \<le> 1 / 200 + 10 / 2 ^ 53 * y" by (auto simp: abs_le_iff field_simps)
  have "0 \<le> r" using p(2) by (simp add: r_def)
  then have "\<bar>round2 x - r / 100\<bar> \<le> r / 100 / 2 ^ 53"
    using f64_round_error [of "r / 100"] by (simp add: round2_def p_def r_def)
  moreover have "r / 100 \<le> y + (1 / 200 + 10 / 2 ^ 53 * y)" using ry by linarith
  moreover have "\<bar>round2 x - y\<bar> \<le> \<bar>round2 x - r / 100\<bar> + \<bar>r / 100 - y\<bar>" by linarith
  ultimately show ?thesis using ry p(3) by (intro error_sum) auto
qed

definition exact_ms :: "u64 \<Rightarrow> u64 \<Rightarrow> rat" where
  "exact_ms ns n = of_int (uint ns) / of_int (uint n) / 10 ^ 6"

text \<open>
  C36: The averages on the metrics port are right to half a hundredth of a millisecond.  For every total
  of nanoseconds and every number of calls that is not zero, the value computed with six rounded
  floating-point operations differs from the exact average in milliseconds by no more than the
  rounding to two decimals and one part in \<open>2 ^ 49\<close> (division by zero gives zero in the
  exact average, as the code defines it); for no calls it is zero and nothing is divided.
\<close>

theorem avg_ms_error:
  "\<bar>avg_ms ns n - exact_ms ns n\<bar> \<le> 1 / 200 + (exact_ms ns n + 1) / 2 ^ 49 \<and> avg_ms ns 0 = 0"
proof (cases "n = 0")
  case False
  define N where "N = uint n"
  define A B :: rat where "A = of_int (uint ns)" and "B = of_int N"
  have "0 < N" using False by (simp add: N_def word_neq_0_conv word_less_def)
  then have B: "1 \<le> B" "0 \<le> A" by (simp_all add: A_def B_def del: of_int_uint)
  have "near (4 * (1 / 2 ^ 53)) (f64_round A / f64_round B) (A / B)"
    using B by (intro near_div near_f64) auto
  then have "near (6 / 2 ^ 53) (f64_round (f64_round A / f64_round B)) (A / B)"
    using near_round by fastforce
  from near_round [OF near_scale [OF this, of "1 / 10 ^ 6"]]
  have "near (8 / 2 ^ 53) (f64_round (f64_round (f64_round A / f64_round B) / 1000000)) (A / B / 10 ^ 6)" by simp
  from round2_error [OF this] False show ?thesis
    by (simp add: avg_ms_def exact_ms_def A_def B_def N_def word_gt_0)
qed (simp add: avg_ms_def exact_ms_def)

text \<open>A value as the hardware computes it: 123456789 nanoseconds over ten calls is the double 12.35.\<close>

lemma avg_ms_sample: "f64_bits (avg_ms 123456789 10) = 0x4028B33333333333"
  by code_simp

end
