(* ===== verification/Profile_Encode.thy ===== *)
theory Profile_Encode
  imports Egress
begin

text \<open>
  The offline tool \<^verbatim>\<open>profile-encode\<close> (\<^verbatim>\<open>bin/profile-encode.rs\<close>): it reads a profile
  in JSON, encodes it and prints the encoding in base64.  The file system, serde's derived parser of a
  profile and its pretty printer are parameters.
\<close>

datatype cli_result = Exit nat | Printed string

definition profile_encode_json :: "('x) crypto_scheme \<Rightarrow> TlsProfile \<Rightarrow> json" where
  "profile_encode_json X spec =
     json_object
       [(''spec_id'', JNumber (NInt (uint (spec_id spec)))), (''label'', JString (label spec)),
        (''canonical_b64'', JString (b64_encode X (canonical_encode spec)))]"

definition profile_encode_main ::
  "('x) crypto_scheme \<Rightarrow> (json \<Rightarrow> string) \<Rightarrow> (u8 list \<Rightarrow> TlsProfile option) \<Rightarrow> (string \<Rightarrow> u8 list option) \<Rightarrow> string list
    \<Rightarrow> cli_result" where
  "profile_encode_main X pretty parse_profile read_file args =
     (case args of
        _ # path # _ \<Rightarrow>
          (case read_file path of
             None \<Rightarrow> Exit 1
           | Some raw \<Rightarrow>
               (case parse_profile raw of
                  None \<Rightarrow> Exit 1
                | Some spec \<Rightarrow> Printed (pretty (profile_encode_json X spec) @ [LF])))
      | _ \<Rightarrow> Exit 2)"

text \<open>What base64 promises: decoding inverts encoding.\<close>

definition b64_roundtrip :: "('x) crypto_scheme \<Rightarrow> bool" where
  "b64_roundtrip X \<longleftrightarrow> (\<forall>bs. b64_decode X (b64_encode X bs) = Some bs)"

lemma profile_encode_json_spec:
  "Option.bind (as_object (profile_encode_json X spec)) (\<lambda>m. get_str m ''canonical_b64'')
    = Some (b64_encode X (canonical_encode spec))"
  by (simp add: profile_encode_json_def json_object_def get_str_def bt_simps)

text \<open>
  C34: What the tool prints is what the enclave reads.  Given a readable file with a profile that can be
  encoded, the tool prints a JSON object, and a request whose TLS specification is the base64 text of
  that object makes the enclave use exactly that profile.
\<close>

theorem profile_encode_reaches_enclave:
  assumes "read_file path = Some raw" and "parse_profile raw = Some spec" and "b64_roundtrip X"
    and "profile_ok spec" and "length (canonical_encode spec) < 2 ^ 64"
  shows "profile_encode_main X pretty parse_profile read_file (prog # path # rest)
      = Printed (pretty (profile_encode_json X spec) @ [LF])
    \<and> (\<forall>head. tls_spec head = Option.bind (as_object (profile_encode_json X spec)) (\<lambda>m. get_str m ''canonical_b64'')
          \<longrightarrow> decode_profile X head = Some spec)"
  using assms
  by (simp add: profile_encode_main_def decode_profile_def profile_encode_json_spec b64_roundtrip_def decode_encode)

definition sample_b64 :: crypto where
  "sample_b64 = (sample_crypto (\<lambda>_. None))\<lparr>b64_encode := from_bytes, b64_decode := \<lambda>s. Some (as_bytes s)\<rparr>"

theorem profile_encode_reaches_enclave_witness:
  "decode_profile sample_b64 (sample_head\<lparr>tls_spec := Some (from_bytes (canonical_encode Tls_Profile.sample_profile))\<rparr>)
     = Some Tls_Profile.sample_profile"
proof -
  have rt: "b64_roundtrip sample_b64" by (simp add: b64_roundtrip_def sample_b64_def)
  have "length (canonical_encode Tls_Profile.sample_profile) < 2 ^ 64" by (simp add: sample_profile_length)
  from profile_encode_reaches_enclave [of "\<lambda>_. Some []" "''p''" "[]" "\<lambda>_. Some Tls_Profile.sample_profile",
      OF refl refl rt sample_profile_ok this, of "\<lambda>_. []" "[]" "[]"]
  show ?thesis by (simp add: profile_encode_json_spec sample_b64_def)
qed

end
