(* ===== verification/Unit_Tests.thy ===== *)
theory Unit_Tests
  imports Handler_Props Snapshot Profile_Encode
begin

text \<open>
  The definitions run on the inputs of the repository's own tests (the test modules of
  \<^verbatim>\<open>main.rs\<close> and \<^verbatim>\<open>tls_profile.rs\<close>, and the frozen vectors of
  \<^verbatim>\<open>signing-vectors.json\<close>): each lemma has the name of a test and states what the test asserts,
  evaluated by the kernel.  Bodies that the tests give as text appear here as the values serde
  parses them to; the digests of the vectors are the fixed texts of the file.
\<close>

section \<open>Signing vectors\<close>

lemma statement_vector_v2_basic:
  "build_v2_statement (sample_crypto (\<lambda>_. None)) ''MDEyMzQ1Njc4OWFiY2RlZg=='' ''API.Example.Com'' ''/v1/chat?beta=true''
     ''post'' 200 ''text/event-stream; charset=utf-8''
     ''924067dfbe4731a8f87d4dbc96078edf774685c9c5fb22a50bf210e6fcd2a0a6''
     ''371d3454662f0d86541fec1c3202000ce425c8c3be9ca0de0e10e5d0225ad8f1'' None =
   as_bytes
      (''tee-exchange-v2'' @ [LF] @
       ''nonce=MDEyMzQ1Njc4OWFiY2RlZg=='' @ [LF] @
       ''upstream-host=api.example.com'' @ [LF] @
       ''upstream-path=/v1/chat'' @ [LF] @
       ''http-method=POST'' @ [LF] @
       ''http-status=200'' @ [LF] @
       ''resp-content-type=text/event-stream; charset=utf-8'' @ [LF] @
       ''request-body-sha256=924067dfbe4731a8f87d4dbc96078edf774685c9c5fb22a50bf210e6fcd2a0a6'' @ [LF] @
       ''response-body-sha256=371d3454662f0d86541fec1c3202000ce425c8c3be9ca0de0e10e5d0225ad8f1'' @ [LF])"
  by code_simp

lemma statement_vector_v2_plain:
  "build_v2_statement (sample_crypto (\<lambda>_. None)) ''bm9uY2Utbm8tc3BraS0wMA=='' ''api.example.com'' ''/v1/chat''
     ''POST'' 200 ''text/event-stream''
     ''73ca4fa60c11ecd7edcd030d36f51b51800bf003791e21ac7d5a071fbf600f95''
     ''4c6b77b5de4ea27da37fa0fcfb3e5fdfbf2dbb8917a7eef6ed3eb534e297d644'' None =
   as_bytes
      (''tee-exchange-v2'' @ [LF] @
       ''nonce=bm9uY2Utbm8tc3BraS0wMA=='' @ [LF] @
       ''upstream-host=api.example.com'' @ [LF] @
       ''upstream-path=/v1/chat'' @ [LF] @
       ''http-method=POST'' @ [LF] @
       ''http-status=200'' @ [LF] @
       ''resp-content-type=text/event-stream'' @ [LF] @
       ''request-body-sha256=73ca4fa60c11ecd7edcd030d36f51b51800bf003791e21ac7d5a071fbf600f95'' @ [LF] @
       ''response-body-sha256=4c6b77b5de4ea27da37fa0fcfb3e5fdfbf2dbb8917a7eef6ed3eb534e297d644'' @ [LF])"
  by code_simp

lemma statement_vector_v2_empty_bodies:
  "build_v2_statement (sample_crypto (\<lambda>_. None)) ''ZW1wdHktYm9kaWVzLXYyQQ=='' ''api.example.com'' ''/v1/chat''
     ''POST'' 204 ''application/json''
     ''e3b0c44298fc1c149afbf4c8996fb92427ae41e4649b934ca495991b7852b855''
     ''e3b0c44298fc1c149afbf4c8996fb92427ae41e4649b934ca495991b7852b855'' None =
   as_bytes
      (''tee-exchange-v2'' @ [LF] @
       ''nonce=ZW1wdHktYm9kaWVzLXYyQQ=='' @ [LF] @
       ''upstream-host=api.example.com'' @ [LF] @
       ''upstream-path=/v1/chat'' @ [LF] @
       ''http-method=POST'' @ [LF] @
       ''http-status=204'' @ [LF] @
       ''resp-content-type=application/json'' @ [LF] @
       ''request-body-sha256=e3b0c44298fc1c149afbf4c8996fb92427ae41e4649b934ca495991b7852b855'' @ [LF] @
       ''response-body-sha256=e3b0c44298fc1c149afbf4c8996fb92427ae41e4649b934ca495991b7852b855'' @ [LF])"
  by code_simp

lemma statement_vector_v2_unicode:
  "build_v2_statement (sample_crypto (\<lambda>_. None)) ''dW5pY29kZS1ub25jZS12Mg=='' ''api.example.com'' ''/v1/chat''
     ''POST'' 200 ''application/json''
     ''6136ce92a2908618da863c6f8fd43bf9f5882d122706b1b83f84676340f3f886''
     ''0192145a18e374fad76ecbfcda01f38fa5a3b6d574cd4bf3d421103fd231bb32'' None =
   as_bytes
      (''tee-exchange-v2'' @ [LF] @
       ''nonce=dW5pY29kZS1ub25jZS12Mg=='' @ [LF] @
       ''upstream-host=api.example.com'' @ [LF] @
       ''upstream-path=/v1/chat'' @ [LF] @
       ''http-method=POST'' @ [LF] @
       ''http-status=200'' @ [LF] @
       ''resp-content-type=application/json'' @ [LF] @
       ''request-body-sha256=6136ce92a2908618da863c6f8fd43bf9f5882d122706b1b83f84676340f3f886'' @ [LF] @
       ''response-body-sha256=0192145a18e374fad76ecbfcda01f38fa5a3b6d574cd4bf3d421103fd231bb32'' @ [LF])"
  by code_simp

section \<open>Views of streamed and complete responses\<close>

lemma openai_chat_sse_rechunking_keeps_same_semantic_view:
  "parsed_view ''openai.chat_completions'' ''response''
      (JArray [JObject [(''choices'', JArray [JObject [(''delta'', JObject [(''content'', JString ''he''), (''role'',
        JString ''assistant'')]), (''finish_reason'', JNull), (''index'', jint 0)]]), (''model'',
        JString ''gpt-test'')], JObject [(''choices'', JArray [JObject [(''delta'', JObject [(''content'',
        JString ''llo'')]), (''finish_reason'', JNull), (''index'', jint 0)]]), (''model'', JString ''gpt-test'')],
        JObject [(''choices'', JArray [JObject [(''delta'', JObject []), (''finish_reason'', JString ''stop''),
        (''index'', jint 0)]])], JObject [(''choices'', JArray []), (''usage'', JObject [(''total_tokens'',
        jint 3)])]]) None
    = parsed_view ''openai.chat_completions'' ''response''
      (JArray [JObject [(''choices'', JArray [JObject [(''delta'', JObject [(''content'', JString ''hello''),
        (''role'', JString ''assistant'')]), (''finish_reason'', JNull), (''index'', jint 0)]]), (''model'',
        JString ''gpt-test'')], JObject [(''choices'', JArray [JObject [(''delta'', JObject []), (''finish_reason'',
        JString ''stop''), (''index'', jint 0)]]), (''usage'', JObject [(''total_tokens'', jint 3)])]]) None"
  by code_simp

lemma anthropic_messages_sse_rechunking_keeps_same_semantic_view:
  "parsed_view ''anthropic.messages'' ''response''
      (JArray [JObject [(''message'', JObject [(''content'', JArray []), (''id'', JString ''msg_1''), (''model'',
        JString ''claude-test''), (''role'', JString ''assistant''), (''stop_reason'', JNull), (''stop_sequence'',
        JNull), (''type'', JString ''message''), (''usage'', JObject [(''input_tokens'', jint 3)])]), (''type'',
        JString ''message_start'')], JObject [(''content_block'', JObject [(''text'', JString ''''), (''type'',
        JString ''text'')]), (''index'', jint 0), (''type'', JString ''content_block_start'')], JObject [(''delta'',
        JObject [(''text'', JString ''he''), (''type'', JString ''text_delta'')]), (''index'', jint 0), (''type'',
        JString ''content_block_delta'')], JObject [(''delta'', JObject [(''text'', JString ''llo''), (''type'',
        JString ''text_delta'')]), (''index'', jint 0), (''type'', JString ''content_block_delta'')],
        JObject [(''index'', jint 0), (''type'', JString ''content_block_stop'')], JObject [(''delta'',
        JObject [(''stop_reason'', JString ''end_turn''), (''stop_sequence'', JNull)]), (''type'',
        JString ''message_delta''), (''usage'', JObject [(''output_tokens'', jint 2)])], JObject [(''type'',
        JString ''message_stop'')]]) None
    = parsed_view ''anthropic.messages'' ''response''
      (JObject [(''content'', JArray [JObject [(''text'', JString ''hello''), (''type'', JString ''text'')]]),
        (''id'', JString ''msg_1''), (''model'', JString ''claude-test''), (''role'', JString ''assistant''),
        (''stop_reason'', JString ''end_turn''), (''stop_sequence'', JNull), (''type'', JString ''message''),
        (''usage'', JObject [(''input_tokens'', jint 3), (''output_tokens'', jint 2)])]) None"
  by code_simp

lemma openai_responses_sse_rechunking_keeps_same_semantic_view:
  "parsed_view ''openai.responses'' ''response''
      (JArray [JObject [(''response'', JObject [(''id'', JString ''resp_1''), (''output'', JArray []), (''status'',
        JString ''in_progress'')]), (''type'', JString ''response.created'')], JObject [(''item'',
        JObject [(''content'', JArray []), (''id'', JString ''msg_1''), (''role'', JString ''assistant''), (''type'',
        JString ''message'')]), (''output_index'', jint 0), (''type'', JString ''response.output_item.added'')],
        JObject [(''content_index'', jint 0), (''output_index'', jint 0), (''part'', JObject [(''text'',
        JString ''''), (''type'', JString ''output_text'')]), (''type'', JString ''response.content_part.added'')],
        JObject [(''content_index'', jint 0), (''delta'', JString ''he''), (''output_index'', jint 0), (''type'',
        JString ''response.output_text.delta'')], JObject [(''content_index'', jint 0), (''delta'', JString ''llo''),
        (''output_index'', jint 0), (''type'', JString ''response.output_text.delta'')], JObject [(''response'',
        JObject [(''id'', JString ''resp_1''), (''output'', JArray [JObject [(''content'', JArray [JObject [(''text'',
        JString ''hello''), (''type'', JString ''output_text'')]]), (''id'', JString ''msg_1''), (''role'',
        JString ''assistant''), (''type'', JString ''message'')]]), (''status'', JString ''completed''), (''usage'',
        JObject [(''total_tokens'', jint 3)])]), (''type'', JString ''response.completed'')]]) None
    = parsed_view ''openai.responses'' ''response''
      (JObject [(''id'', JString ''resp_1''), (''output'', JArray [JObject [(''content'', JArray [JObject [(''text'',
        JString ''hello''), (''type'', JString ''output_text'')]]), (''id'', JString ''msg_1''), (''role'',
        JString ''assistant''), (''type'', JString ''message'')]]), (''status'', JString ''completed''), (''usage'',
        JObject [(''total_tokens'', jint 3)])]) None"
  by code_simp

lemma openai_responses_done_events_replace_final_values:
  "parsed_view ''openai.responses'' ''response''
      (JArray [JObject [(''item'', JObject [(''content'', JArray []), (''id'', JString ''msg_1''), (''role'',
        JString ''assistant''), (''type'', JString ''message'')]), (''output_index'', jint 0), (''type'',
        JString ''response.output_item.added'')], JObject [(''content_index'', jint 0), (''delta'', JString ''he''),
        (''output_index'', jint 0), (''type'', JString ''response.output_text.delta'')], JObject [(''content_index'',
        jint 0), (''delta'', JString ''llo''), (''output_index'', jint 0), (''type'',
        JString ''response.output_text.delta'')], JObject [(''content_index'', jint 0), (''output_index'', jint 0),
        (''text'', JString ''hello''), (''type'', JString ''response.output_text.done'')], JObject [(''response'',
        JObject [(''id'', JString ''resp_1''), (''status'', JString ''completed''), (''usage'',
        JObject [(''total_tokens'', jint 3)])]), (''type'', JString ''response.completed'')]]) None
    = parsed_view ''openai.responses'' ''response''
      (JObject [(''id'', JString ''resp_1''), (''output'', JArray [JObject [(''content'', JArray [JObject [(''text'',
        JString ''hello''), (''type'', JString ''output_text'')]]), (''id'', JString ''msg_1''), (''role'',
        JString ''assistant''), (''type'', JString ''message'')]]), (''status'', JString ''completed''), (''usage'',
        JObject [(''total_tokens'', jint 3)])]) None"
  by code_simp

lemma gemini_generate_content_sse_rechunking_keeps_same_semantic_view:
  "parsed_view ''google.gemini.generate_content'' ''response''
      (JArray [JObject [(''candidates'', JArray [JObject [(''content'', JObject [(''parts'',
        JArray [JObject [(''text'', JString ''he'')]]), (''role'', JString ''model'')]), (''index'', jint 0)]])],
        JObject [(''candidates'', JArray [JObject [(''content'', JObject [(''parts'', JArray [JObject [(''text'',
        JString ''llo'')]])]), (''finishReason'', JString ''STOP''), (''index'', jint 0)]]), (''usageMetadata'',
        JObject [(''totalTokenCount'', jint 3)])]]) None
    = parsed_view ''google.gemini.generate_content'' ''response''
      (JObject [(''candidates'', JArray [JObject [(''content'', JObject [(''parts'', JArray [JObject [(''text'',
        JString ''hello'')]]), (''role'', JString ''model'')]), (''finishReason'', JString ''STOP''), (''index'',
        jint 0)]]), (''usageMetadata'', JObject [(''totalTokenCount'', jint 3)])]) None"
  by code_simp

lemma dashscope_generation_sse_rechunking_keeps_same_semantic_view:
  "parsed_view ''alibaba.dashscope.generation'' ''response''
      (JArray [JObject [(''output'', JObject [(''choices'', JArray [JObject [(''finish_reason'', JNull), (''message'',
        JObject [(''content'', JString ''he''), (''role'', JString ''assistant'')])]])])], JObject [(''output'',
        JObject [(''choices'', JArray [JObject [(''finish_reason'', JString ''stop''), (''message'',
        JObject [(''content'', JString ''llo'')])]])]), (''request_id'', JString ''req_1''), (''usage'',
        JObject [(''total_tokens'', jint 3)])]]) None
    = parsed_view ''alibaba.dashscope.generation'' ''response''
      (JObject [(''output'', JObject [(''choices'', JArray [JObject [(''finish_reason'', JString ''stop''),
        (''index'', jint 0), (''message'', JObject [(''content'', JString ''hello''), (''role'',
        JString ''assistant'')])]])]), (''request_id'', JString ''req_1''), (''usage'', JObject [(''total_tokens'',
        jint 3)])]) None"
  by code_simp

lemma bedrock_converse_stream_rechunking_keeps_same_semantic_view:
  "parsed_view ''aws.bedrock.converse'' ''response''
      (JArray [JObject [(''messageStart'', JObject [(''role'', JString ''assistant'')])],
        JObject [(''contentBlockDelta'', JObject [(''contentBlockIndex'', jint 0), (''delta'', JObject [(''text'',
        JString ''he'')])])], JObject [(''contentBlockDelta'', JObject [(''contentBlockIndex'', jint 0), (''delta'',
        JObject [(''text'', JString ''llo'')])])], JObject [(''messageStop'', JObject [(''stopReason'',
        JString ''end_turn'')])], JObject [(''metadata'', JObject [(''metrics'', JObject [(''latencyMs'', jint 42)]),
        (''usage'', JObject [(''inputTokens'', jint 1), (''outputTokens'', jint 2)])])]]) None
    = parsed_view ''aws.bedrock.converse'' ''response''
      (JObject [(''metrics'', JObject [(''latencyMs'', jint 42)]), (''output'', JObject [(''message'',
        JObject [(''content'', JArray [JObject [(''text'', JString ''hello''), (''type'', JString ''text'')]]),
        (''role'', JString ''assistant'')])]), (''stopReason'', JString ''end_turn''), (''usage'',
        JObject [(''inputTokens'', jint 1), (''outputTokens'', jint 2)])]) None"
  by code_simp

lemma cohere_chat_sse_rechunking_keeps_same_semantic_view:
  "parsed_view ''cohere.chat'' ''response''
      (JArray [JObject [(''delta'', JObject [(''message'', JObject [(''role'', JString ''assistant'')])]), (''type'',
        JString ''message-start'')], JObject [(''delta'', JObject [(''message'', JObject [(''content'',
        JObject [(''text'', JString ''''), (''type'', JString ''text'')])])]), (''type'', JString ''content-start'')],
        JObject [(''delta'', JObject [(''message'', JObject [(''content'', JObject [(''text'', JString ''he''),
        (''type'', JString ''text'')])])]), (''type'', JString ''content-delta'')], JObject [(''delta'',
        JObject [(''message'', JObject [(''content'', JObject [(''text'', JString ''llo''), (''type'',
        JString ''text'')])])]), (''type'', JString ''content-delta'')], JObject [(''delta'',
        JObject [(''finish_reason'', JString ''COMPLETE''), (''usage'', JObject [(''total_tokens'', jint 3)])]),
        (''type'', JString ''message-end'')]]) None
    = parsed_view ''cohere.chat'' ''response''
      (JObject [(''finish_reason'', JString ''COMPLETE''), (''message'', JObject [(''content'',
        JArray [JObject [(''text'', JString ''hello''), (''type'', JString ''text'')]]), (''finish_reason'',
        JString ''COMPLETE''), (''role'', JString ''assistant'')]), (''usage'', JObject [(''total_tokens'',
        jint 3)])]) None"
  by code_simp

lemma core_request_ignores_relay_defaults_openai_chat_completions:
  "parsed_view ''openai.chat_completions'' ''request''
      (JObject [(''messages'', JArray [JObject [(''content'', JString ''hi''), (''role'', JString ''user'')]]),
        (''model'', JString ''gpt-test'')]) None
    = parsed_view ''openai.chat_completions'' ''request''
      (JObject [(''messages'', JArray [JObject [(''content'', JString ''hi''), (''role'', JString ''user'')]]),
        (''metadata'', JObject [(''relay'', JString ''default'')]), (''model'', JString ''gpt-test''), (''stream'',
        JBool False), (''temperature'', JNumber (NFloat 0x3fc999999999999a)), (''top_p'',
        JNumber (NFloat 0x3feccccccccccccd))]) None"
  by code_simp

lemma core_request_ignores_relay_defaults_openai_responses:
  "parsed_view ''openai.responses'' ''request''
      (JObject [(''input'', JArray [JObject [(''content'', JString ''hi''), (''role'', JString ''user'')]]),
        (''model'', JString ''gpt-test'')]) None
    = parsed_view ''openai.responses'' ''request''
      (JObject [(''input'', JArray [JObject [(''content'', JString ''hi''), (''role'', JString ''user'')]]),
        (''instructions'', JString ''relay-added compatibility text''), (''model'', JString ''gpt-test''), (''store'',
        JBool True), (''stream'', JBool False), (''temperature'', JNumber (NFloat 0x3fe6666666666666))]) None"
  by code_simp

lemma core_request_ignores_relay_defaults_anthropic_messages:
  "parsed_view ''anthropic.messages'' ''request''
      (JObject [(''messages'', JArray [JObject [(''content'', JString ''hi''), (''role'', JString ''user'')]]),
        (''model'', JString ''claude-test''), (''system'', JString ''be concise'')]) None
    = parsed_view ''anthropic.messages'' ''request''
      (JObject [(''max_tokens'', jint 128), (''messages'', JArray [JObject [(''content'', JString ''hi''), (''role'',
        JString ''user'')]]), (''model'', JString ''claude-test''), (''stream'', JBool False), (''system'',
        JString ''be concise''), (''temperature'', JNumber (NFloat 0x3fe0000000000000)), (''tools'',
        JArray [])]) None"
  by code_simp

lemma core_request_ignores_relay_defaults_google_generate_content:
  "parsed_view ''google.gemini.generate_content'' ''request''
      (JObject [(''contents'', JArray [JObject [(''parts'', JArray [JObject [(''text'', JString ''hi'')]]), (''role'',
        JString ''user'')]]), (''model'', JString ''gemini-test''), (''systemInstruction'', JObject [(''parts'',
        JArray [JObject [(''text'', JString ''be concise'')]])])]) None
    = parsed_view ''google.gemini.generate_content'' ''request''
      (JObject [(''contents'', JArray [JObject [(''parts'', JArray [JObject [(''text'', JString ''hi'')]]), (''role'',
        JString ''user'')]]), (''generationConfig'', JObject [(''temperature'',
        JNumber (NFloat 0x3fe6666666666666))]), (''model'', JString ''gemini-test''), (''safetySettings'', JArray []),
        (''systemInstruction'', JObject [(''parts'', JArray [JObject [(''text'', JString ''be concise'')]])]),
        (''tools'', JArray [])]) None"
  by code_simp

lemma core_request_ignores_relay_defaults_alibaba_generation:
  "parsed_view ''alibaba.dashscope.generation'' ''request''
      (JObject [(''input'', JObject [(''messages'', JArray [JObject [(''content'', JString ''hi''), (''role'',
        JString ''user'')]])]), (''messages'', JArray [JObject [(''content'', JString ''hi''), (''role'',
        JString ''user'')]]), (''model'', JString ''qwen-test''), (''system'', JString ''be concise'')]) None
    = parsed_view ''alibaba.dashscope.generation'' ''request''
      (JObject [(''input'', JObject [(''messages'', JArray [JObject [(''content'', JString ''hi''), (''role'',
        JString ''user'')]])]), (''messages'', JArray [JObject [(''content'', JString ''hi''), (''role'',
        JString ''user'')]]), (''model'', JString ''qwen-test''), (''parameters'', JObject [(''stream'', JBool False),
        (''temperature'', JNumber (NFloat 0x3fe6666666666666))]), (''response_format'', JObject [(''type'',
        JString ''text'')]), (''system'', JString ''be concise''), (''thinking_budget'', jint 0)]) None"
  by code_simp

lemma core_request_ignores_relay_defaults_aws_converse:
  "parsed_view ''aws.bedrock.converse'' ''request''
      (JObject [(''messages'', JArray [JObject [(''content'', JArray [JObject [(''text'', JString ''hi'')]]),
        (''role'', JString ''user'')]]), (''modelId'', JString ''anthropic.claude-test''), (''system'',
        JArray [JObject [(''text'', JString ''be concise'')]])]) None
    = parsed_view ''aws.bedrock.converse'' ''request''
      (JObject [(''additionalModelRequestFields'', JObject []), (''inferenceConfig'', JObject [(''maxTokens'',
        jint 128), (''temperature'', JNumber (NFloat 0x3fe6666666666666))]), (''messages'',
        JArray [JObject [(''content'', JArray [JObject [(''text'', JString ''hi'')]]), (''role'',
        JString ''user'')]]), (''modelId'', JString ''anthropic.claude-test''), (''system'',
        JArray [JObject [(''text'', JString ''be concise'')]]), (''toolConfig'', JObject [(''tools'',
        JArray [])])]) None"
  by code_simp

lemma core_request_ignores_relay_defaults_cohere_chat:
  "parsed_view ''cohere.chat'' ''request''
      (JObject [(''message'', JString ''hi''), (''messages'', JArray [JObject [(''content'', JString ''hi''),
        (''role'', JString ''user'')]]), (''model'', JString ''command-test'')]) None
    = parsed_view ''cohere.chat'' ''request''
      (JObject [(''message'', JString ''hi''), (''messages'', JArray [JObject [(''content'', JString ''hi''),
        (''role'', JString ''user'')]]), (''model'', JString ''command-test''), (''safety_mode'',
        JString ''CONTEXTUAL''), (''stream'', JBool False), (''temperature'', JNumber (NFloat 0x3fe6666666666666)),
        (''tools'', JArray [])]) None"
  by code_simp

lemma core_response_ignores_relay_ids_openai_responses:
  "parsed_view ''openai.responses'' ''response''
      (JObject [(''id'', JString ''resp_relay''), (''output'', JArray [JObject [(''content'',
        JArray [JObject [(''text'', JString ''ok''), (''type'', JString ''output_text'')]]), (''type'',
        JString ''message'')]]), (''status'', JString ''completed''), (''usage'', JObject [(''total_tokens'',
        jint 3)])]) None
    = parsed_view ''openai.responses'' ''response''
      (JObject [(''output'', JArray [JObject [(''content'', JArray [JObject [(''text'', JString ''ok''), (''type'',
        JString ''output_text'')]]), (''type'', JString ''message'')]]), (''status'', JString ''completed''),
        (''usage'', JObject [(''total_tokens'', jint 3)])]) None"
  by code_simp

lemma core_response_ignores_relay_ids_anthropic_messages:
  "parsed_view ''anthropic.messages'' ''response''
      (JObject [(''content'', JArray [JObject [(''text'', JString ''ok''), (''type'', JString ''text'')]]), (''id'',
        JString ''msg_relay''), (''model'', JString ''claude-test''), (''role'', JString ''assistant''),
        (''stop_reason'', JString ''end_turn''), (''type'', JString ''message''), (''usage'',
        JObject [(''output_tokens'', jint 1)])]) None
    = parsed_view ''anthropic.messages'' ''response''
      (JObject [(''content'', JArray [JObject [(''text'', JString ''ok''), (''type'', JString ''text'')]]),
        (''model'', JString ''claude-test''), (''role'', JString ''assistant''), (''stop_reason'',
        JString ''end_turn''), (''type'', JString ''message''), (''usage'', JObject [(''output_tokens'',
        jint 1)])]) None"
  by code_simp

lemma core_response_ignores_relay_ids_cohere_chat:
  "parsed_view ''cohere.chat'' ''response''
      (JObject [(''finish_reason'', JString ''COMPLETE''), (''id'', JString ''chat_relay''), (''message'',
        JObject [(''content'', JArray [JObject [(''text'', JString ''ok''), (''type'', JString ''text'')]]),
        (''role'', JString ''assistant'')]), (''usage'', JObject [(''total_tokens'', jint 3)])]) None
    = parsed_view ''cohere.chat'' ''response''
      (JObject [(''finish_reason'', JString ''COMPLETE''), (''message'', JObject [(''content'',
        JArray [JObject [(''text'', JString ''ok''), (''type'', JString ''text'')]]), (''role'',
        JString ''assistant'')]), (''usage'', JObject [(''total_tokens'', jint 3)])]) None"
  by code_simp

section \<open>Paths and policies\<close>

lemma bedrock_converse_model_id_is_extracted_from_path:
  "bedrock_model_id_from_path ''/model/anthropic.claude-3-sonnet-20240229-v1%3A0/converse''
    = Some ''anthropic.claude-3-sonnet-20240229-v1%3A0''"
  by code_simp

lemma gemini_request_view_extracts_model_from_upstream_path:
  "parsed_view ''google.gemini.generate_content'' ''request''
     (JObject [(''contents'', JArray [JObject [(''parts'', JArray [JObject [(''text'', JString ''hi'')]]), (''role'', JString ''user'')]]),
        (''generationConfig'', JObject [(''temperature'', JNumber (NFloat 0x3fe6666666666666))])])
     (Some ''/v1beta/models/gemini-2.5-pro:generateContent'')
   = JObject [(''contents'', JArray [JObject [(''parts'', JArray [JObject [(''text'', JString ''hi'')]]), (''role'', JString ''user'')]]),
        (''model'', JString ''gemini-2.5-pro'')]"
  by code_simp

lemma field_policy_registry_covers_all_supported_protocols:
  "list_all (\<lambda>protocol. case field_policy_version protocol of Some v \<Rightarrow> v \<noteq> [] | None \<Rightarrow> False) SUPPORTED_PROTOCOLS"
  by code_simp

section \<open>Egress\<close>

lemma parent_cid_candidates_default_to_nitro_compatible_parent:
  "parse_parent_cid_candidates None = Ok [DEFAULT_PARENT_CID]"
  by code_simp

lemma parent_cid_texts:
  "split_on (CHR '','') '' 3, 2,3, 4 '' = ['' 3'', '' 2'', ''3'', '' 4 '']"
  "split_on (CHR '','') '' , '' = ['' '', '' '']" "split_on (CHR '','') ''3,nope'' = [''3'', ''nope'']"
  "trim '' 3'' = ''3''" "trim '' 2'' = ''2''" "trim ''3'' = ''3''" "trim '' 4 '' = ''4''" "trim '' '' = []" "trim ''nope'' = ''nope''"
  by code_simp+

lemma parent_cid_numbers:
  "parse_uint 32 10 ''2'' = Some 2" "parse_uint 32 10 ''3'' = Some 3" "parse_uint 32 10 ''4'' = Some 4" "parse_uint 32 10 ''nope'' = None"
proof -
  have "digits_value 10 0 ''2'' = Some 2" "digits_value 10 0 ''3'' = Some 3" "digits_value 10 0 ''4'' = Some 4"
    "digits_value 10 0 ''nope'' = None"
    by code_simp+
  then show "parse_uint 32 10 ''2'' = Some 2" "parse_uint 32 10 ''3'' = Some 3" "parse_uint 32 10 ''4'' = Some 4"
    "parse_uint 32 10 ''nope'' = None"
    by (simp_all add: parse_uint_def del: digits_value.simps)
qed

lemma parent_cid_candidates_parse_lists_trim_and_deduplicate:
  "parse_parent_cid_candidates (Some '' 3, 2,3, 4 '') = Ok [3, 2, 4]"
  by (simp add: parse_parent_cid_candidates_def parent_cid_texts parent_cid_numbers Let_def)

lemma parent_cid_candidates_reject_empty_or_invalid_values:
  "isl (parse_parent_cid_candidates (Some '' , '')) \<and> isl (parse_parent_cid_candidates (Some ''3,nope''))"
  by (simp add: parse_parent_cid_candidates_def parent_cid_texts parent_cid_numbers Let_def)

lemma egress_mode_defaults_to_direct_vsock:
  "parse_egress_mode None = Ok DirectVsock \<and> parse_egress_mode (Some '' vsock '') = Ok DirectVsock"
  by code_simp

lemma egress_mode_accepts_qproxy_aliases:
  "parse_egress_mode (Some ''qproxy'') = Ok QProxyTcp \<and> parse_egress_mode (Some ''QPROXY-TCP'') = Ok QProxyTcp"
  by code_simp

lemma egress_mode_rejects_unknown_values: "isl (parse_egress_mode (Some ''http-proxy''))"
  by code_simp

section \<open>Bodies\<close>

lemma content_length_short_read_is_rejected:
  "stream_plain (as_bytes ''abc'') [] (Some 5) rec_sink [] = (Err (ContentLengthEof 3 5), [as_bytes ''abc''], [])"
  by (simp add: stream_plain_def plain_length_loop.simps MAX_RESP_def rec_sink_def)

lemma content_length_unexpected_eof_is_rejected:
  "stream_plain [] [RData (as_bytes ''a''), RErr UnexpectedEof] (Some 2) rec_sink []
    = (Err (ContentLengthEof 1 2), [as_bytes ''a''], [])"
  by (simp add: stream_plain_def plain_length_loop.simps MAX_RESP_def rec_sink_def)

lemma content_length_only_forwards_declared_initial_bytes:
  "stream_plain (as_bytes ''abcdef'') [] (Some 3) rec_sink [] = (Ok (), [as_bytes ''abc''], [])"
  by (simp add: stream_plain_def plain_length_loop.simps MAX_RESP_def rec_sink_def)

lemma close_delimited_response_still_reads_to_eof:
  "stream_plain (as_bytes ''abc'') [RData (as_bytes ''def'')] None rec_sink []
    = (Ok (), [as_bytes ''abc'', as_bytes ''def''], [])"
  by (simp add: stream_plain_def plain_eof_loop.simps MAX_RESP_def rec_sink_def)

section \<open>Ordered headers\<close>

lemma ordered_emit_preserves_order_case_and_fills_sentinels:
  "build_request_head_ordered ''POST'' ''/v1/messages?beta=true'' ''fallback''
     [(''Accept'', ''application/json''), (''Authorization'', []), (''User-Agent'', ''example-client/1.0''),
      (''Connection'', ''keep-alive''), (''Host'', ''api.example.com''), (''Content-Length'', [])] (Some ''tok123'') 2
   = concat (map (\<lambda>l. l @ [CR, LF])
       [''POST /v1/messages?beta=true HTTP/1.1'', ''Accept: application/json'', ''Authorization: Bearer tok123'',
        ''User-Agent: example-client/1.0'', ''Connection: keep-alive'', ''Host: api.example.com'', ''Content-Length: 2'', []])"
  by code_simp

lemma ordered_emit_strips_te_and_backfills_missing_host_and_clen:
  "build_request_head_ordered ''POST'' ''/x'' ''host.example'' [(''Accept'', ''application/json''), (''transfer-encoding'', ''chunked'')]
     None 3
   = concat (map (\<lambda>l. l @ [CR, LF])
       [''POST /x HTTP/1.1'', ''Accept: application/json'', ''host: host.example'', ''content-length: 3'', []])"
  by code_simp

lemma parse_headers_ordered_preserves_order:
  "parse_headers_ordered (Some [[''B-Header'', ''1''], [''a-header'', ''2'']]) = Some [(''B-Header'', ''1''), (''a-header'', ''2'')]"
  by code_simp

lemma parse_headers_ordered_rejects_malformed_and_missing:
  "parse_headers_ordered None = None \<and> parse_headers_ordered (Some [[''only-one'']]) = None
   \<and> parse_headers_ordered (Some [[''a'', ''b'', ''c'']]) = None"
  by code_simp

section \<open>Trailers\<close>

lemma proof_unavailable_payload_keeps_response_observable:
  "case as_object (build_proof_unavailable_payload
       (sample_head\<lparr>upstream := (upstream sample_head)\<lparr>up_path := ''/v1/chat/completions?debug=true''\<rparr>\<rparr>) ''post'' 200
       ''application/json'' ''req'' ''resp'' ''attestation_failed'' ''nsm unavailable'') of
     Some m \<Rightarrow> get_str m ''type'' = Some ''tee.proof_unavailable'' \<and> bt_get m ''attested'' = Some (JBool False)
       \<and> get_str m ''upstream_path'' = Some ''/v1/chat/completions'' \<and> get_str m ''http_method'' = Some ''POST''
   | None \<Rightarrow> False"
  by code_simp

section \<open>TLS profiles\<close>

definition test_profile :: TlsProfile where
  "test_profile = \<lparr>spec_id = 1, issued_at = 0, label = ''example-client'', stack = Rustls, cipher_list = [], sigalgs = [],
     groups = [''X25519'', ''P-256''], alpn = [''http/1.1''], grease = GreaseDisabled, ext_order = FixedOrder,
     min_negotiated = Tls12, cert_policy = WebpkiRoots, h2 = None\<rparr>"

lemma rustls_aws_lc_stack_tag:
  "canonical_encode (test_profile\<lparr>stack := RustlsAwsLc\<rparr>) ! (4 + 8 + 4 + length (label test_profile)) = 3"
  by code_simp

end
