(* ===== verification/Spec2Isabelle.thy ===== *)
theory Spec2Isabelle
  imports Tls_Profile Claims_Binding Frames Http_Sinks Blocking_Io H2_Props Handler_H2 Pool_Props Snapshot Profile_Encode
    Unit_Tests
begin

text \<open>
  \<^bold>\<open>The observation enclave.\<close>  The program under \<^verbatim>\<open>src/enclave/src\<close> is an HTTP client
  that runs in a trusted execution environment.  It takes a request from the control channel, sends it
  to an upstream over TLS, forwards the response while hashing it, and ends with a trailer that proves
  which bytes were exchanged with whom: a signature over a statement of the exchange together with
  attestation evidence for the signing key, or the answer of a proof helper.  For known model protocols
  the trailer also carries claims on fields of request and response.

  \<^bold>\<open>Parts, theories, code.\<close>

  \<^item> \<open>Prelude\<close>, \<open>RustStr\<close>, \<open>BTree\<close>: results as sums (\<open>Ok\<close> is \<open>Inr\<close>, \<open>Err\<close> is \<open>Inl\<close>), words,
    big-endian numbers; the string functions of Rust's standard library on byte strings (UTF-8
    decoding, trimming, splitting, number parsing at a width); \<^verbatim>\<open>BTreeMap\<close> as a sorted association list.
  \<^item> \<open>Json\<close>, \<open>Canonical\<close>, \<open>Statement\<close>: JSON values, the canonical text whose digest is signed, the
    version 2 statement (\<^verbatim>\<open>canonical_json\<close>, \<^verbatim>\<open>build_v2_statement\<close> and helpers of
    \<^verbatim>\<open>main.rs\<close>).
  \<^item> \<open>Tls_Profile\<close>: the binary codec of TLS profiles (\<^verbatim>\<open>tls_profile.rs\<close>).
  \<^item> \<open>Merge\<close>, \<open>Aggregator\<close>, \<open>Stream_Chat\<close>, \<open>Stream_Responses\<close>, \<open>Stream_Anthropic\<close>, \<open>Stream_Gemini\<close>,
    \<open>Stream_Dashscope\<close>, \<open>Stream_Bedrock\<close>, \<open>Stream_Cohere\<close>, \<open>Views\<close>: the merge functions of streamed
    deltas, the streaming state and the batch function of each protocol, and their sum.
  \<^item> \<open>Sse\<close>, \<open>Field_Claims\<close>: the incremental and batch parsers of event streams, protocol detection,
    presence rules, the claims, and the collector that gathers a response while it is forwarded;
    \<open>Claims_Binding\<close>: what the digest of the claims stands for.
  \<^item> \<open>IO\<close>, \<open>Frames\<close>: readers, writers, \<^verbatim>\<open>read_exact\<close> and \<^verbatim>\<open>write_all\<close>; the frames of the
    control channel and of the helper (\<^verbatim>\<open>read_frame\<close>, \<^verbatim>\<open>write_frame\<close> of \<^verbatim>\<open>main.rs\<close> and
    \<^verbatim>\<open>aliyun_helper.rs\<close>).
  \<^item> \<open>Egress\<close>: the way to the parent (\<^verbatim>\<open>connect_egress\<close> and below) and the set-up of the four TLS stacks
    (\<^verbatim>\<open>egress_boring.rs\<close>, \<^verbatim>\<open>egress_openssl.rs\<close>, \<^verbatim>\<open>egress_rustls_aws_lc.rs\<close> and the
    fallback in \<^verbatim>\<open>handle\<close>).
  \<^item> \<open>Http\<close>, \<open>Http_Props\<close>, \<open>Http_Sinks\<close>: request heads, response heads, \<^verbatim>\<open>stream_plain\<close>,
    \<^verbatim>\<open>stream_chunked\<close>; \<open>H2\<close>, \<open>H2_Props\<close>, \<open>Blocking_Io\<close>:
    \<^verbatim>\<open>h2_client.rs\<close>, the client and its adapter over blocking streams.
  \<^item> \<open>Evidence\<close>: the evidence providers, the backends chosen by \<^verbatim>\<open>main\<close>, the client of the
    proof helper.
  \<^item> \<open>Metrics\<close>, \<open>Handler\<close>, \<open>Handler_Props\<close>, \<open>Handler_H2\<close>: the counters, the trailers and \<^verbatim>\<open>handle\<close>.
  \<^item> \<open>Pool\<close>, \<open>Pool_Props\<close>: the acceptor of \<^verbatim>\<open>main\<close>, \<^verbatim>\<open>worker\<close> and \<^verbatim>\<open>bump_max\<close>
    as an interleaving of atomic steps.
  \<^item> \<open>Snapshot\<close>: the metrics port (\<^verbatim>\<open>Metrics::snapshot\<close>, \<^verbatim>\<open>serve_metrics\<close>) with its averages in
    double precision; \<open>Profile_Encode\<close>: the offline tool \<^verbatim>\<open>bin/profile-encode.rs\<close>.
  \<^item> \<open>Unit_Tests\<close>: the definitions evaluated on the inputs of the repository's tests and on its frozen
    signing vectors.

  \<^bold>\<open>How the code is modelled.\<close>  A \<^verbatim>\<open>String\<close> is the list of its UTF-8 bytes as characters, a byte
  vector a list of 8-bit words, \<^verbatim>\<open>usize\<close> a natural number with the wrap-around written out where the
  upstream controls a sum; the counters are 64-bit words.  A reader is the script of what its calls
  return, so a theorem for all scripts covers every segmentation and every fault of a connection; a
  writer has a budget of bytes after which it fails.  Closures that forward a body are functions on an
  explicit state.  Loops over a script recurse on what is left of it; no fuel is needed, and every
  function is total.  Code outside the repository is a parameter: Unicode case mapping, serde's text
  layer and derived parsers, SHA-256, base64 and Ed25519 (records \<open>unicode\<close>, \<open>serde\<close>, \<open>crypto\<close>,
  \<open>enclave\<close>), sockets, TLS libraries, the HTTP/2 library, the attestation devices and the proof helper
  (record \<open>world\<close>).  What is assumed of them is a named hypothesis of the theorem that needs it
  (\<open>unicode_ok\<close>, \<open>b64_strict\<close>, \<open>printer_ok\<close>, \<open>parser_ok\<close>, \<open>no_collision\<close>, \<open>refuses\<close>).

  \<^bold>\<open>Interfaces.\<close>  The contracts between parts are locales, interpreted on the definitions above: codecs of
  the profile format, the streaming aggregators, the chunked parsers, \<open>frame_protocol\<close> on both
  framings, \<open>tls_backend\<close> on the two native TLS stacks, \<open>evidence_provider\<close> on both devices,
  \<open>forwarding_sink\<close> on the sinks of both HTTP versions, \<open>polled_op\<close> on the three calls of the
  adapter.

  \<^bold>\<open>What is shown.\<close>  The signed statement and the canonical text determine what they were made from, down
  to the fields of request and response, short of a collision of SHA-256;
  streaming a response and computing on all of it give the same claims however the network cuts it;
  bodies are forwarded completely and in order or the exchange fails; what is signed is what was
  sent; no failed exchange carries a proof; a client that reads the channel can tell how an exchange ended; a
  well-formed exchange completes; peers are verified;
  evidence is for this key and nonce; a proof of the helper is relayed only for the exchange it was asked
  for; the pool's counters are exact under every interleaving, its
  runs end and it can always be drained; the adapter hides timeouts without losing a byte; the averages
  of the metrics port are right to their rounding; what the profile tool prints is what the enclave
  reads.  Theorems also pin down defects: the size limit on chunked
  bodies can be passed by a wrapped sum (\<open>stream_chunked_limit_passed\<close>), the ordered header template
  is not checked for line breaks (\<open>ordered_headers_injection\<close>), a sniffed stream over the capture limit
  is cut silently (\<open>sniffed_stream_drops_bytes\<close>), one tool-call index grows a list without limit
  (\<open>merge_tool_calls_unbounded\<close>).

  \<^bold>\<open>Not modelled.\<close>  Logging and the calls that set timeouts: a timeout is one of the errors a read or
  write may return.  The text of error messages, which are values of a datatype here.  The threads of
  the operating system below the step relation, and the release of the QingTian descriptor.  Code
  outside the Rust program: the helper written in Go, the verifier written in TypeScript, deployment
  files and documents.
\<close>

section \<open>The exchange\<close>

text \<open>What the base64 decoder promises: text with a line break is refused.\<close>

definition b64_strict :: "('x) crypto_scheme \<Rightarrow> bool" where
  "b64_strict X \<longleftrightarrow> (\<forall>s bs. b64_decode X s = Some bs \<longrightarrow> no_crlf s)"

lemma check_request_fields:
  assumes "check_request X head = Ok nb" and "b64_strict X"
  shows "b64_decode X (nonce head) = Some nb \<and> no_crlf (nonce head) \<and> no_crlf (up_host (upstream head))
    \<and> no_crlf (up_method (upstream head)) \<and> no_crlf (up_path (upstream head))"
  using assms by (auto simp: check_request_def b64_strict_def Let_def split: option.splits if_splits)

lemma sha256_hex_no_crlf: "no_crlf (sha256_hex X bs)"
  by (simp add: sha256_hex_def hex_no_crlf)

lemma checked_fields:
  assumes "check_request X head = Ok nb" and "b64_strict X" and "unicode_ok X" and "no_crlf ctype"
  shows "fields_no_crlf (nonce head) (to_lowercase X (up_host (upstream head))) (path_no_query (up_path (upstream head)))
    (to_uppercase X (up_method (upstream head))) ctype (sha256_hex X body) (sha256_hex X resp)"
  using check_request_fields [OF assms(1,2)] assms(3,4)
  by (simp add: fields_no_crlf_def to_lowercase_no_crlf to_uppercase_no_crlf path_no_query_no_crlf sha256_hex_no_crlf)


lemma sample_X_ok: "unicode_ok sample_X" "b64_strict sample_X"
  by (simp_all add: unicode_ok_def b64_strict_def sample_enclave_def sample_crypto_def crypto.defs)


text \<open>A proof of the helper is the one it answered, in the protocol's version, to the request sent to it.\<close>

lemma request_proof_Ok:
  assumes "request_proof X connect path q = Ok prf"
  shows "\<exists>c raw r resp s. connect path = Ok c \<and> length (proof_request_json X q) \<le> MAX_REQUEST_PAYLOAD
    \<and> helper_read_frame (cn_in c) MAX_RESPONSE_PAYLOAD = (Ok raw, r) \<and> parse_helper_response X raw = Some resp
    \<and> hr_v resp = PROTOCOL_VERSION \<and> hr_ok resp \<and> hr_proof resp = Some s \<and> prf = as_bytes s"
  using assms
  by (auto simp: request_proof_def helper_verdict_def helper_write_frame_def
      split: sum.splits prod.splits option.splits if_splits)


definition helper_world :: world where
  "helper_world = sample_world\<lparr>wd_unix := (\<lambda>_. Ok \<lparr>cn_out = fresh_writer, cn_in = [RData (helper_frame_bytes [123, 125])]\<rparr>)\<rparr>"

lemma helper_world_connect:
  "connect_egress (wd_sockets helper_world) p = Ok (VsockEgress idle_conn)"
  "connect_h1 helper_world None sock host = Ok \<lparr>cn_out = \<lparr>wr_out = [], wr_budget = None\<rparr>, cn_in = map RData sample_response\<rparr>"
  using sample_connect(1) [of p] sample_connect(3) [of sock host] by (simp_all add: helper_world_def connect_h1_def)

lemma helper_handle:
  "\<exists>m' w'. handle sample_X helper_world (AliyunVtpm b) metrics_default sample_request fresh_writer = (Ok (), m', w')"
proof -
  obtain r' where rq: "read_request sample_X sample_request = (Ok (sample_head, [1]), r')" using sample_read_request by blast
  have path: "handle sample_X helper_world (AliyunVtpm b) metrics_default sample_request fresh_writer
      = handle_h1 sample_X helper_world (AliyunVtpm b) sample_head [1] (as_bytes (nonce sample_head)) None
          (VsockEgress idle_conn) metrics_default fresh_writer"
    using handle_h1_path [OF rq sample_check_request helper_world_connect(1)] sample_connect(2) by simp
  have "[] \<notin> set sample_response" by (simp add: sample_response_def)
  with handle_h1_completes [OF helper_world_connect(2) _ _ _ _ sample_parse(1) _ sample_parse(2,3), where w = fresh_writer]
  show ?thesis unfolding path by (simp add: fresh_writer_def MAX_HEAD_def) blast
qed


text \<open>
  C3: One signature, one exchange.  For two requests the handler accepts and any two responses, equal
  signed statements mean equal nonces, hosts, paths, methods, statuses and content types, equal
  digests of both bodies and of the claims: the signature of one exchange proves nothing about another.
\<close>

theorem attested_statement_binds_exchange:
  assumes "unicode_ok X" and "b64_strict X" and "check_request X head = Ok nb" and "check_request X head' = Ok nb'"
    and "no_crlf ctype" and "no_crlf ctype'"
    and "build_v2_statement X (nonce head) (to_lowercase X (up_host (upstream head))) (path_no_query (up_path (upstream head)))
        (to_uppercase X (up_method (upstream head))) status ctype (sha256_hex X body) (sha256_hex X resp) claims
      = build_v2_statement X (nonce head') (to_lowercase X (up_host (upstream head'))) (path_no_query (up_path (upstream head')))
        (to_uppercase X (up_method (upstream head'))) status' ctype' (sha256_hex X body') (sha256_hex X resp') claims'"
  shows "nonce head = nonce head' \<and> nb = nb'
    \<and> to_lowercase X (to_lowercase X (up_host (upstream head))) = to_lowercase X (to_lowercase X (up_host (upstream head')))
    \<and> path_no_query (up_path (upstream head)) = path_no_query (up_path (upstream head'))
    \<and> to_uppercase X (to_uppercase X (up_method (upstream head))) = to_uppercase X (to_uppercase X (up_method (upstream head')))
    \<and> status = status' \<and> ctype = ctype' \<and> sha256_hex X body = sha256_hex X body' \<and> sha256_hex X resp = sha256_hex X resp'
    \<and> map_option (field_claims_sha256_hex X) claims = map_option (field_claims_sha256_hex X) claims'"
  using build_v2_statement_inj [OF assms(1) checked_fields [OF assms(3,2,1,5)] checked_fields [OF assms(4,2,1,6)] assms(7)]
    check_request_fields [OF assms(3,2)] check_request_fields [OF assms(4,2)]
  by auto

text \<open>Two requests that differ in the query only have the same statement; another status has another one.\<close>

definition query_head :: ReqHead where
  "query_head = sample_head\<lparr>upstream := (upstream sample_head)\<lparr>up_path := up_path (upstream sample_head) @ ''?q=1''\<rparr>\<rparr>"

lemma query_head_signed:
  "path_no_query (up_path (upstream query_head)) = path_no_query (up_path (upstream sample_head))"
  "query_head \<noteq> sample_head"
  by code_simp+

lemma query_check_request: "check_request sample_X query_head = Ok (as_bytes (nonce sample_head))"
  by (simp add: check_request_def query_head_def sample_head_def sample_enclave_def sample_crypto_def crypto.defs)

theorem attested_statement_binds_exchange_witness:
  "query_head \<noteq> sample_head \<and> nonce query_head = nonce sample_head
   \<and> path_no_query (up_path (upstream query_head)) = path_no_query (up_path (upstream sample_head))
   \<and> build_v2_statement sample_X (nonce sample_head) (to_lowercase sample_X (up_host (upstream sample_head)))
       (path_no_query (up_path (upstream sample_head))) (to_uppercase sample_X (up_method (upstream sample_head))) 200 ''text/plain''
       (sha256_hex sample_X [1]) (sha256_hex sample_X [2]) None
     \<noteq> build_v2_statement sample_X (nonce sample_head) (to_lowercase sample_X (up_host (upstream sample_head)))
       (path_no_query (up_path (upstream sample_head))) (to_uppercase sample_X (up_method (upstream sample_head))) 404 ''text/plain''
       (sha256_hex sample_X [1]) (sha256_hex sample_X [2]) None"
proof -
  note binds = attested_statement_binds_exchange [OF sample_X_ok]
  have "nonce query_head = nonce sample_head
      \<and> path_no_query (up_path (upstream query_head)) = path_no_query (up_path (upstream sample_head))"
    using binds [OF query_check_request sample_check_request, where ctype = "''text/plain''" and ctype' = "''text/plain''" and status = 200 and status' = 200
        and body = "[1]" and body' = "[1]" and resp = "[2]" and resp' = "[2]" and claims = None and claims' = None]
      query_head_signed(1) by (simp add: query_head_def)
  moreover have "200 = (404 :: u16) \<Longrightarrow> False" by simp
  ultimately show ?thesis
    using query_head_signed(2) binds [OF sample_check_request sample_check_request,
        where ctype = "''text/plain''" and ctype' = "''text/plain''" and status = 200 and status' = 404
        and body = "[1]" and body' = "[1]" and resp = "[2]" and resp' = "[2]" and claims = None and claims' = None]
    by auto
qed

text \<open>
  C4: A signature pins down the fields.  When two exchanges that the handler accepts have equal signed
  statements and one of them has claims, then the other has claims too, and both are about the same
  protocol, the same fields of the request, the same fields of the response and the same mode, however
  the bytes were cut, whichever mode of the collector gathered them and even if nobody kept the bodies:
  short of a collision of SHA-256 on the canonical texts, no relay can show other fields under the
  signature.
\<close>

theorem signature_binds_fields:
  assumes "unicode_ok X" and "b64_strict X" and "parser_ok X" and "printer_ok X"
    and "check_request X head = Ok nb" and "check_request X head' = Ok nb'" and "no_crlf ctype" and "no_crlf ctype'"
    and "collect X env head body ctype chunks meth status = Some claims"
    and "no_collision X (digested X env head body ctype chunks meth status
      \<union> digested X env' head' body' ctype' chunks' meth' status')"
    and "build_v2_statement X (nonce head) (to_lowercase X (up_host (upstream head))) (path_no_query (up_path (upstream head)))
        (to_uppercase X (up_method (upstream head))) status ctype (sha256_hex X body) (sha256_hex X (concat chunks))
        (collect X env head body ctype chunks meth status)
      = build_v2_statement X (nonce head') (to_lowercase X (up_host (upstream head'))) (path_no_query (up_path (upstream head')))
        (to_uppercase X (up_method (upstream head'))) status' ctype' (sha256_hex X body') (sha256_hex X (concat chunks'))
        (collect X env' head' body' ctype' chunks' meth' status')"
  shows "\<exists>protocol req_view resp_view streaming claims'.
    exchange_views X env head body ctype chunks = Some (protocol, req_view, resp_view, streaming)
    \<and> exchange_views X env' head' body' ctype' chunks' = Some (protocol, req_view, resp_view, streaming)
    \<and> collect X env' head' body' ctype' chunks' meth' status' = Some claims'"
proof -
  have digest: "map_option (field_claims_sha256_hex X) (collect X env head body ctype chunks meth status)
      = map_option (field_claims_sha256_hex X) (collect X env' head' body' ctype' chunks' meth' status')"
    using build_v2_statement_inj [OF assms(1) checked_fields [OF assms(5,2,1,7)] checked_fields [OF assms(6,2,1,8)] assms(11)]
    by blast
  then obtain claims' where c': "collect X env' head' body' ctype' chunks' meth' status' = Some claims'"
      and "field_claims_sha256_hex X claims = field_claims_sha256_hex X claims'"
    unfolding assms(9) by (cases "collect X env' head' body' ctype' chunks' meth' status'") auto
  from claims_digest_views [OF assms(3,4,9) c' assms(10) this(2)] collect_Some [OF assms(9)] c' show ?thesis by metis
qed

text \<open>Two enclaves with different default protocols that see the same chat.\<close>

theorem signature_binds_fields_witness:
  "\<exists>claims'. exchange_views (sample_crypto chat_parse) (Some ''cohere.chat'') sample_head (as_bytes ''Q'') ''application/json'' [as_bytes ''A'']
      = Some (''openai.chat_completions'', chat_request, chat_answer, False)
    \<and> collect (sample_crypto chat_parse) (Some ''cohere.chat'') sample_head (as_bytes ''Q'') ''application/json'' [as_bytes ''A'']
      ''POST'' 200 = Some claims'"
proof -
  let ?X = "sample_crypto chat_parse"
  obtain c where c: "collect ?X None sample_head (as_bytes ''Q'') ''application/json'' [as_bytes ''A''] ''POST'' 200 = Some c"
    using chat_exchange(2) by blast
  have X: "unicode_ok ?X" "b64_strict ?X"
    by (rule sample_crypto_unicode_ok) (simp add: b64_strict_def sample_crypto_def)
  have chk: "check_request ?X sample_head = Ok (as_bytes (nonce sample_head))"
    by (simp add: check_request_def sample_head_def sample_crypto_def)
  have ct: "no_crlf ''application/json''" by code_simp
  have same: "collect ?X None sample_head (as_bytes ''Q'') ''application/json'' [as_bytes ''A''] ''POST'' 200
      = collect ?X (Some ''cohere.chat'') sample_head (as_bytes ''Q'') ''application/json'' [as_bytes ''A''] ''POST'' 200"
    by (simp only: collect_views chat_exchange(1))
  from signature_binds_fields [OF X(1,2) chat_parser_ok chat_printer_ok chk chk ct ct c chat_digests, of "Some ''cohere.chat''"] same
  show ?thesis by (simp add: chat_exchange(1) del: as_bytes_simps)
qed

text \<open>
  C5: No proof without success.  An exchange that fails leaves on the control channel whole frames of the
  response head and chunks and at most the beginning of one more frame, for every backend, every
  upstream and every failure of the channel itself: a complete trailer is never among them.
\<close>

theorem handle_failure_no_trailer:
  assumes "handle X W backend m r w = (Err e, m', w')"
  shows "\<exists>frames partial. wr_out w' = wr_out w @ concat (map frame_bytes frames) @ partial
    \<and> (\<forall>f\<in>set frames. fst f \<in> {RESP_HEAD, RESP_CHUNK})
    \<and> (partial = [] \<or> (\<exists>f. strict_prefix partial (frame_bytes f)))"
  using handle_result [OF assms] by (auto simp: broken_def sent_def)

text \<open>A client that hangs up three bytes into the response head.\<close>

definition cut_writer :: writer where
  "cut_writer = \<lparr>wr_out = [], wr_budget = Some 3\<rparr>"

lemma cut_handle:
  "\<exists>w'. handle sample_X sample_world (LocalEvidence sample_backend) metrics_default sample_request cut_writer
       = (Err (WriteRespHead BrokenPipe), metrics_default, w') \<and> length (wr_out w') = 3"
proof -
  let ?B = "LocalEvidence sample_backend"
  obtain r' where rq: "read_request sample_X sample_request = (Ok (sample_head, [1]), r')" using sample_read_request by blast
  have path: "handle sample_X sample_world ?B metrics_default sample_request cut_writer
      = handle_h1 sample_X sample_world ?B sample_head [1] (as_bytes (nonce sample_head)) None
          (VsockEgress idle_conn) metrics_default cut_writer"
    using handle_h1_path [OF rq sample_check_request sample_connect(1)] sample_connect(2) by simp
  obtain left cs where rd: "read_until_headers (map RData sample_response) = (Inr (take 15 (concat sample_response), left), map RData cs)"
    using read_head_loop_finds [of "[]" sample_response 15] sample_parse(1)
    by (auto simp: read_until_headers_def MAX_HEAD_def sample_response_def)
  have "\<exists>w'. write_frame cut_writer RESP_HEAD data = (Err BrokenPipe, w') \<and> length (wr_out w') = 3" for data
    by (simp add: write_frame_def write_all_def cut_writer_def)
  then obtain w' where w': "write_frame cut_writer RESP_HEAD (h1_head_bytes sample_X sample_headers) = (Err BrokenPipe, w')"
    "length (wr_out w') = 3" by blast
  have "h1_respond sample_X sample_world sample_head [1] (map RData sample_response) cut_writer = (Err (WriteRespHead BrokenPipe), w')"
    by (simp add: h1_respond_eq rd sample_parse(2) w' io_result_def)
  then show ?thesis
    unfolding path using w'(2) by (simp add: handle_h1_def sample_connect(3) h1_send_def write_all_unlimited io_result_def Let_def)
qed

theorem handle_failure_no_trailer_witness:
  "\<exists>m' w' frames partial.
     handle sample_X sample_world (LocalEvidence sample_backend) metrics_default sample_request cut_writer
       = (Err (WriteRespHead BrokenPipe), m', w')
     \<and> length (wr_out w') = 3 \<and> wr_out w' = concat (map frame_bytes frames) @ partial
     \<and> (\<forall>f\<in>set frames. fst f \<in> {RESP_HEAD, RESP_CHUNK})
     \<and> (partial = [] \<or> (\<exists>f. strict_prefix partial (frame_bytes f)))"
proof -
  obtain w' where h: "handle sample_X sample_world (LocalEvidence sample_backend) metrics_default sample_request cut_writer
      = (Err (WriteRespHead BrokenPipe), metrics_default, w')" and l: "length (wr_out w') = 3" using cut_handle by blast
  have "wr_out cut_writer = []" by (simp add: cut_writer_def)
  with handle_failure_no_trailer [OF h] h l show ?thesis by auto
qed

text \<open>
  C6: A good exchange completes.  When the request is accepted, the upstream is reached over HTTP/1.1 and
  answers a head within the limit and a body as announced (chunked, with a length, or until the end)
  within the size limit, cut into reads in any way, and the client keeps reading, the exchange ends with
  success and the chunks on the control channel put together are the body.
\<close>

theorem handle_completes:
  assumes "read_request X r = (Ok (head, body), r')" and "check_request X head = Ok nb"
    and "connect_egress (wd_sockets W) (egress_port head) = Ok sock"
    and "\<forall>p. decode_profile X head = Some p \<longrightarrow> stack p \<noteq> RustlsAwsLc"
    and "connect_h1 W (decode_profile X head) sock (up_host (upstream head)) = Ok tls"
    and "wr_budget (cn_out tls) = None" and "wr_budget w = None"
    and "cn_in tls = map RData cs" and "[] \<notin> set cs" and "find (concat cs) head_end = Some pos"
    and "pos + 4 \<le> MAX_HEAD" and "parse_headers X (take pos (concat cs)) = Ok h"
    and "body_of h (drop (pos + 4) (concat cs)) payload"
  shows "\<exists>m' w' chunks. handle X W backend m r w = (Ok (), m', w') \<and> concat chunks = payload
    \<and> wr_out w' = wr_out w @ concat (map frame_bytes
         (exchange_frames X W backend head body nb (h1_head_bytes X h) (hd_status h) (content_type_of h) chunks))"
  using handle_h1_completes [OF assms(5-13), of backend body nb m] handle_h1_path [OF assms(1-4), of backend m w]
  by (auto simp: sent_def)

theorem handle_completes_witness:
  "\<exists>m' w' chunks. handle sample_X sample_world (LocalEvidence sample_backend) metrics_default sample_request fresh_writer
      = (Ok (), m', w') \<and> concat chunks = as_bytes ''hi''"
proof -
  obtain r' where rq: "read_request sample_X sample_request = (Ok (sample_head, [1]), r')" using sample_read_request by blast
  have "[] \<notin> set sample_response" by (simp add: sample_response_def)
  then have "\<exists>m' w' chunks. handle sample_X sample_world (LocalEvidence sample_backend) metrics_default sample_request fresh_writer
      = (Ok (), m', w') \<and> concat chunks = as_bytes ''hi'' \<and> wr_out w' = wr_out fresh_writer @ concat (map frame_bytes
        (exchange_frames sample_X sample_world (LocalEvidence sample_backend) sample_head [1] (as_bytes (nonce sample_head))
          (h1_head_bytes sample_X sample_headers) (hd_status sample_headers) (content_type_of sample_headers) chunks))"
    by (intro handle_completes [OF rq sample_check_request sample_connect(1) _
          sample_connect(3) [folded sample_connect(2)] _ _ _ _ sample_parse(1) _ sample_parse(2,3)])
      (simp_all add: sample_connect(2) fresh_writer_def MAX_HEAD_def)
  then show ?thesis by blast
qed

lemma frame_payload_bound: "f \<in> set frames \<Longrightarrow> length (snd f) \<le> length (concat (map frame_bytes frames))"
  by (induction frames) (auto simp: split_paired_all)

text \<open>
  C8: The client can tell how an exchange ended.  Whatever the upstream does, a client that reads the whole
  control channel, in pieces of any size, gets whole frames and then the end: after a completed exchange
  the head, the chunks and one trailer; after a failed one any number of head and chunk frames and one
  error frame; after a panic only head and chunk frames.  A trailer is never followed by an error frame
  and never missing after success.
\<close>

theorem client_reads_outcome:
  assumes "serve_job X error_text W backend m r w = (res, m', w')" and "wr_out w = []" and "wr_budget w = None"
    and "delivers rd (wr_out w')" and "length (wr_out w') < 2 ^ 32" and "length (wr_out w') \<le> limit"
  shows "\<exists>frames r'. read_many read_frame limit (length frames) rd = (Ok frames, r') \<and> delivers r' []
    \<and> (case res of
         Completed \<Rightarrow> \<exists>hdr chunks trailer. frames = response_frames hdr chunks @ [(RESP_TRAILER, trailer)]
       | Failed \<Rightarrow> \<exists>fs message. frames = fs @ [(ERR, message)] \<and> (\<forall>f\<in>set fs. fst f \<in> {RESP_HEAD, RESP_CHUNK})
       | Panic \<Rightarrow> \<forall>f\<in>set frames. fst f \<in> {RESP_HEAD, RESP_CHUNK})"
    (is "\<exists>frames r'. _ \<and> _ \<and> ?shape frames")
proof -
  obtain hres w1 where h: "handle X W backend m r w = (hres, m', w1)" and res: "res = outcome_of hres"
      and w': "w' = worker_report X error_text hres w1"
    using assms(1) by (auto simp: serve_job_def split: prod.splits)
  have "\<exists>frames. sent w w' frames [] \<and> ?shape frames"
  proof (cases hres)
    case (Inr u)
    with handle_result [OF h] res w' show ?thesis by (auto simp: worker_report_def exchange_frames_def Let_def)
  next
    case (Inl e)
    with handle_result [OF h] obtain fs p where snt: "sent w w1 fs p" and ty: "\<forall>f\<in>set fs. fst f \<in> {RESP_HEAD, RESP_CHUNK}"
      by (auto simp: broken_def)
    with assms(3) have p: "p = []" "wr_budget w1 = None" by (auto simp: sent_def)
    show ?thesis
    proof (cases "outcome_of hres = Failed")
      case True
      with Inl w' obtain message where "w' = snd (write_frame w1 ERR message)" by (auto simp: worker_report_def)
      with p(2) have "write_frame w1 ERR message = (Inr (), w')" by (simp add: write_frame_unlimited)
      from sent_trans [OF _ write_frame_Ok [OF this]] snt p(1) ty True res show ?thesis by auto
    next
      case False
      moreover have "outcome_of (Inl e) \<noteq> Completed" by (cases e) simp_all
      ultimately have "w' = w1" "outcome_of hres = Panic"
        using Inl w' by (cases "outcome_of hres"; simp add: worker_report_def)+
      with snt p(1) ty res show ?thesis by auto
    qed
  qed
  then obtain frames where out: "wr_out w' = concat (map frame_bytes frames)" and shape: "?shape frames"
    using assms(2) by (auto simp: sent_def)
  have "\<forall>f\<in>set frames. (length \<circ> snd) f < 2 ^ 32 \<and> (length \<circ> snd) f \<le> limit"
    using frame_payload_bound [of _ frames] assms(5,6) unfolding out by fastforce
  with control.read_many_wires [of rd frames "[]" limit] assms(4) shape show ?thesis unfolding out by auto
qed

theorem client_reads_outcome_witness:
  "\<exists>res m' w'. serve_job sample_X (\<lambda>_. []) sample_world (LocalEvidence sample_backend) metrics_default [] fresh_writer = (res, m', w')
     \<and> res = Failed \<and> (\<exists>frames r' fs message. read_many read_frame 1000 (length frames) [RData (wr_out w')] = (Ok frames, r')
       \<and> frames = fs @ [(ERR, message)])"
proof -
  have "read_request sample_X [] = (Err (ReadHead UnexpectedEof), [])"
    by (simp add: read_request_def read_frame_def read_exact.simps)
  then have "handle sample_X sample_world (LocalEvidence sample_backend) metrics_default [] fresh_writer
      = (Err (ReadHead UnexpectedEof), metrics_default, fresh_writer)"
    by (simp add: handle_def)
  then obtain w' where s: "serve_job sample_X (\<lambda>_. []) sample_world (LocalEvidence sample_backend) metrics_default [] fresh_writer
      = (Failed, metrics_default, w')"
    and w': "w' = worker_report sample_X (\<lambda>_. []) (Err (ReadHead UnexpectedEof)) fresh_writer"
    by (simp add: serve_job_def)
  have "0 < length (wr_out w') \<and> length (wr_out w') \<le> 1000" unfolding w' by code_simp
  then have len: "wr_out w' \<noteq> []" "length (wr_out w') < 2 ^ 32" "length (wr_out w') \<le> 1000" by auto
  from client_reads_outcome [OF s _ _ delivers_one [OF len(1)] len(2,3)] s show ?thesis by (auto simp: fresh_writer_def)
qed

text \<open>
  C37: The ordered header template is not checked for line breaks.  For every line there is a request that
  passes all checks of the handler and whose HTTP/1.1 request head contains that line as a header line of
  its own, although no header of the template is that line.
\<close>

theorem ordered_headers_injection:
  assumes "b64_decode X n = Some nb" and "no_crlf line"
  shows "\<exists>head. nonce head = n \<and> check_request X head = Ok nb
    \<and> (\<forall>body_len. line \<in> set (split_crlf (h1_request_head X head (to_uppercase X (up_method (upstream head))) body_len)))
    \<and> (\<forall>pair\<in>set (the (up_headers_ordered (upstream head))). line \<noteq> pair ! 0 @ '': '' @ pair ! 1)"
proof -
  define head where "head = \<lparr>nonce = n, egress_port = 443,
      upstream = \<lparr>up_host = ''h'', up_method = ''GET'', up_path = ''/'', up_headers = [],
        up_headers_ordered = Some [[''x'', ''v'' @ crlf @ line]]\<rparr>,
      token = None, client_protocol_family = None, downstream_protocol_family = None,
      protocol_family = None, tls_seed = None, tls_spec = None\<rparr>"
  have chk: "check_request X head = Ok nb" using assms(1) by (simp add: check_request_def head_def)
  have get: "to_uppercase X ''GET'' = ''GET''"
  proof -
    have "is_ascii ''GET''" "to_ascii_uppercase ''GET'' = ''GET''" by code_simp+
    then show ?thesis by (simp add: to_uppercase_def)
  qed
  have "line \<in> set (split_crlf (h1_request_head X head ''GET'' body_len))" for body_len
  proof -
    have x: "\<not> eq_ignore_ascii_case ''x'' ''authorization''" "\<not> eq_ignore_ascii_case ''x'' ''content-length''"
        "\<not> eq_ignore_ascii_case ''x'' ''transfer-encoding''" by code_simp+
    have "h1_request_head X head ''GET'' body_len
        = ''GET / HTTP/1.1'' @ crlf @ (''x: v'' @ crlf @ (line @ crlf @
            (with_crlf (tl (tl (ordered_head_lines ''GET'' ''/'' ''h'' [(''x'', ''v'' @ crlf @ line)] None body_len))) @ crlf)))"
      by (simp add: h1_request_head_def head_def parse_headers_ordered_def build_request_head_ordered_lines
          ordered_head_lines_def ordered_header_lines_def x header_text_def)
    moreover have "no_crlf ''GET / HTTP/1.1''" "no_crlf ''x: v''" by code_simp+
    ultimately show ?thesis using assms(2) by (simp only: split_crlf_line list.set insert_iff simp_thms)
  qed
  moreover have "line \<noteq> ''x'' @ '': '' @ (''v'' @ crlf @ line)"
  proof
    assume "line = ''x'' @ '': '' @ (''v'' @ crlf @ line)"
    then have "length line = length (''x'' @ '': '' @ (''v'' @ crlf @ line))" by (rule arg_cong)
    then show False by simp
  qed
  ultimately show ?thesis using chk get by (intro exI [of _ head]) (simp add: head_def)
qed

theorem ordered_headers_injection_witness:
  "\<exists>head. check_request sample_X head = Ok (as_bytes ''bm9u'')
    \<and> (\<forall>body_len. ''x-forwarded-for: 1'' \<in> set (split_crlf (h1_request_head sample_X head
          (to_uppercase sample_X (up_method (upstream head))) body_len)))"
proof -
  have "b64_decode sample_X ''bm9u'' = Some (as_bytes ''bm9u'')"
    by (simp add: sample_enclave_def sample_crypto_def crypto.defs)
  moreover have "no_crlf ''x-forwarded-for: 1''" by code_simp
  ultimately show ?thesis using ordered_headers_injection [of sample_X "''bm9u''" "as_bytes ''bm9u''" "''x-forwarded-for: 1''"]
    by blast
qed

section \<open>The handler as a step of the pool\<close>

text \<open>At most the counters of the handler differ.\<close>

definition metrics_frame :: "Metrics \<Rightarrow> Metrics \<Rightarrow> bool" where
  "metrics_frame m m' \<longleftrightarrow>
     m' = m\<lparr>nsm_ns_total := nsm_ns_total m', nsm_calls := nsm_calls m', resp_bytes_total := resp_bytes_total m'\<rparr>"

lemma metrics_frame_refl [simp]: "metrics_frame m m"
  by (simp add: metrics_frame_def)

lemma metrics_frame_updates:
  "metrics_frame m (m\<lparr>nsm_ns_total := a, nsm_calls := b\<rparr>)" "metrics_frame m (m\<lparr>resp_bytes_total := c\<rparr>)"
  by (simp_all add: metrics_frame_def)

lemma metrics_frame_trans: "metrics_frame m m1 \<Longrightarrow> metrics_frame m1 m2 \<Longrightarrow> metrics_frame m m2"
  by (cases m; cases m1; cases m2) (simp add: metrics_frame_def)

lemma trailer_metrics:
  "write_attested_trailer X W backend head nb meth status ctype rq rs claims m w = (res, m', w') \<Longrightarrow> metrics_frame m m'"
  by (auto simp: write_attested_trailer_def write_local_attested_trailer_def Let_def metrics_frame_updates
      split: if_splits ProofBackend.splits sum.splits prod.splits)

lemma handle_metrics: "handle X W backend m r w = (res, m', w') \<Longrightarrow> metrics_frame m m'"
  by (auto simp: handle_def handle_h1_def handle_h2_def Let_def
      split: if_splits sum.splits prod.splits option.splits
      intro: metrics_frame_trans [OF metrics_frame_updates(2) trailer_metrics])

text \<open>
  C26: The handler is what the pool runs.  Serving a connection, from its first byte to the worker's
  verdict, is for every backend, upstream and channel a step of a worker in the pool: it changes no
  counter but those of the handler, ends with exactly one verdict, and is counted as completed only
  when the trailer was written.
\<close>

theorem serve_job_is_pool_step:
  "case serve_job X error_text W backend m r w of (res, m', w') \<Rightarrow>
     worker_step (Handling j) m q (Handled j res) m' q []
     \<and> (res = Completed \<longleftrightarrow> (\<exists>w1. handle X W backend m r w = (Ok (), m', w1)))"
proof -
  obtain res m' w' where h: "handle X W backend m r w = (res, m', w')" by (metis prod.exhaust)
  then obtain ns calls bytes where "m' = m\<lparr>nsm_ns_total := ns, nsm_calls := calls, resp_bytes_total := bytes\<rparr>"
    using handle_metrics unfolding metrics_frame_def by blast
  moreover have "outcome_of res = Completed \<longleftrightarrow> res = Inr ()" by (cases res rule: outcome_of.cases) simp_all
  ultimately show ?thesis using h run_handler by (auto simp: serve_job_def)
qed

end
